(* ===== verification/Prelude.thy ===== *)
theory Prelude
  imports Main "HOL-Library.Multiset" "HOL-Library.Char_ord" "HOL-Library.List_Lexorder"
begin

text \<open>
  Shared vocabulary of the ShopApp development: the named collections the component
  theories put their definitions into, and the generic facts on lists keyed by an
  identifier that every component needs (a list of products or comments is an array of
  JSON objects addressed by their numeric \<open>id\<close>). Strings are compared by
  \<^theory_text>\<open>List_Lexorder\<close> over \<^theory_text>\<open>Char_ord\<close>, which the model of
  \<open>String.prototype.localeCompare\<close> uses.
\<close>

named_theorems handler_defs "unfolding rules of the page event handlers"
named_theorems service_defs "unfolding rules of the REST client and the backend endpoints"

subsection \<open>Definitions\<close>

text \<open>\<open>opt_or v d\<close> is the value of an optional field, or the default \<open>d\<close> when absent
  (a property missing from a \<open>Partial<T>\<close> object).\<close>

definition opt_or :: "'a option \<Rightarrow> 'a \<Rightarrow> 'a" where
  "opt_or v d = (case v of None \<Rightarrow> d | Some x \<Rightarrow> x)"

text \<open>\<open>key_free k xs\<close>: no element of \<open>xs\<close> has key \<open>k\<close>.\<close>

abbreviation key_free :: "('a \<Rightarrow> 'k) \<Rightarrow> 'k \<Rightarrow> 'a list \<Rightarrow> bool" where
  "key_free f k xs \<equiv> k \<notin> f ` set xs"

text \<open>Replacing the element with a given key (the update-in-place of a reducer or of a
  \<open>PATCH\<close> handler) keeps the keys.\<close>

definition replace_key :: "('a \<Rightarrow> 'k) \<Rightarrow> 'k \<Rightarrow> 'a \<Rightarrow> 'a list \<Rightarrow> 'a list" where
  "replace_key f k u xs = map (\<lambda>y. if f y = k then u else y) xs"


subsection \<open>Optional fields\<close>

lemma opt_or_simps [simp]:
  "opt_or None d = d"
  "opt_or (Some x) d = x"
  by (simp_all add: opt_or_def)

subsection \<open>Lists keyed by an identifier\<close>

lemma list_all_tl: "list_all P xs \<Longrightarrow> list_all P (tl xs)"
  by (cases xs) simp_all

lemma filter_key_single:
  assumes "distinct (map f xs)" and "x \<in> set xs" and "f x = k"
  shows "filter (\<lambda>y. f y = k) xs = [x]"
  using assms
proof (induction xs)
  case Nil
  then show ?case by simp
next
  case (Cons y ys)
  show ?case
  proof (cases "y = x")
    case True
    with Cons.prems have "f x \<notin> f ` set ys" by simp
    then have "\<forall>z\<in>set ys. f z \<noteq> k" using Cons.prems(3) by (blast intro: imageI)
    with True Cons.prems(3) show ?thesis by (simp add: filter_empty_conv)
  next
    case False
    with Cons.prems have "f y \<noteq> k" by auto
    with False Cons show ?thesis by auto
  qed
qed

lemma find_SomeD: "find P xs = Some x \<Longrightarrow> P x \<and> x \<in> set xs"
  by (induction xs) (auto split: if_splits)

lemma filter_key_none:
  "key_free f k xs \<Longrightarrow> filter (\<lambda>y. f y = k) xs = []"
  by (auto simp: filter_empty_conv)

lemma key_free_filter [simp]:
  "key_free f k (filter (\<lambda>y. f y \<noteq> k) xs)"
  by auto

lemma distinct_map_append_fresh:
  "distinct (map f xs) \<Longrightarrow> key_free f (f x) xs \<Longrightarrow> distinct (map f (xs @ [x]))"
  by auto

lemma map_key_replace_key [simp]:
  "f u = k \<Longrightarrow> map f (replace_key f k u xs) = map f xs"
  by (induction xs) (auto simp: replace_key_def)

lemma replace_key_absent:
  "key_free f k xs \<Longrightarrow> replace_key f k u xs = xs"
  by (induction xs) (auto simp: replace_key_def)

lemma replace_key_member:
  "y \<in> set (replace_key f k u xs) \<Longrightarrow> y = u \<or> (y \<in> set xs \<and> f y \<noteq> k)"
  by (auto simp: replace_key_def)

lemma replace_key_single:
  assumes "distinct (map f xs)" and "x \<in> set xs" and "f x = k" and "f u = k"
  shows "filter (\<lambda>y. f y = k) (replace_key f k u xs) = [u]"
proof -
  have "distinct (map f (replace_key f k u xs))" using assms by simp
  moreover have "u \<in> set (replace_key f k u xs)"
    using assms(2,3) by (force simp: replace_key_def)
  ultimately show ?thesis using assms(4) by (rule filter_key_single)
qed

subsection \<open>Maximum of an identifier list\<close>

text \<open>\<open>Math.max(...xs)\<close> of a non-empty list, folded from its head.\<close>

lemma fold_max_ge_start: "(a::'a::linorder) \<le> fold max xs a"
proof (induction xs arbitrary: a)
  case (Cons y ys)
  have "a \<le> max y a" by simp
  also have "\<dots> \<le> fold max ys (max y a)" by (rule Cons.IH)
  finally show ?case by simp
qed simp

lemma fold_max_ge_member: "(x::'a::linorder) \<in> set xs \<Longrightarrow> x \<le> fold max xs a"
proof (induction xs arbitrary: a)
  case Nil
  then show ?case by simp
next
  case (Cons y ys)
  show ?case
  proof (cases "x = y")
    case True
    have "x \<le> max y a" using True by simp
    also have "\<dots> \<le> fold max ys (max y a)" by (rule fold_max_ge_start)
    finally show ?thesis by simp
  next
    case False
    with Cons.prems have "x \<in> set ys" by simp
    then show ?thesis using Cons.IH by simp
  qed
qed

lemma map_lex_embed:
  assumes f: "\<And>x y. x \<in> S \<Longrightarrow> y \<in> S \<Longrightarrow> f x < f y \<longleftrightarrow> x < y"
    and inj: "\<And>x y. x \<in> S \<Longrightarrow> y \<in> S \<Longrightarrow> f x = f y \<longleftrightarrow> x = y"
  shows "set xs \<subseteq> S \<Longrightarrow> set ys \<subseteq> S \<Longrightarrow>
    (map f xs < map f ys \<longleftrightarrow> xs < ys) \<and> (map f xs \<le> map f ys \<longleftrightarrow> (xs :: 'a :: linorder list) \<le> ys)"
proof (induction xs arbitrary: ys)
  case Nil
  then show ?case by (cases ys) simp_all
next
  case (Cons x xs)
  then show ?case by (cases ys) (auto simp: f inj)
qed

end
