(* ===== verification/Js_Builtins.thy ===== *)
theory Js_Builtins
  imports Prelude "HOL-Library.Product_Lexorder"
begin

text \<open>
  The JavaScript built-ins the pages call, on the integer subset of JS numbers the model
  uses: \<open>Number(s)\<close> on strings (\<open>None\<close> is \<open>NaN\<close>), the decimal rendering of an
  integer that a template literal \<open>`${n}`\<close> produces, \<open>String.prototype.trim\<close>,
  \<open>String.prototype.localeCompare\<close> (the root collation of the Unicode Collation
  Algorithm on ASCII), \<open>Math.max\<close> and the stable \<open>Array.prototype.sort\<close> driven by a
  comparator. Characters are Latin-1 code points (HOL's \<open>char\<close> has 256 values):
  code points above U+00FF are outside the model.
\<close>

subsection \<open>Decimal digits\<close>

definition is_digit :: "char \<Rightarrow> bool" where
  "is_digit c \<longleftrightarrow> CHR ''0'' \<le> c \<and> c \<le> CHR ''9''"

definition digit_val :: "char \<Rightarrow> int" where
  "digit_val c = int (of_char c) - 48"

definition digit_char :: "nat \<Rightarrow> char" where
  "digit_char d = char_of (48 + d)"

text \<open>Reading a digit string left to right, as the number grammar does.\<close>

definition digits_val :: "int \<Rightarrow> string \<Rightarrow> int" where
  "digits_val acc ds = fold (\<lambda>c a. 10 * a + digit_val c) ds acc"

fun nat_digits :: "nat \<Rightarrow> string" where
  "nat_digits n = (if n < 10 then [digit_char n] else nat_digits (n div 10) @ [digit_char (n mod 10)])"

declare nat_digits.simps [simp del]

subsection \<open>White space and \<open>trim\<close>\<close>

definition is_js_space :: "char \<Rightarrow> bool" where
  "is_js_space c \<longleftrightarrow> (let n = (of_char c :: nat) in n = 32 \<or> (9 \<le> n \<and> n \<le> 13) \<or> n = 160)"

definition js_trim :: "string \<Rightarrow> string" where
  "js_trim s = rev (dropWhile is_js_space (rev (dropWhile is_js_space s)))"

subsection \<open>\<open>Number(s)\<close> and \<open>`${n}`\<close>\<close>

text \<open>
  \<open>Number(s)\<close> trims white space, maps the empty string to 0 and reads an optionally
  signed decimal literal; anything else is \<open>NaN\<close> here (JS also reads fractions,
  exponents, hexadecimal and \<open>Infinity\<close>, which the integer model leaves out).
\<close>

definition decimal_literal :: "string \<Rightarrow> int option" where
  "decimal_literal s =
     (case s of
        [] \<Rightarrow> Some 0
      | c # cs \<Rightarrow>
          (let (sg, ds) = (if c = CHR ''-'' then (-1, cs) else if c = CHR ''+'' then (1, cs) else (1, s))
           in if ds \<noteq> [] \<and> list_all is_digit ds then Some (sg * digits_val 0 ds) else None))"

definition js_Number :: "string \<Rightarrow> int option" where
  "js_Number s = decimal_literal (js_trim s)"

definition js_String :: "int \<Rightarrow> string" where
  "js_String i = (if i < 0 then CHR ''-'' # nat_digits (nat (- i)) else nat_digits (nat i))"

subsection \<open>\<open>localeCompare\<close> and \<open>Math.max\<close>\<close>

text \<open>\<open>localeCompare\<close> with the default options compares by the locale's collation, which
  for Latin script is the CLDR root collation: first the primary weights of the whole
  strings (case ignored, control characters ignored), then, on a tie, the case of each
  letter (lower case first). \<open>collation_order\<close> lists the ASCII characters with a primary
  weight in root order: white space, punctuation and symbols, digits, letters. A Latin-1
  character above U+007F is given a primary weight after all of ASCII by its code point;
  the root collation instead gives an accented letter the weight of its base letter, so
  only ASCII strings are compared exactly as the browser does.\<close>

definition collation_order :: "nat list" where
  "collation_order = [9, 10, 11, 12, 13, 32, 95, 45, 44, 59, 58, 33, 63, 46, 39, 34,
     40, 41, 91, 93, 123, 125, 64, 42, 47, 92, 38, 35, 37, 96, 94, 43, 60, 61, 62, 124, 126, 36]
     @ [48..<58] @ [97..<123]"

fun rank_in :: "nat list \<Rightarrow> nat \<Rightarrow> nat" where
  "rank_in [] n = 0"
| "rank_in (x # xs) n = (if x = n then 1 else (case rank_in xs n of 0 \<Rightarrow> 0 | k \<Rightarrow> Suc k))"

definition is_upper :: "char \<Rightarrow> bool" where
  "is_upper c \<longleftrightarrow> (let n = (of_char c :: nat) in 65 \<le> n \<and> n \<le> 90)"

definition lower_code :: "char \<Rightarrow> nat" where
  "lower_code c = (if is_upper c then of_char c + 32 else of_char c)"

text \<open>ASCII letters, on which primary collation is the alphabet with case ignored.\<close>

definition is_ascii_letter :: "char \<Rightarrow> bool" where
  "is_ascii_letter c \<longleftrightarrow> (let n = (of_char c :: nat) in (65 \<le> n \<and> n \<le> 90) \<or> (97 \<le> n \<and> n \<le> 122))"

definition collation_ignorable :: "char \<Rightarrow> bool" where
  "collation_ignorable c \<longleftrightarrow> (let n = (of_char c :: nat) in n < 9 \<or> (14 \<le> n \<and> n < 32) \<or> n = 127)"

definition primary_weight :: "char \<Rightarrow> nat list" where
  "primary_weight c =
     (if collation_ignorable c then []
      else (case rank_in collation_order (lower_code c) of
              0 \<Rightarrow> [100 + of_char c]
            | r \<Rightarrow> [r]))"

definition tertiary_weight :: "char \<Rightarrow> nat list" where
  "tertiary_weight c = (if collation_ignorable c then [] else [if is_upper c then 1 else 0])"

definition collation_key :: "string \<Rightarrow> nat list \<times> nat list" where
  "collation_key s = (concat (map primary_weight s), concat (map tertiary_weight s))"

definition localeCompare :: "string \<Rightarrow> string \<Rightarrow> int" where
  "localeCompare a b =
     (if collation_key a < collation_key b then -1 else if collation_key a = collation_key b then 0 else 1)"

definition Math_max :: "int \<Rightarrow> int list \<Rightarrow> int" where
  "Math_max x xs = fold max xs x"

subsection \<open>\<open>Array.prototype.sort\<close>\<close>

text \<open>
  Since ES2019 \<open>sort\<close> is stable: for a consistent comparator the result is the unique
  stable ordering in which no element is followed by one that the comparator puts before
  it (\<open>cmp a b > 0\<close> means \<open>b\<close> goes first). Engines differ in the algorithm, not in the
  result; the model is the insertion sort that inserts each element before the first
  element it does not follow.
\<close>

fun sort_insert :: "('a \<Rightarrow> 'a \<Rightarrow> int) \<Rightarrow> 'a \<Rightarrow> 'a list \<Rightarrow> 'a list" where
  "sort_insert cmp x [] = [x]"
| "sort_insert cmp x (y # ys) = (if 0 < cmp x y then y # sort_insert cmp x ys else x # y # ys)"

fun array_sort :: "('a \<Rightarrow> 'a \<Rightarrow> int) \<Rightarrow> 'a list \<Rightarrow> 'a list" where
  "array_sort cmp [] = []"
| "array_sort cmp (x # xs) = sort_insert cmp x (array_sort cmp xs)"

subsection \<open>Lemmas\<close>

lemma digit_val_digit_char [simp]: "d < 10 \<Longrightarrow> digit_val (digit_char d) = int d"
  by (simp add: digit_val_def digit_char_def)

lemma is_digit_digit_char [simp]: "d < 10 \<Longrightarrow> is_digit (digit_char d)"
  by (simp add: is_digit_def digit_char_def less_eq_char_def)

lemma not_space_digit_char [simp]: "d < 10 \<Longrightarrow> \<not> is_js_space (digit_char d)"
  by (simp add: is_js_space_def digit_char_def)

lemma digits_val_append [simp]: "digits_val acc (xs @ ys) = digits_val (digits_val acc xs) ys"
  by (simp add: digits_val_def)

lemma digits_val_Cons [simp]: "digits_val acc (c # cs) = digits_val (10 * acc + digit_val c) cs"
  by (simp add: digits_val_def)

lemma digits_val_Nil [simp]: "digits_val acc [] = acc"
  by (simp add: digits_val_def)

lemma nat_digits_props:
  "nat_digits n \<noteq> [] \<and> list_all is_digit (nat_digits n) \<and> digits_val 0 (nat_digits n) = int n"
proof (induction n rule: nat_digits.induct)
  case (1 n)
  show ?case
  proof (cases "n < 10")
    case True
    then show ?thesis by (simp add: nat_digits.simps [of n])
  next
    case False
    with "1.IH" have IH: "list_all is_digit (nat_digits (n div 10))"
      "digits_val 0 (nat_digits (n div 10)) = int (n div 10)" by simp_all
    have "int (10 * (n div 10) + n mod 10) = int n" by simp
    then have "10 * int (n div 10) + int (n mod 10) = int n" by (simp only: of_nat_add of_nat_mult of_nat_numeral)
    with False IH show ?thesis by (simp add: nat_digits.simps [of n])
  qed
qed

lemma nat_digits_hd: "\<exists>d cs. nat_digits n = digit_char d # cs \<and> d < 10"
proof (induction n rule: nat_digits.induct)
  case (1 n)
  show ?case
  proof (cases "n < 10")
    case True
    then show ?thesis by (auto simp: nat_digits.simps [of n])
  next
    case False
    with "1.IH" obtain d cs where "nat_digits (n div 10) = digit_char d # cs" "d < 10" by blast
    with False show ?thesis by (auto simp: nat_digits.simps [of n])
  qed
qed

lemma nat_digits_no_space: "list_all (\<lambda>c. \<not> is_js_space c) (nat_digits n)"
proof -
  have "list_all is_digit (nat_digits n)" using nat_digits_props by blast
  moreover have "is_digit c \<Longrightarrow> \<not> is_js_space c" for c
    by (auto simp: is_digit_def is_js_space_def less_eq_char_def)
  ultimately show ?thesis by (auto simp: list_all_iff)
qed

lemma js_trim_id:
  assumes "s = [] \<or> (\<not> is_js_space (hd s) \<and> \<not> is_js_space (last s))"
  shows "js_trim s = s"
proof (cases s rule: rev_cases)
  case (snoc ys y)
  with assms show ?thesis
    by (cases ys) (auto simp: js_trim_def)
qed (simp add: js_trim_def)

lemma js_trim_all_space: "list_all is_js_space s \<Longrightarrow> js_trim s = []"
  by (auto simp: js_trim_def list_all_iff dest: set_dropWhileD)

lemma sort_insert_insort_key:
  assumes cmp: "\<And>a b. cmp a b \<le> 0 \<longleftrightarrow> key a \<le> key b"
  shows "sort_insert cmp x ys = insort_key key x ys"
proof -
  have "0 < cmp a b \<longleftrightarrow> \<not> key a \<le> key b" for a b using cmp [of a b] by linarith
  then show ?thesis by (induction ys) auto
qed

lemma array_sort_sort_key:
  "(\<And>a b. cmp a b \<le> 0 \<longleftrightarrow> key a \<le> key b) \<Longrightarrow> array_sort cmp xs = sort_key key xs"
  by (induction xs) (simp_all add: sort_insert_insort_key)

lemmas collation_defs = collation_key_def primary_weight_def tertiary_weight_def collation_order_def
  collation_ignorable_def lower_code_def is_upper_def upt_conv_Cons

lemma localeCompare_le [simp]: "localeCompare a b \<le> 0 \<longleftrightarrow> collation_key a \<le> collation_key b"
  by (auto simp: localeCompare_def)

lemma sorted_fst: "sorted (map k xs) \<Longrightarrow> sorted (map (\<lambda>x. fst (k x)) xs)"
  unfolding sorted_map by (erule sorted_wrt_mono_rel [rotated]) (auto simp: less_eq_prod_def)

lemma rank_letters: "list_all (\<lambda>n. rank_in collation_order n = n - 48) [97..<123]"
  by (simp add: collation_order_def upt_conv_Cons)

lemma primary_letter:
  assumes "is_ascii_letter c"
  shows "primary_weight c = [lower_code c - 48]" and "97 \<le> lower_code c" and "lower_code c \<le> 122"
proof -
  have r: "97 \<le> lower_code c" "lower_code c \<le> 122"
    using assms by (auto simp: is_ascii_letter_def lower_code_def is_upper_def Let_def)
  then have "lower_code c \<in> set [97..<123]" unfolding set_upt by simp
  moreover from rank_letters have "\<forall>n\<in>set [97..<123]. rank_in collation_order n = n - 48"
    by (simp only: list_all_iff)
  ultimately have "rank_in collation_order (lower_code c) = lower_code c - 48" by blast
  moreover have "\<not> collation_ignorable c"
    using assms by (auto simp: is_ascii_letter_def collation_ignorable_def Let_def)
  ultimately show "primary_weight c = [lower_code c - 48]"
    using r by (simp add: primary_weight_def split: nat.split)
  show "97 \<le> lower_code c" "lower_code c \<le> 122" using r by simp_all
qed

lemma collation_primary_letters:
  "list_all is_ascii_letter s \<Longrightarrow> fst (collation_key s) = map (\<lambda>n. n - 48) (map lower_code s)"
  by (induction s) (simp_all add: collation_key_def primary_letter(1))

lemma Math_max_ge: "x \<in> set (y # ys) \<Longrightarrow> x \<le> Math_max y ys"
  by (auto simp: Math_max_def intro: fold_max_ge_start fold_max_ge_member)

subsection \<open>\<open>Number(String(n))\<close> is \<open>n\<close>\<close>

text \<open>The printed form of an integer is non-empty and reads back as the same integer: the
  route parameter the list page writes is the id the detail page parses.\<close>

lemma js_String_not_Nil [simp]: "js_String n \<noteq> []"
  using nat_digits_props [of "nat n"] by (simp add: js_String_def)

lemma js_Number_js_String: "js_Number (js_String n) = Some n"
proof -
  obtain d cs where h: "nat_digits (nat \<bar>n\<bar>) = digit_char d # cs" "d < 10"
    using nat_digits_hd by blast
  have props: "nat_digits (nat \<bar>n\<bar>) \<noteq> []" "list_all is_digit (nat_digits (nat \<bar>n\<bar>))"
    "digits_val 0 (nat_digits (nat \<bar>n\<bar>)) = int (nat \<bar>n\<bar>)"
    using nat_digits_props by blast+
  have ns: "list_all (\<lambda>c. \<not> is_js_space c) (nat_digits (nat \<bar>n\<bar>))" by (rule nat_digits_no_space)
  have "js_trim (js_String n) = js_String n"
  proof (rule js_trim_id)
    have "\<not> is_js_space (hd (js_String n))"
      using h not_space_digit_char [OF h(2)] by (auto simp: js_String_def is_js_space_def)
    moreover have "\<not> is_js_space (last (js_String n))"
      using ns props(1) by (auto simp: js_String_def list_all_iff)
    ultimately show "js_String n = [] \<or> \<not> is_js_space (hd (js_String n)) \<and> \<not> is_js_space (last (js_String n))"
      by simp
  qed
  moreover have "decimal_literal (js_String n) = Some n"
  proof (cases "n < 0")
    case True
    then show ?thesis using props h
      by (simp add: js_String_def decimal_literal_def)
  next
    case False
    have "digit_char d \<noteq> CHR ''-''" "digit_char d \<noteq> CHR ''+''"
      using is_digit_digit_char [OF h(2)] by (auto simp: is_digit_def less_eq_char_def)
    then show ?thesis using False props h
      by (simp add: js_String_def decimal_literal_def)
  qed
  ultimately show ?thesis by (simp add: js_Number_def)
qed

end
