(* ===== verification/Product_Types.thy ===== *)
theory Product_Types
  imports Js_Builtins
begin

text \<open>
  The data model of \<open>src/src/types/product.ts\<close>: the interfaces \<open>Size\<close>, \<open>Product\<close>
  and \<open>CommentModel\<close> as records, and the two derived object types the client sends:
  \<open>Omit<CommentModel, "id">\<close> (a new comment) and \<open>Partial<Product>\<close> (a patch). JS
  numbers are integers here. Field names keep the source's names except where they clash
  with a HOL constant: \<open>id\<close> is \<open>pid\<close>/\<open>cid\<close>, \<open>count\<close> is \<open>pcount\<close>, \<open>size\<close>
  is \<open>psize\<close>. The form state both pages keep (\<open>formData\<close>) and its change handler
  are here too, since the two pages share them verbatim.
\<close>

record Size =
  width :: int
  height :: int

record Product =
  pid :: int
  imageUrl :: string
  name :: string
  pcount :: int
  psize :: Size
  weight :: string
  comments :: "int list"

record CommentModel =
  cid :: int
  productId :: int
  description :: string
  date :: string

text \<open>\<open>Omit<CommentModel, "id">\<close>: the body of \<open>POST /comments\<close>.\<close>

record CommentDraft =
  draft_productId :: int
  draft_description :: string
  draft_date :: string

text \<open>\<open>Partial<Product>\<close>: every property optional.\<close>

record ProductPatch =
  patch_pid :: "int option"
  patch_imageUrl :: "string option"
  patch_name :: "string option"
  patch_count :: "int option"
  patch_size :: "Size option"
  patch_weight :: "string option"
  patch_comments :: "int list option"

text \<open>A patch that sets every property to the value of a product.\<close>

definition full_patch :: "Product \<Rightarrow> ProductPatch" where
  "full_patch p =
     \<lparr>patch_pid = Some (pid p), patch_imageUrl = Some (imageUrl p), patch_name = Some (name p),
      patch_count = Some (pcount p), patch_size = Some (psize p), patch_weight = Some (weight p),
      patch_comments = Some (comments p)\<rparr>"

subsection \<open>The product form\<close>

text \<open>\<open>formData\<close> of both pages: the six inputs of the add and the edit modal.\<close>

record FormData =
  f_name :: string
  f_count :: int
  f_width :: int
  f_height :: int
  f_weight :: string
  f_imageUrl :: string

definition empty_form :: FormData where
  "empty_form = \<lparr>f_name = [], f_count = 0, f_width = 0, f_height = 0, f_weight = [], f_imageUrl = []\<rparr>"

text \<open>The \<open>name\<close> attribute of the input that fired the change event.\<close>

datatype FormField = FName | FCount | FWidth | FHeight | FWeight | FImageUrl

text \<open>
  \<open>handleInputChange\<close>: the numeric fields take \<open>Number(value)\<close>, the others the raw
  string. The numeric inputs are \<open>type="number"\<close>, whose value the browser sanitises to
  the empty string when the entry is not a number, and \<open>Number("")\<close> is 0; a value the
  integer model cannot read is therefore taken as that empty string.
\<close>

definition number_input :: "string \<Rightarrow> int" where
  "number_input v = (case js_Number v of Some n \<Rightarrow> n | None \<Rightarrow> 0)"

fun handleInputChange :: "FormField \<Rightarrow> string \<Rightarrow> FormData \<Rightarrow> FormData" where
  "handleInputChange FName v f = f\<lparr>f_name := v\<rparr>"
| "handleInputChange FCount v f = f\<lparr>f_count := number_input v\<rparr>"
| "handleInputChange FWidth v f = f\<lparr>f_width := number_input v\<rparr>"
| "handleInputChange FHeight v f = f\<lparr>f_height := number_input v\<rparr>"
| "handleInputChange FWeight v f = f\<lparr>f_weight := v\<rparr>"
| "handleInputChange FImageUrl v f = f\<lparr>f_imageUrl := v\<rparr>"

text \<open>\<open>!formData.name || !formData.weight || !formData.imageUrl\<close>: the empty string is the
  only falsy string.\<close>

definition form_missing_required :: "FormData \<Rightarrow> bool" where
  "form_missing_required f \<longleftrightarrow> f_name f = [] \<or> f_weight f = [] \<or> f_imageUrl f = []"

end
