(* ===== verification/Backend.thy ===== *)
theory Backend
  imports Product_Types
begin

text \<open>
  The REST backend at \<open>localhost:3001\<close> that \<open>ProductService.ts\<close> talks to. It is not
  part of the repository: it is modelled from the contract of the specification (section 6):
  two collections addressed by numeric id, \<open>GET\<close> of a collection or of one record
  (404 when absent), \<open>POST\<close> with a server-assigned id, \<open>PATCH\<close> that merges the given
  properties into the record at the path (the id at the path is kept), \<open>DELETE\<close> (404 when
  absent), and the \<open>productId\<close> filter on comments. A number that is \<open>NaN\<close> in the client
  is \<open>None\<close> in a path or a query; no record has that id.
\<close>

datatype http_error = TransportError | NotFoundError

record Backend =
  products_db :: "Product list"
  comments_db :: "CommentModel list"
  next_product_id :: int
  next_comment_id :: int

text \<open>The server's invariant: ids are unique per collection and below the next id it assigns.\<close>

definition backend_wf :: "Backend \<Rightarrow> bool" where
  "backend_wf s \<longleftrightarrow>
     distinct (map pid (products_db s)) \<and> (\<forall>p\<in>set (products_db s). pid p < next_product_id s) \<and>
     distinct (map cid (comments_db s)) \<and> (\<forall>c\<in>set (comments_db s). cid c < next_comment_id s)"

subsection \<open>Endpoints\<close>

definition srv_list_products :: "Backend \<Rightarrow> (http_error + Product list) \<times> Backend" where
  "srv_list_products s = (Inr (products_db s), s)"

definition srv_get_product :: "int option \<Rightarrow> Backend \<Rightarrow> (http_error + Product) \<times> Backend" where
  "srv_get_product i s =
     (case find (\<lambda>p. Some (pid p) = i) (products_db s) of
        None \<Rightarrow> (Inl NotFoundError, s)
      | Some p \<Rightarrow> (Inr p, s))"

definition srv_create_product :: "Product \<Rightarrow> Backend \<Rightarrow> (http_error + Product) \<times> Backend" where
  "srv_create_product body s =
     (let p = body\<lparr>pid := next_product_id s\<rparr>
      in (Inr p, s\<lparr>products_db := products_db s @ [p], next_product_id := next_product_id s + 1\<rparr>))"

definition apply_patch :: "ProductPatch \<Rightarrow> Product \<Rightarrow> Product" where
  "apply_patch q p =
     p\<lparr>imageUrl := opt_or (patch_imageUrl q) (imageUrl p), name := opt_or (patch_name q) (name p),
       pcount := opt_or (patch_count q) (pcount p), psize := opt_or (patch_size q) (psize p),
       weight := opt_or (patch_weight q) (weight p), comments := opt_or (patch_comments q) (comments p)\<rparr>"

definition srv_patch_product :: "int \<Rightarrow> ProductPatch \<Rightarrow> Backend \<Rightarrow> (http_error + Product) \<times> Backend" where
  "srv_patch_product i q s =
     (case find (\<lambda>p. pid p = i) (products_db s) of
        None \<Rightarrow> (Inl NotFoundError, s)
      | Some p \<Rightarrow>
          (let p' = apply_patch q p
           in (Inr p', s\<lparr>products_db := replace_key pid i p' (products_db s)\<rparr>)))"

definition srv_delete_product :: "int \<Rightarrow> Backend \<Rightarrow> (http_error + unit) \<times> Backend" where
  "srv_delete_product i s =
     (if list_ex (\<lambda>p. pid p = i) (products_db s)
      then (Inr (), s\<lparr>products_db := filter (\<lambda>p. pid p \<noteq> i) (products_db s)\<rparr>)
      else (Inl NotFoundError, s))"

definition srv_list_comments :: "int option \<Rightarrow> Backend \<Rightarrow> (http_error + CommentModel list) \<times> Backend" where
  "srv_list_comments i s = (Inr (filter (\<lambda>c. Some (productId c) = i) (comments_db s)), s)"

definition srv_create_comment :: "CommentDraft \<Rightarrow> Backend \<Rightarrow> (http_error + CommentModel) \<times> Backend" where
  "srv_create_comment d s =
     (let c = \<lparr>cid = next_comment_id s, productId = draft_productId d,
               description = draft_description d, date = draft_date d\<rparr>
      in (Inr c, s\<lparr>comments_db := comments_db s @ [c], next_comment_id := next_comment_id s + 1\<rparr>))"

definition srv_delete_comment :: "int \<Rightarrow> Backend \<Rightarrow> (http_error + unit) \<times> Backend" where
  "srv_delete_comment i s =
     (if list_ex (\<lambda>c. cid c = i) (comments_db s)
      then (Inr (), s\<lparr>comments_db := filter (\<lambda>c. cid c \<noteq> i) (comments_db s)\<rparr>)
      else (Inl NotFoundError, s))"

lemmas backend_endpoint_defs [service_defs] =
  srv_list_products_def srv_get_product_def srv_create_product_def srv_patch_product_def
  srv_delete_product_def srv_list_comments_def srv_create_comment_def srv_delete_comment_def

subsection \<open>The invariant is kept by every endpoint\<close>

lemma backend_wf_create_product:
  "backend_wf s \<Longrightarrow> backend_wf (snd (srv_create_product body s))"
  by (auto simp: backend_wf_def srv_create_product_def Let_def)

lemma backend_wf_patch_product:
  "backend_wf s \<Longrightarrow> backend_wf (snd (srv_patch_product i q s))"
  by (auto simp: backend_wf_def srv_patch_product_def apply_patch_def Let_def
           dest!: replace_key_member find_Some_iff [THEN iffD1] split: option.splits)

lemma backend_wf_delete_product:
  "backend_wf s \<Longrightarrow> backend_wf (snd (srv_delete_product i s))"
  by (auto simp: backend_wf_def srv_delete_product_def distinct_map_filter)

lemma backend_wf_create_comment:
  "backend_wf s \<Longrightarrow> backend_wf (snd (srv_create_comment d s))"
  by (auto simp: backend_wf_def srv_create_comment_def Let_def)

lemma backend_wf_delete_comment:
  "backend_wf s \<Longrightarrow> backend_wf (snd (srv_delete_comment i s))"
  by (auto simp: backend_wf_def srv_delete_comment_def distinct_map_filter)

lemma backend_reads_unchanged [simp]:
  "snd (srv_list_products s) = s" "snd (srv_get_product j s) = s" "snd (srv_list_comments j s) = s"
  by (simp_all add: srv_list_products_def srv_get_product_def srv_list_comments_def split: option.splits)

lemma next_comment_id_endpoints:
  "next_comment_id (snd (srv_list_products s)) = next_comment_id s"
  "next_comment_id (snd (srv_get_product j s)) = next_comment_id s"
  "next_comment_id (snd (srv_create_product b s)) = next_comment_id s"
  "next_comment_id (snd (srv_patch_product i q s)) = next_comment_id s"
  "next_comment_id (snd (srv_delete_product i s)) = next_comment_id s"
  "next_comment_id (snd (srv_list_comments j s)) = next_comment_id s"
  "next_comment_id (snd (srv_create_comment d s)) = next_comment_id s + 1"
  "next_comment_id (snd (srv_delete_comment i s)) = next_comment_id s"
  by (simp_all add: backend_endpoint_defs Let_def split: option.splits)

lemmas backend_wf_endpoints =
  backend_wf_create_product backend_wf_patch_product backend_wf_delete_product
  backend_wf_create_comment backend_wf_delete_comment

subsection \<open>Functional behaviour of the endpoints\<close>

lemma find_pid_Some:
  "distinct (map pid ps) \<Longrightarrow> p \<in> set ps \<Longrightarrow> find (\<lambda>q. pid q = pid p) ps = Some p"
  by (induction ps) (auto simp: image_iff)

lemma find_pid_None:
  "key_free pid i ps \<Longrightarrow> find (\<lambda>q. pid q = i) ps = None"
  by (auto simp: find_None_iff image_iff)

lemma srv_get_product_found:
  "distinct (map pid (products_db s)) \<Longrightarrow> p \<in> set (products_db s) \<Longrightarrow>
   srv_get_product (Some (pid p)) s = (Inr p, s)"
proof -
  assume d: "distinct (map pid (products_db s))" and m: "p \<in> set (products_db s)"
  have "find (\<lambda>q. Some (pid q) = Some (pid p)) (products_db s) = find (\<lambda>q. pid q = pid p) (products_db s)"
    by simp
  with find_pid_Some [OF d m] show ?thesis by (simp add: srv_get_product_def)
qed

end
