(* ===== verification/Product_Service.thy ===== *)
theory Product_Service
  imports Backend
begin

text \<open>
  The REST client of \<open>src/src/features/products/ProductService.ts\<close>: eight \<open>async\<close>
  functions, each one \<open>axios\<close> request whose \<open>response.data\<close> it returns. A request
  runs against a \<open>world\<close>: the backend, a script of what the network does with each
  request (\<open>Delivered\<close>, \<open>Dropped\<close> before it reaches the server, or \<open>ResponseLost\<close>
  after the server acted on it; an exhausted script delivers), the log of the requests
  sent, and the browser's console and alert output that the pages write. A rejected
  promise is \<open>Inl\<close>: \<open>TransportError\<close> for a network failure, \<open>NotFoundError\<close> for
  a 404, which \<open>axios\<close> rejects as well.
\<close>

datatype delivery = Delivered | Dropped | ResponseLost

datatype request =
    GetProducts
  | GetProduct "int option"
  | PostProduct Product
  | DeleteProduct int
  | PatchProduct int ProductPatch
  | GetComments "int option"
  | PostComment CommentDraft
  | DeleteComment int

record world =
  backend :: Backend
  network :: "delivery list"
  requests :: "request list"
  console :: "string list"
  alerts :: "string list"

type_synonym 'a remote = "world \<Rightarrow> (http_error + 'a) \<times> world"

definition pop_delivery :: "delivery list \<Rightarrow> delivery \<times> delivery list" where
  "pop_delivery ds = (case ds of [] \<Rightarrow> (Delivered, []) | d # ds' \<Rightarrow> (d, ds'))"

text \<open>One physical request: it is logged, the network decides its fate, and a delivered
  request runs the endpoint on the backend.\<close>

definition call :: "request \<Rightarrow> (Backend \<Rightarrow> (http_error + 'a) \<times> Backend) \<Rightarrow> 'a remote" where
  "call rq endpoint w =
     (let (d, rest) = pop_delivery (network w);
          w1 = w\<lparr>network := rest, requests := requests w @ [rq]\<rparr>
      in case d of
           Dropped \<Rightarrow> (Inl TransportError, w1)
         | Delivered \<Rightarrow> (fst (endpoint (backend w)), w1\<lparr>backend := snd (endpoint (backend w))\<rparr>)
         | ResponseLost \<Rightarrow> (Inl TransportError, w1\<lparr>backend := snd (endpoint (backend w))\<rparr>))"

subsection \<open>The client functions\<close>

definition fetchProducts :: "Product list remote" where
  "fetchProducts = call GetProducts srv_list_products"

definition addProduct :: "Product \<Rightarrow> Product remote" where
  "addProduct product = call (PostProduct product) (srv_create_product product)"

definition deleteProduct :: "int \<Rightarrow> unit remote" where
  "deleteProduct i = call (DeleteProduct i) (srv_delete_product i)"

definition updateProduct :: "int \<Rightarrow> ProductPatch \<Rightarrow> Product remote" where
  "updateProduct i updatedData = call (PatchProduct i updatedData) (srv_patch_product i updatedData)"

definition fetchProductById :: "int option \<Rightarrow> Product remote" where
  "fetchProductById i = call (GetProduct i) (srv_get_product i)"

definition fetchComments :: "int option \<Rightarrow> CommentModel list remote" where
  "fetchComments i = call (GetComments i) (srv_list_comments i)"

definition addComment :: "CommentDraft \<Rightarrow> CommentModel remote" where
  "addComment comment = call (PostComment comment) (srv_create_comment comment)"

definition deleteComment :: "int \<Rightarrow> unit remote" where
  "deleteComment i = call (DeleteComment i) (srv_delete_comment i)"

lemmas client_defs [service_defs] =
  fetchProducts_def addProduct_def deleteProduct_def updateProduct_def
  fetchProductById_def fetchComments_def addComment_def deleteComment_def

text \<open>\<open>console.error(msg, error)\<close> and \<open>alert(msg)\<close>: output the pages write.\<close>

definition console_error :: "string \<Rightarrow> world \<Rightarrow> world" where
  "console_error msg w = w\<lparr>console := console w @ [msg]\<rparr>"

definition window_alert :: "string \<Rightarrow> world \<Rightarrow> world" where
  "window_alert msg w = w\<lparr>alerts := alerts w @ [msg]\<rparr>"

text \<open>A network that delivers every request still to be sent.\<close>

definition fault_free :: "world \<Rightarrow> bool" where
  "fault_free w \<longleftrightarrow> list_all (\<lambda>d. d = Delivered) (network w)"

subsection \<open>Sample data for the witnesses\<close>

definition demo_product :: Product where
  "demo_product = \<lparr>pid = 0, imageUrl = ''img.png'', name = ''Lamp'', pcount = 5,
     psize = \<lparr>width = 10, height = 20\<rparr>, weight = ''2kg'', comments = []\<rparr>"

definition demo_backend :: Backend where
  "demo_backend = \<lparr>products_db = [], comments_db = [], next_product_id = 1, next_comment_id = 1\<rparr>"

definition demo_world :: world where
  "demo_world = \<lparr>backend = demo_backend, network = [], requests = [], console = [], alerts = []\<rparr>"

text \<open>The same backend after the sample product was created under id 1.\<close>

definition demo_world1 :: world where
  "demo_world1 = demo_world\<lparr>backend := demo_backend\<lparr>products_db := [demo_product\<lparr>pid := 1\<rparr>],
     next_product_id := 2\<rparr>\<rparr>"

lemmas demo_defs = demo_product_def demo_backend_def demo_world_def demo_world1_def

subsection \<open>Facts about one request\<close>

lemma call_requests [simp]: "requests (snd (call rq e w)) = requests w @ [rq]"
  by (simp add: call_def Let_def split: prod.splits delivery.splits)

lemma call_console [simp]: "console (snd (call rq e w)) = console w"
  by (simp add: call_def Let_def split: prod.splits delivery.splits)

lemma call_alerts [simp]: "alerts (snd (call rq e w)) = alerts w"
  by (simp add: call_def Let_def split: prod.splits delivery.splits)

text \<open>A fulfilled promise means the request was delivered and the endpoint answered it.\<close>

lemma call_Inr:
  "call rq e w = (Inr a, w') \<Longrightarrow> e (backend w) = (Inr a, backend w')"
  by (cases "e (backend w)")
     (auto simp: call_def Let_def pop_delivery_def split: list.splits delivery.splits if_splits)

lemma call_backend_cases:
  "backend (snd (call rq e w)) = backend w \<or> backend (snd (call rq e w)) = snd (e (backend w))"
  by (auto simp: call_def Let_def split: prod.splits delivery.splits)

lemma call_keeps:
  assumes "P (backend w)" and "\<And>s. P s \<Longrightarrow> P (snd (e s))"
  shows "P (backend (snd (call rq e w)))"
  using call_backend_cases [of rq e w] assms by auto

lemma call_keeps_result:
  "call rq e w = (r, w') \<Longrightarrow> P (backend w) \<Longrightarrow> (\<And>s. P s \<Longrightarrow> P (snd (e s))) \<Longrightarrow> P (backend w')"
  using call_keeps [of P w e rq] by simp

lemma call_fault_free:
  assumes "fault_free w"
  shows "call rq e w = (fst (e (backend w)),
            w\<lparr>network := tl (network w), requests := requests w @ [rq], backend := snd (e (backend w))\<rparr>)"
    and "fault_free (snd (call rq e w))"
  using assms
  by (auto simp: call_def fault_free_def pop_delivery_def Let_def split: list.splits)

lemma call_network [simp]: "network (snd (call rq e w)) = tl (network w)"
  by (auto simp: call_def pop_delivery_def Let_def split: list.splits delivery.splits)

lemma call_fault_free_result: "call rq e w = (r, w') \<Longrightarrow> fault_free w \<Longrightarrow> fault_free w'"
  using call_fault_free(2) [of w rq e] by simp

lemma fault_free_tl [simp]:
  "fault_free w \<Longrightarrow> fault_free (w\<lparr>network := tl (network w), requests := r, backend := b\<rparr>)"
  by (cases "network w") (simp_all add: fault_free_def)

lemma call_delivered:
  "network w = Delivered # ds \<Longrightarrow>
   call rq e w = (fst (e (backend w)),
     w\<lparr>network := ds, requests := requests w @ [rq], backend := snd (e (backend w))\<rparr>)"
  by (simp add: call_def pop_delivery_def)

lemma call_dropped:
  "network w = Dropped # ds \<Longrightarrow>
   call rq e w = (Inl TransportError, w\<lparr>network := ds, requests := requests w @ [rq]\<rparr>)"
  by (simp add: call_def pop_delivery_def)

lemma call_lost:
  "network w = ResponseLost # ds \<Longrightarrow>
   call rq e w = (Inl TransportError,
     w\<lparr>network := ds, requests := requests w @ [rq], backend := snd (e (backend w))\<rparr>)"
  by (simp add: call_def pop_delivery_def)

lemma console_error_simps [simp]:
  "backend (console_error m w) = backend w" "requests (console_error m w) = requests w"
  "network (console_error m w) = network w" "alerts (console_error m w) = alerts w"
  by (simp_all add: console_error_def)

lemma window_alert_simps [simp]:
  "backend (window_alert m w) = backend w" "requests (window_alert m w) = requests w"
  "network (window_alert m w) = network w" "console (window_alert m w) = console w"
  by (simp_all add: window_alert_def)

lemma fault_free_output [simp]:
  "fault_free (console_error m w) = fault_free w" "fault_free (window_alert m w) = fault_free w"
  by (simp_all add: fault_free_def)

lemma pid_apply_patch [simp]: "pid (apply_patch q p) = pid p"
  by (simp add: apply_patch_def)

text \<open>What a fulfilled read returns.\<close>

lemma fetchProducts_Inr:
  "fetchProducts w = (Inr ps, w') \<Longrightarrow> ps = products_db (backend w) \<and> backend w' = backend w"
  unfolding fetchProducts_def by (drule call_Inr) (auto simp: srv_list_products_def)

lemma fetchProductById_Inr:
  "fetchProductById i w = (Inr p, w') \<Longrightarrow>
   find (\<lambda>q. Some (pid q) = i) (products_db (backend w)) = Some p \<and> backend w' = backend w"
  unfolding fetchProductById_def
  by (drule call_Inr) (auto simp: srv_get_product_def split: option.splits)

lemma fetchComments_Inr:
  "fetchComments i w = (Inr cs, w') \<Longrightarrow>
   cs = filter (\<lambda>c. Some (productId c) = i) (comments_db (backend w)) \<and> backend w' = backend w"
  unfolding fetchComments_def by (drule call_Inr) (auto simp: srv_list_comments_def)

text \<open>Every client function keeps the backend invariant, stated for a call's result.\<close>

lemma backend_wf_client:
  "fetchProducts w = (r1, w1) \<Longrightarrow> backend_wf (backend w) \<Longrightarrow> backend_wf (backend w1)"
  "addProduct p w = (r2, w2) \<Longrightarrow> backend_wf (backend w) \<Longrightarrow> backend_wf (backend w2)"
  "deleteProduct i w = (r3, w3) \<Longrightarrow> backend_wf (backend w) \<Longrightarrow> backend_wf (backend w3)"
  "updateProduct i q w = (r4, w4) \<Longrightarrow> backend_wf (backend w) \<Longrightarrow> backend_wf (backend w4)"
  "fetchProductById j w = (r5, w5) \<Longrightarrow> backend_wf (backend w) \<Longrightarrow> backend_wf (backend w5)"
  "fetchComments j w = (r6, w6) \<Longrightarrow> backend_wf (backend w) \<Longrightarrow> backend_wf (backend w6)"
  "addComment d w = (r7, w7) \<Longrightarrow> backend_wf (backend w) \<Longrightarrow> backend_wf (backend w7)"
  "deleteComment i w = (r8, w8) \<Longrightarrow> backend_wf (backend w) \<Longrightarrow> backend_wf (backend w8)"
  unfolding client_defs
  by (erule call_keeps_result, assumption, simp add: backend_wf_endpoints)+

lemma next_comment_id_client:
  "fetchProductById j w = (r1, w1) \<Longrightarrow> next_comment_id (backend w) \<le> next_comment_id (backend w1)"
  "fetchComments j w = (r2, w2) \<Longrightarrow> next_comment_id (backend w) \<le> next_comment_id (backend w2)"
  "updateProduct i q w = (r3, w3) \<Longrightarrow> next_comment_id (backend w) \<le> next_comment_id (backend w3)"
  "addComment d w = (r4, w4) \<Longrightarrow> next_comment_id (backend w) \<le> next_comment_id (backend w4)"
  "deleteComment i w = (r5, w5) \<Longrightarrow> next_comment_id (backend w) \<le> next_comment_id (backend w5)"
  unfolding client_defs
  by (erule call_keeps_result [where P = "\<lambda>b. next_comment_id (backend w) \<le> next_comment_id b"],
      simp, simp add: next_comment_id_endpoints)+

lemma addComment_Inr:
  "addComment d w = (Inr c, w1) \<Longrightarrow>
   c = \<lparr>cid = next_comment_id (backend w), productId = draft_productId d,
        description = draft_description d, date = draft_date d\<rparr> \<and>
   next_comment_id (backend w1) = next_comment_id (backend w) + 1"
  unfolding addComment_def
  by (drule call_Inr) (auto simp: srv_create_comment_def Let_def dest: arg_cong [where f = next_comment_id])

lemma updateProduct_Inr:
  "updateProduct i q w = (Inr u, w1) \<Longrightarrow> pid u = i"
  unfolding updateProduct_def
  by (drule call_Inr) (auto simp: srv_patch_product_def Let_def dest: find_SomeD split: option.splits)

lemma fault_free_client:
  "fetchProducts w = (r1, w1) \<Longrightarrow> fault_free w \<Longrightarrow> fault_free w1"
  "addProduct p w = (r2, w2) \<Longrightarrow> fault_free w \<Longrightarrow> fault_free w2"
  "deleteProduct i w = (r3, w3) \<Longrightarrow> fault_free w \<Longrightarrow> fault_free w3"
  "updateProduct i q w = (r4, w4) \<Longrightarrow> fault_free w \<Longrightarrow> fault_free w4"
  "fetchProductById j w = (r5, w5) \<Longrightarrow> fault_free w \<Longrightarrow> fault_free w5"
  "fetchComments j w = (r6, w6) \<Longrightarrow> fault_free w \<Longrightarrow> fault_free w6"
  "addComment d w = (r7, w7) \<Longrightarrow> fault_free w \<Longrightarrow> fault_free w7"
  "deleteComment i w = (r8, w8) \<Longrightarrow> fault_free w \<Longrightarrow> fault_free w8"
  unfolding client_defs by (erule call_fault_free_result, assumption)+

text \<open>Only the product endpoints write the product collection.\<close>

lemma products_db_client:
  "fetchProductById j w = (r1, w1) \<Longrightarrow> products_db (backend w1) = products_db (backend w)"
  "fetchComments j w = (r2, w2) \<Longrightarrow> products_db (backend w2) = products_db (backend w)"
  "addComment d w = (r3, w3) \<Longrightarrow> products_db (backend w3) = products_db (backend w)"
  "deleteComment i w = (r4, w4) \<Longrightarrow> products_db (backend w4) = products_db (backend w)"
  "fetchProducts w = (r5, w5) \<Longrightarrow> products_db (backend w5) = products_db (backend w)"
  unfolding client_defs
  by (erule call_keeps_result [where P = "\<lambda>b. products_db b = products_db (backend w)"],
      simp, simp add: backend_endpoint_defs Let_def split: option.splits)+

lemma fetchProducts_distinct:
  "backend_wf (backend w) \<Longrightarrow> fetchProducts w = (Inr ps, w1) \<Longrightarrow> distinct (map pid ps)"
  by (auto dest: fetchProducts_Inr simp: backend_wf_def)

subsection \<open>Round trips through the backend\<close>

text \<open>C1: after a successful \<open>addProduct\<close>, a successful \<open>fetchProducts\<close> returns the
  created record, and exactly once under its id.\<close>

theorem create_then_list_once:
  assumes wf: "backend_wf (backend w)"
    and add: "addProduct body w = (Inr p, w1)"
    and list: "fetchProducts w1 = (Inr ps, w2)"
  shows "filter (\<lambda>q. pid q = pid p) ps = [p]"
proof -
  from add have srv: "srv_create_product body (backend w) = (Inr p, backend w1)"
    unfolding addProduct_def by (rule call_Inr)
  then have "backend w1 = (backend w)\<lparr>products_db := products_db (backend w) @ [p],
      next_product_id := next_product_id (backend w) + 1\<rparr>"
    by (auto simp: srv_create_product_def Let_def)
  then have db: "products_db (backend w1) = products_db (backend w) @ [p]" by simp
  from wf srv have "backend_wf (backend w1)"
    using backend_wf_create_product [of "backend w" body] by simp
  then have "distinct (map pid (products_db (backend w1)))" by (simp add: backend_wf_def)
  moreover from list have "ps = products_db (backend w1)" by (simp add: fetchProducts_Inr)
  ultimately have "distinct (map pid ps)" and "p \<in> set ps" using db by simp_all
  then show ?thesis by (rule filter_key_single) (rule refl)
qed

lemma create_then_list_once_witness:
  "\<exists>w1 ps w2. addProduct demo_product demo_world = (Inr (demo_product\<lparr>pid := 1\<rparr>), w1) \<and>
     fetchProducts w1 = (Inr ps, w2) \<and>
     filter (\<lambda>q. pid q = pid (demo_product\<lparr>pid := 1\<rparr>)) ps = [demo_product\<lparr>pid := 1\<rparr>]"
proof -
  let ?w1 = "snd (addProduct demo_product demo_world)"
  let ?r = "fetchProducts ?w1"
  have h1: "backend_wf (backend demo_world)" by (simp add: demo_defs backend_wf_def)
  have h2: "addProduct demo_product demo_world = (Inr (demo_product\<lparr>pid := 1\<rparr>), ?w1)"
    by (simp add: demo_defs addProduct_def call_def pop_delivery_def srv_create_product_def Let_def)
  have h3: "?r = (Inr [demo_product\<lparr>pid := 1\<rparr>], snd ?r)"
    by (simp add: demo_defs client_defs call_def pop_delivery_def srv_create_product_def
        srv_list_products_def Let_def)
  show ?thesis using h2 h3 create_then_list_once [OF h1 h2 h3] by blast
qed

text \<open>C2: after a successful \<open>deleteProduct i\<close>, a successful \<open>fetchProducts\<close> has no
  record with id \<open>i\<close>.\<close>

theorem delete_then_list_excludes:
  assumes del: "deleteProduct i w = (Inr u, w1)"
    and list: "fetchProducts w1 = (Inr ps, w2)"
  shows "key_free pid i ps"
proof -
  from del have "srv_delete_product i (backend w) = (Inr u, backend w1)"
    unfolding deleteProduct_def by (rule call_Inr)
  then have "backend w1 = (backend w)\<lparr>products_db := filter (\<lambda>p. pid p \<noteq> i) (products_db (backend w))\<rparr>"
    by (auto simp: srv_delete_product_def split: if_splits)
  with fetchProducts_Inr [OF list] show ?thesis by auto
qed

lemma delete_then_list_excludes_witness:
  "\<exists>w1 ps w2. deleteProduct 1 demo_world1 = (Inr (), w1) \<and> fetchProducts w1 = (Inr ps, w2) \<and>
     key_free pid 1 ps"
proof -
  let ?w1 = "snd (deleteProduct 1 demo_world1)"
  have h1: "deleteProduct 1 demo_world1 = (Inr (), ?w1)"
    by (simp add: demo_defs client_defs call_def pop_delivery_def srv_delete_product_def)
  have h2: "fetchProducts ?w1 = (Inr [], snd (fetchProducts ?w1))"
    by (simp add: demo_defs client_defs call_def pop_delivery_def srv_delete_product_def
        srv_list_products_def)
  show ?thesis using h1 h2 delete_then_list_excludes [OF h1 h2] by blast
qed

text \<open>C3: after a successful \<open>updateProduct i q\<close>, a successful \<open>fetchProductById i\<close>
  returns the record the update returned, which is the old record with exactly the
  properties of \<open>q\<close> replaced.\<close>

theorem update_then_get:
  assumes wf: "backend_wf (backend w)"
    and old: "find (\<lambda>r. pid r = i) (products_db (backend w)) = Some p"
    and upd: "updateProduct i q w = (Inr u, w1)"
    and get: "fetchProductById (Some i) w1 = (Inr g, w2)"
  shows "g = u \<and> g = apply_patch q p"
proof -
  let ?db = "products_db (backend w)"
  from upd have "srv_patch_product i q (backend w) = (Inr u, backend w1)"
    unfolding updateProduct_def by (rule call_Inr)
  with old have u: "u = apply_patch q p"
    and w1: "backend w1 = (backend w)\<lparr>products_db := replace_key pid i u ?db\<rparr>"
    by (auto simp: srv_patch_product_def Let_def)
  from old have pi: "pid p = i" and pm: "p \<in> set ?db" by (auto dest: find_SomeD)
  from wf have "distinct (map pid ?db)" by (simp add: backend_wf_def)
  with u pi have dist: "distinct (map pid (replace_key pid i u ?db))" by simp
  from pm pi have um: "u \<in> set (replace_key pid i u ?db)"
    by (force simp: replace_key_def)
  from get w1 have "find (\<lambda>r. pid r = i) (replace_key pid i u ?db) = Some g"
    by (auto dest!: fetchProductById_Inr)
  moreover from dist um have "find (\<lambda>r. pid r = pid u) (replace_key pid i u ?db) = Some u"
    by (rule find_pid_Some)
  ultimately show ?thesis using u pi by simp
qed

lemma update_then_get_witness:
  "\<exists>u w1 g w2. updateProduct 1 (full_patch (demo_product\<lparr>pid := 1, name := ''Desk''\<rparr>)) demo_world1 = (Inr u, w1) \<and>
     fetchProductById (Some 1) w1 = (Inr g, w2) \<and>
     g = u \<and> g = apply_patch (full_patch (demo_product\<lparr>pid := 1, name := ''Desk''\<rparr>)) (demo_product\<lparr>pid := 1\<rparr>)"
proof -
  let ?q = "full_patch (demo_product\<lparr>pid := 1, name := ''Desk''\<rparr>)"
  let ?u = "demo_product\<lparr>pid := 1, name := ''Desk''\<rparr>"
  let ?w1 = "snd (updateProduct 1 ?q demo_world1)"
  have h1: "backend_wf (backend demo_world1)" by (simp add: demo_defs backend_wf_def)
  have h2: "find (\<lambda>r. pid r = 1) (products_db (backend demo_world1)) = Some (demo_product\<lparr>pid := 1\<rparr>)"
    by (simp add: demo_defs)
  have h3: "updateProduct 1 ?q demo_world1 = (Inr ?u, ?w1)"
    by (simp add: demo_defs client_defs call_def pop_delivery_def srv_patch_product_def
        apply_patch_def full_patch_def Let_def)
  have h4: "fetchProductById (Some 1) ?w1 = (Inr ?u, snd (fetchProductById (Some 1) ?w1))"
    by (simp add: demo_defs client_defs call_def pop_delivery_def srv_patch_product_def
        srv_get_product_def apply_patch_def full_patch_def replace_key_def Let_def)
  show ?thesis using h3 h4 update_then_get [OF h1 h2 h3 h4] by blast
qed

subsection \<open>One request per call, no retry\<close>

text \<open>C4: every client function sends exactly one request, the one for its endpoint,
  whatever the network does with it: no function retries or sends a second request.\<close>

theorem service_one_request:
  "requests (snd (fetchProducts w)) = requests w @ [GetProducts] \<and>
   requests (snd (addProduct p w)) = requests w @ [PostProduct p] \<and>
   requests (snd (deleteProduct i w)) = requests w @ [DeleteProduct i] \<and>
   requests (snd (updateProduct i q w)) = requests w @ [PatchProduct i q] \<and>
   requests (snd (fetchProductById j w)) = requests w @ [GetProduct j] \<and>
   requests (snd (fetchComments j w)) = requests w @ [GetComments j] \<and>
   requests (snd (addComment d w)) = requests w @ [PostComment d] \<and>
   requests (snd (deleteComment i w)) = requests w @ [DeleteComment i]"
  by (simp add: client_defs)

subsection \<open>Failed requests\<close>

text \<open>A request whose response is lost rejects with \<open>TransportError\<close> although the
  server acted on it: after a rejected \<open>deleteProduct i\<close> the product may be gone.\<close>

theorem lost_delete_applied:
  assumes "network w = ResponseLost # ds"
  shows "fst (deleteProduct i w) = Inl TransportError \<and>
    key_free pid i (products_db (backend (snd (deleteProduct i w))))"
  using assms by (auto simp: deleteProduct_def call_lost srv_delete_product_def list_ex_iff)

lemma lost_delete_applied_witness:
  "fst (deleteProduct 1 (demo_world1\<lparr>network := [ResponseLost]\<rparr>)) = Inl TransportError \<and>
   products_db (backend (snd (deleteProduct 1 (demo_world1\<lparr>network := [ResponseLost]\<rparr>)))) = []"
proof -
  have h: "network (demo_world1\<lparr>network := [ResponseLost]\<rparr>) = ResponseLost # []" by simp
  have "products_db (backend demo_world1) = [demo_product\<lparr>pid := 1\<rparr>]" by (simp add: demo_defs)
  then show ?thesis using lost_delete_applied [OF h, of 1]
    by (simp add: deleteProduct_def call_lost srv_delete_product_def)
qed

text \<open>A request dropped before it reaches the server rejects with \<open>TransportError\<close>
  and leaves the backend as it was; the request is still the only one sent.\<close>

theorem dropped_request_no_effect:
  assumes "network w = Dropped # ds"
  shows "addProduct p w = (Inl TransportError, w\<lparr>network := ds, requests := requests w @ [PostProduct p]\<rparr>) \<and>
    deleteProduct i w = (Inl TransportError, w\<lparr>network := ds, requests := requests w @ [DeleteProduct i]\<rparr>) \<and>
    updateProduct i q w = (Inl TransportError, w\<lparr>network := ds, requests := requests w @ [PatchProduct i q]\<rparr>) \<and>
    addComment d w = (Inl TransportError, w\<lparr>network := ds, requests := requests w @ [PostComment d]\<rparr>) \<and>
    deleteComment i w = (Inl TransportError, w\<lparr>network := ds, requests := requests w @ [DeleteComment i]\<rparr>)"
  using assms by (simp add: client_defs call_dropped)

lemma dropped_request_no_effect_witness:
  "fst (addProduct demo_product (demo_world\<lparr>network := [Dropped]\<rparr>)) = Inl TransportError \<and>
   backend (snd (addProduct demo_product (demo_world\<lparr>network := [Dropped]\<rparr>))) = demo_backend"
proof -
  have h: "network (demo_world\<lparr>network := [Dropped]\<rparr>) = Dropped # []" by simp
  show ?thesis using dropped_request_no_effect [OF h, of demo_product] by (simp add: demo_defs)
qed

end
