(* ===== verification/Product_Slice.thy ===== *)
theory Product_Slice
  imports Product_Types
begin

text \<open>
  The catalogue store: the Redux slice \<open>features/products/productSlice\<close> that both pages
  import. Its file is not in the repository; its four reducers are modelled from the
  specification (section 4.2, the Catalog Store) and from the way the pages dispatch them:
  \<open>setProducts\<close> replaces the snapshot, \<open>addProduct\<close> appends one record,
  \<open>deleteProduct\<close> removes by id and \<open>updateProduct\<close> replaces the record with the
  id of the one given, in place. The state is the product array
  \<open>state.products.products\<close>.
\<close>

type_synonym ProductsState = "Product list"

definition slice_setProducts :: "Product list \<Rightarrow> ProductsState \<Rightarrow> ProductsState" where
  "slice_setProducts ps st = ps"

definition slice_addProduct :: "Product \<Rightarrow> ProductsState \<Rightarrow> ProductsState" where
  "slice_addProduct p st = st @ [p]"

definition slice_deleteProduct :: "int \<Rightarrow> ProductsState \<Rightarrow> ProductsState" where
  "slice_deleteProduct i st = filter (\<lambda>p. pid p \<noteq> i) st"

definition slice_updateProduct :: "Product \<Rightarrow> ProductsState \<Rightarrow> ProductsState" where
  "slice_updateProduct u st = replace_key pid (pid u) u st"

text \<open>The store's invariant (specification, section 3): product ids are unique.\<close>

definition store_wf :: "ProductsState \<Rightarrow> bool" where
  "store_wf st \<longleftrightarrow> distinct (map pid st)"

lemmas slice_defs =
  slice_setProducts_def slice_addProduct_def slice_deleteProduct_def slice_updateProduct_def

lemma store_wf_setProducts: "distinct (map pid ps) \<Longrightarrow> store_wf (slice_setProducts ps st)"
  by (simp add: store_wf_def slice_setProducts_def)

lemma store_wf_addProduct: "store_wf st \<Longrightarrow> key_free pid (pid p) st \<Longrightarrow> store_wf (slice_addProduct p st)"
  by (simp add: store_wf_def slice_addProduct_def)

lemma store_wf_deleteProduct: "store_wf st \<Longrightarrow> store_wf (slice_deleteProduct i st)"
  by (simp add: store_wf_def slice_deleteProduct_def distinct_map_filter)

lemma store_wf_updateProduct: "store_wf st \<Longrightarrow> store_wf (slice_updateProduct u st)"
  by (simp add: store_wf_def slice_updateProduct_def)

lemma map_pid_updateProduct [simp]: "map pid (slice_updateProduct u st) = map pid st"
  by (simp add: slice_updateProduct_def)

lemma deleteProduct_key_free [simp]: "key_free pid i (slice_deleteProduct i st)"
  by (auto simp: slice_deleteProduct_def)

end
