(* ===== verification/Product_List_Page.thy ===== *)
theory Product_List_Page
  imports Product_Service Product_Slice
begin

text \<open>
  The controller logic of \<open>src/src/pages/ProductListPage.tsx\<close>: its local state
  (\<open>useState\<close>), the product array it selects from the store, the mount effect that
  loads the catalogue, \<open>handleSubmit\<close> (validation, client-side id, create, re-fetch),
  \<open>openDeleteModal\<close> and \<open>confirmDelete\<close>, the sorted view and the rendered rows. Each
  handler runs to completion on the state it starts from (its \<open>await\<close>s are not
  interleaved with other events). \<open>list_step\<close> wires the JSX events to the handlers:
  a control inside a modal can only be used while the modal is open, a delete button
  exists only for a listed product.
\<close>

datatype SortType = SortName | SortCount

record ListPage =
  isAddModalOpen :: bool
  isDeleteModalOpen :: bool
  selectedProductId :: "int option"
  sortType :: SortType
  formData :: FormData

definition initial_ListPage :: ListPage where
  "initial_ListPage =
     \<lparr>isAddModalOpen = False, isDeleteModalOpen = False, selectedProductId = None,
      sortType = SortName, formData = empty_form\<rparr>"

subsection \<open>Loading the catalogue\<close>

definition loadProducts :: "ProductsState \<Rightarrow> world \<Rightarrow> ProductsState \<times> world" where
  "loadProducts st w =
     (case fetchProducts w of
        (Inr productsFromServer, w1) \<Rightarrow> (slice_setProducts productsFromServer st, w1)
      | (Inl _, w1) \<Rightarrow> (st, console_error ''Failed to fetch products:'' w1))"

subsection \<open>Adding a product\<close>

text \<open>\<open>products.length > 0 ? Math.max(...products.map(p => Number(p.id))) : 0\<close>.\<close>

definition maxId :: "ProductsState \<Rightarrow> int" where
  "maxId products = (case map pid products of [] \<Rightarrow> 0 | i # is \<Rightarrow> Math_max i is)"

definition newProduct :: "int \<Rightarrow> FormData \<Rightarrow> Product" where
  "newProduct newId f =
     \<lparr>pid = newId, imageUrl = f_imageUrl f, name = f_name f, pcount = f_count f,
      psize = \<lparr>width = f_width f, height = f_height f\<rparr>, weight = f_weight f, comments = []\<rparr>"

definition handleSubmit :: "ProductsState \<Rightarrow> ListPage \<Rightarrow> world \<Rightarrow> ProductsState \<times> ListPage \<times> world" where
  "handleSubmit products pg w =
     (if form_missing_required (formData pg)
      then (products, pg, window_alert ''Please fill in all required fields!'' w)
      else
        (let newId = maxId products + 1
         in case addProduct (newProduct newId (formData pg)) w of
              (Inl _, w1) \<Rightarrow> (products, pg, console_error ''Failed to add product:'' w1)
            | (Inr _, w1) \<Rightarrow>
                (case fetchProducts w1 of
                   (Inl _, w2) \<Rightarrow> (products, pg, console_error ''Failed to add product:'' w2)
                 | (Inr updatedProducts, w2) \<Rightarrow>
                     (slice_setProducts updatedProducts products,
                      pg\<lparr>isAddModalOpen := False, formData := empty_form\<rparr>, w2))))"

subsection \<open>Deleting a product\<close>

definition openDeleteModal :: "int \<Rightarrow> ListPage \<Rightarrow> ListPage" where
  "openDeleteModal i pg = pg\<lparr>selectedProductId := Some i, isDeleteModalOpen := True\<rparr>"

definition confirmDelete :: "ProductsState \<Rightarrow> ListPage \<Rightarrow> world \<Rightarrow> ProductsState \<times> ListPage \<times> world" where
  "confirmDelete products pg w =
     (case selectedProductId pg of
        None \<Rightarrow> (products, pg, w)
      | Some i \<Rightarrow>
          (case deleteProduct i w of
             (Inr _, w1) \<Rightarrow>
               (slice_deleteProduct i products,
                pg\<lparr>isDeleteModalOpen := False, selectedProductId := None\<rparr>, w1)
           | (Inl _, w1) \<Rightarrow> (products, pg, console_error ''Failed to delete product:'' w1)))"

subsection \<open>The sorted view and the rendered rows\<close>

definition compare_products :: "SortType \<Rightarrow> Product \<Rightarrow> Product \<Rightarrow> int" where
  "compare_products t a b =
     (case t of SortName \<Rightarrow> localeCompare (name a) (name b) | SortCount \<Rightarrow> pcount a - pcount b)"

definition sortedProducts :: "ProductsState \<Rightarrow> SortType \<Rightarrow> Product list" where
  "sortedProducts products t = array_sort (compare_products t) products"

text \<open>Each row shows the name and the count and links to \<open>/product/${product.id}\<close>.\<close>

definition product_link :: "Product \<Rightarrow> string" where
  "product_link p = ''/product/'' @ js_String (pid p)"

definition product_rows :: "ProductsState \<Rightarrow> SortType \<Rightarrow> (string \<times> int \<times> string) list" where
  "product_rows products t = map (\<lambda>p. (name p, pcount p, product_link p)) (sortedProducts products t)"

subsection \<open>Events\<close>

datatype ListEvent =
    Mount
  | InputChange FormField string
  | OpenAddModal
  | CloseAddModal
  | Submit
  | OpenDelete int
  | ConfirmDelete
  | CloseDeleteModal
  | ChangeSort SortType

type_synonym list_config = "ProductsState \<times> ListPage \<times> world"

fun list_step :: "ListEvent \<Rightarrow> list_config \<Rightarrow> list_config" where
  "list_step Mount (st, pg, w) = (let (st', w') = loadProducts st w in (st', pg, w'))"
| "list_step (InputChange f v) (st, pg, w) =
     (if isAddModalOpen pg then (st, pg\<lparr>formData := handleInputChange f v (formData pg)\<rparr>, w)
      else (st, pg, w))"
| "list_step OpenAddModal (st, pg, w) = (st, pg\<lparr>isAddModalOpen := True\<rparr>, w)"
| "list_step CloseAddModal (st, pg, w) = (st, pg\<lparr>isAddModalOpen := False\<rparr>, w)"
| "list_step Submit (st, pg, w) = (if isAddModalOpen pg then handleSubmit st pg w else (st, pg, w))"
| "list_step (OpenDelete i) (st, pg, w) =
     (if list_ex (\<lambda>p. pid p = i) st then (st, openDeleteModal i pg, w) else (st, pg, w))"
| "list_step ConfirmDelete (st, pg, w) =
     (if isDeleteModalOpen pg then confirmDelete st pg w else (st, pg, w))"
| "list_step CloseDeleteModal (st, pg, w) = (st, pg\<lparr>isDeleteModalOpen := False\<rparr>, w)"
| "list_step (ChangeSort t) (st, pg, w) = (st, pg\<lparr>sortType := t\<rparr>, w)"

definition list_run :: "ListEvent list \<Rightarrow> list_config \<Rightarrow> list_config" where
  "list_run es c = fold list_step es c"

text \<open>The page's invariant: the backend is well-formed and the store has unique ids.\<close>

definition list_inv :: "list_config \<Rightarrow> bool" where
  "list_inv c \<longleftrightarrow> (case c of (st, pg, w) \<Rightarrow> backend_wf (backend w) \<and> store_wf st)"

lemmas list_handler_defs [handler_defs] =
  loadProducts_def handleSubmit_def openDeleteModal_def confirmDelete_def

subsection \<open>Sample pages for the witnesses\<close>

definition demo_form :: FormData where
  "demo_form = empty_form\<lparr>f_name := ''Lamp'', f_count := 5, f_weight := ''2kg'', f_imageUrl := ''img.png''\<rparr>"

definition demo_page :: ListPage where
  "demo_page = initial_ListPage\<lparr>isAddModalOpen := True, formData := demo_form\<rparr>"

subsection \<open>Lemmas\<close>

lemma maxId_bound: "p \<in> set products \<Longrightarrow> pid p \<le> maxId products"
proof (cases products)
  case (Cons z zs)
  assume "p \<in> set products"
  then have "pid p \<in> set (pid z # map pid zs)" using Cons by auto
  then show ?thesis using Cons by (simp add: maxId_def Math_max_ge)
qed simp

lemma newId_fresh: "key_free pid (maxId products + 1) products"
  using maxId_bound by fastforce

lemma pid_newProduct [simp]: "pid (newProduct i f) = i"
  by (simp add: newProduct_def)

lemma handleSubmit_invalid:
  "form_missing_required (formData pg) \<Longrightarrow>
   handleSubmit st pg w = (st, pg, window_alert ''Please fill in all required fields!'' w)"
  by (simp add: handleSubmit_def)

lemma handleSubmit_fault_free:
  assumes ff: "fault_free w" and ok: "\<not> form_missing_required (formData pg)"
  shows "handleSubmit st pg w =
    (let p = (newProduct (maxId st + 1) (formData pg))\<lparr>pid := next_product_id (backend w)\<rparr>;
         b = (backend w)\<lparr>products_db := products_db (backend w) @ [p],
               next_product_id := next_product_id (backend w) + 1\<rparr>
     in (products_db b, pg\<lparr>isAddModalOpen := False, formData := empty_form\<rparr>,
         w\<lparr>network := tl (tl (network w)),
           requests := requests w @ [PostProduct (newProduct (maxId st + 1) (formData pg)), GetProducts],
           backend := b\<rparr>))"
  using ff ok
  by (simp add: handleSubmit_def client_defs call_fault_free srv_create_product_def
      srv_list_products_def slice_setProducts_def Let_def)

lemma demo_form_complete [simp]: "\<not> form_missing_required demo_form"
  by (simp add: demo_form_def form_missing_required_def empty_form_def)

subsection \<open>Adding a product\<close>

text \<open>C8: a form without a name, a weight or an image URL is rejected before any request:
  the store and the page are unchanged and one alert is shown.\<close>

theorem submit_rejects_incomplete_form:
  assumes "form_missing_required (formData pg)"
  shows "handleSubmit st pg w = (st, pg, w\<lparr>alerts := alerts w @ [''Please fill in all required fields!'']\<rparr>) \<and>
    requests (snd (snd (handleSubmit st pg w))) = requests w"
  using assms by (simp add: handleSubmit_def window_alert_def)

lemma submit_rejects_incomplete_form_witness:
  "handleSubmit [] (demo_page\<lparr>formData := demo_form\<lparr>f_name := []\<rparr>\<rparr>) demo_world =
     ([], demo_page\<lparr>formData := demo_form\<lparr>f_name := []\<rparr>\<rparr>,
      demo_world\<lparr>alerts := [''Please fill in all required fields!'']\<rparr>)"
proof -
  have h: "form_missing_required (formData (demo_page\<lparr>formData := demo_form\<lparr>f_name := []\<rparr>\<rparr>))"
    by (simp add: form_missing_required_def)
  show ?thesis using submit_rejects_incomplete_form [OF h, of "[]" demo_world]
    by (simp add: demo_world_def)
qed

text \<open>C9: on a reliable network a complete form is submitted as one \<open>POST\<close> followed by one
  \<open>GET\<close>; the store then holds exactly the backend's products, including the created
  one, the modal is closed and the form is reset.\<close>

theorem submit_success:
  assumes "fault_free w" and "\<not> form_missing_required (formData pg)"
    and "handleSubmit st pg w = (st', pg', w')"
  shows "st' = products_db (backend w') \<and>
    products_db (backend w') =
      products_db (backend w) @ [(newProduct (maxId st + 1) (formData pg))\<lparr>pid := next_product_id (backend w)\<rparr>] \<and>
    pg' = pg\<lparr>isAddModalOpen := False, formData := empty_form\<rparr> \<and>
    requests w' = requests w @ [PostProduct (newProduct (maxId st + 1) (formData pg)), GetProducts]"
  using assms by (auto simp: handleSubmit_fault_free Let_def)

lemma submit_success_witness:
  "\<exists>st' pg' w'. handleSubmit [] demo_page demo_world = (st', pg', w') \<and>
     st' = [(newProduct 1 demo_form)\<lparr>pid := 1\<rparr>] \<and> pg' = demo_page\<lparr>isAddModalOpen := False, formData := empty_form\<rparr>"
proof -
  have h1: "fault_free demo_world" by (simp add: demo_world_def fault_free_def)
  have h2: "\<not> form_missing_required (formData demo_page)" by (simp add: demo_page_def)
  obtain st' pg' w' where h3: "handleSubmit [] demo_page demo_world = (st', pg', w')"
    by (metis prod.exhaust)
  have "maxId [] = 0" by (simp add: maxId_def)
  then show ?thesis using h3 submit_success [OF h1 h2 h3]
    by (simp add: demo_world_def demo_backend_def demo_page_def)
qed

text \<open>C10: the id the page computes for a new product (\<open>maxId + 1\<close>) is larger than
  every id in the store, so it is used by no listed product.\<close>

theorem submit_client_id_fresh:
  "(\<forall>p\<in>set st. pid p < pid (newProduct (maxId st + 1) f)) \<and>
   key_free pid (pid (newProduct (maxId st + 1) f)) st"
  using maxId_bound by fastforce

lemma submit_client_id_fresh_witness:
  "pid (newProduct (maxId [demo_product\<lparr>pid := 7\<rparr>, demo_product\<lparr>pid := 3\<rparr>] + 1) demo_form) = 8 \<and>
   key_free pid 8 [demo_product\<lparr>pid := 7\<rparr>, demo_product\<lparr>pid := 3\<rparr>]"
proof -
  have "maxId [demo_product\<lparr>pid := 7\<rparr>, demo_product\<lparr>pid := 3\<rparr>] = 7"
    by (simp add: maxId_def Math_max_def)
  then show ?thesis
    using submit_client_id_fresh [of "[demo_product\<lparr>pid := 7\<rparr>, demo_product\<lparr>pid := 3\<rparr>]" demo_form]
    by simp
qed

text \<open>C11: when the re-fetch after a successful create fails, the page keeps the modal open
  with the same form and the old store; confirming again creates the same product a second
  time under the next server id.\<close>

theorem resubmit_after_failed_refetch_duplicates:
  assumes net: "network w = Delivered # Dropped # ds" and ff: "list_all (\<lambda>d. d = Delivered) ds"
    and ok: "\<not> form_missing_required (formData pg)" and opn: "isAddModalOpen pg"
  shows "let n = next_product_id (backend w); p = newProduct (maxId st + 1) (formData pg);
             (st2, pg2, w2) = list_run [Submit, Submit] (st, pg, w)
         in products_db (backend w2) = products_db (backend w) @ [p\<lparr>pid := n\<rparr>, p\<lparr>pid := n + 1\<rparr>] \<and>
            st2 = products_db (backend w2)"
proof -
  let ?p = "newProduct (maxId st + 1) (formData pg)"
  let ?b1 = "(backend w)\<lparr>products_db := products_db (backend w) @ [?p\<lparr>pid := next_product_id (backend w)\<rparr>],
              next_product_id := next_product_id (backend w) + 1\<rparr>"
  let ?w1 = "console_error ''Failed to add product:''
               (w\<lparr>backend := ?b1, network := ds, requests := requests w @ [PostProduct ?p, GetProducts]\<rparr>)"
  have first: "list_step Submit (st, pg, w) = (st, pg, ?w1)"
    using net ok opn
    by (simp add: handleSubmit_def client_defs call_delivered call_dropped srv_create_product_def Let_def)
  have "fault_free ?w1" using ff by (simp add: fault_free_def)
  then have second: "list_step Submit (st, pg, ?w1) =
      (let p = ?p\<lparr>pid := next_product_id ?b1\<rparr>;
           b = ?b1\<lparr>products_db := products_db ?b1 @ [p], next_product_id := next_product_id ?b1 + 1\<rparr>
       in (products_db b, pg\<lparr>isAddModalOpen := False, formData := empty_form\<rparr>,
           ?w1\<lparr>network := tl (tl (network ?w1)),
             requests := requests ?w1 @ [PostProduct ?p, GetProducts], backend := b\<rparr>))"
    using ok opn by (simp add: handleSubmit_fault_free)
  have "list_run [Submit, Submit] (st, pg, w) = list_step Submit (st, pg, ?w1)"
    by (simp only: list_run_def fold_simps comp_apply id_apply first)
  also note second
  finally show ?thesis by (simp add: Let_def)
qed

lemma resubmit_after_failed_refetch_duplicates_witness:
  "let (st2, pg2, w2) = list_run [Submit, Submit] ([], demo_page, demo_world\<lparr>network := [Delivered, Dropped]\<rparr>)
   in products_db (backend w2) = [(newProduct 1 demo_form)\<lparr>pid := 1\<rparr>, (newProduct 1 demo_form)\<lparr>pid := 2\<rparr>]"
proof -
  have h1: "network (demo_world\<lparr>network := [Delivered, Dropped]\<rparr>) = Delivered # Dropped # []" by simp
  have h2: "list_all (\<lambda>d. d = Delivered) []" by simp
  have h3: "\<not> form_missing_required (formData demo_page)" by (simp add: demo_page_def)
  have h4: "isAddModalOpen demo_page" by (simp add: demo_page_def)
  have "maxId [] = 0" by (simp add: maxId_def)
  then show ?thesis
    using resubmit_after_failed_refetch_duplicates [OF h1 h2 h3 h4, of "[]"]
    by (simp add: demo_world_def demo_backend_def demo_page_def Let_def split: prod.splits)
qed

subsection \<open>Deleting a product\<close>

lemma confirmDelete_fault_free:
  assumes "fault_free w" and "selectedProductId pg = Some i"
  shows "confirmDelete st pg w =
    (if list_ex (\<lambda>p. pid p = i) (products_db (backend w))
     then (slice_deleteProduct i st, pg\<lparr>isDeleteModalOpen := False, selectedProductId := None\<rparr>,
           w\<lparr>network := tl (network w), requests := requests w @ [DeleteProduct i],
             backend := (backend w)\<lparr>products_db := filter (\<lambda>p. pid p \<noteq> i) (products_db (backend w))\<rparr>\<rparr>)
     else (st, pg, console_error ''Failed to delete product:''
           (w\<lparr>network := tl (network w), requests := requests w @ [DeleteProduct i]\<rparr>)))"
  using assms by (simp add: confirmDelete_def client_defs call_fault_free srv_delete_product_def)

text \<open>C12: on a reliable network, confirming the deletion of a product the backend has
  sends one \<open>DELETE\<close>, removes the product from the backend and from the store, closes the
  modal and clears the selection.\<close>

theorem confirm_delete_success:
  assumes "fault_free w" and "selectedProductId pg = Some i"
    and "i \<in> pid ` set (products_db (backend w))"
    and "confirmDelete st pg w = (st', pg', w')"
  shows "st' = slice_deleteProduct i st \<and> key_free pid i st' \<and>
    key_free pid i (products_db (backend w')) \<and>
    pg' = pg\<lparr>isDeleteModalOpen := False, selectedProductId := None\<rparr> \<and>
    requests w' = requests w @ [DeleteProduct i]"
proof -
  from assms(3) have "list_ex (\<lambda>p. pid p = i) (products_db (backend w))"
    by (auto simp: list_ex_iff)
  with assms(1,2) have "confirmDelete st pg w =
    (slice_deleteProduct i st, pg\<lparr>isDeleteModalOpen := False, selectedProductId := None\<rparr>,
     w\<lparr>network := tl (network w), requests := requests w @ [DeleteProduct i],
       backend := (backend w)\<lparr>products_db := filter (\<lambda>p. pid p \<noteq> i) (products_db (backend w))\<rparr>\<rparr>)"
    by (simp add: confirmDelete_fault_free)
  with assms(4) show ?thesis by (auto simp: slice_deleteProduct_def)
qed

lemma confirm_delete_success_witness:
  "\<exists>st' pg' w'. confirmDelete [demo_product\<lparr>pid := 1\<rparr>] (openDeleteModal 1 initial_ListPage) demo_world1 = (st', pg', w') \<and>
     st' = [] \<and> key_free pid 1 (products_db (backend w'))"
proof -
  have h1: "fault_free demo_world1" by (simp add: demo_defs fault_free_def)
  have h2: "selectedProductId (openDeleteModal 1 initial_ListPage) = Some 1" by (simp add: openDeleteModal_def)
  have h3: "1 \<in> pid ` set (products_db (backend demo_world1))" by (simp add: demo_defs)
  obtain st' pg' w' where h4: "confirmDelete [demo_product\<lparr>pid := 1\<rparr>] (openDeleteModal 1 initial_ListPage) demo_world1 = (st', pg', w')"
    by (metis prod.exhaust)
  have "products_db (backend demo_world1) = [demo_product\<lparr>pid := 1\<rparr>]" by (simp add: demo_defs)
  then show ?thesis using h4 confirm_delete_success [OF h1 h2 h3 h4]
    by (auto simp: slice_deleteProduct_def)
qed

subsection \<open>The page invariant and the store as a mirror of the backend\<close>

lemma loadProducts_inv:
  "backend_wf (backend w) \<Longrightarrow> store_wf st \<Longrightarrow> loadProducts st w = (st', w') \<Longrightarrow>
   backend_wf (backend w') \<and> store_wf st'"
  by (auto simp: loadProducts_def slice_setProducts_def store_wf_def
      split: prod.splits sum.splits intro: backend_wf_client(1) dest: fetchProducts_distinct)

lemma handleSubmit_inv:
  assumes wf: "backend_wf (backend w)" and sw: "store_wf st"
    and h: "handleSubmit st pg w = (st', pg', w')"
  shows "backend_wf (backend w') \<and> store_wf st'"
proof (cases "form_missing_required (formData pg)")
  case True
  with wf sw h show ?thesis by (auto simp: handleSubmit_def)
next
  case False
  obtain r1 w1 where a: "addProduct (newProduct (maxId st + 1) (formData pg)) w = (r1, w1)"
    by (metis prod.exhaust)
  have wf1: "backend_wf (backend w1)" using a wf by (rule backend_wf_client(2))
  obtain r2 w2 where f: "fetchProducts w1 = (r2, w2)" by (metis prod.exhaust)
  have wf2: "backend_wf (backend w2)" using f wf1 by (rule backend_wf_client(1))
  show ?thesis
  proof (cases r1)
    case Inl
    with False a h wf1 sw show ?thesis by (auto simp: handleSubmit_def)
  next
    case Inr
    show ?thesis
    proof (cases r2)
      case Inl
      with False Inr a f h wf2 sw show ?thesis by (auto simp: handleSubmit_def)
    next
      case (Inr ps)
      with f wf1 have "distinct (map pid ps)" by (blast intro: fetchProducts_distinct)
      with False Inr \<open>r1 = Inr _\<close> a f h wf2 show ?thesis
        by (auto simp: handleSubmit_def slice_setProducts_def store_wf_def)
    qed
  qed
qed

lemma confirmDelete_inv:
  "backend_wf (backend w) \<Longrightarrow> store_wf st \<Longrightarrow> confirmDelete st pg w = (st', pg', w') \<Longrightarrow>
   backend_wf (backend w') \<and> store_wf st'"
  by (auto simp: confirmDelete_def store_wf_deleteProduct
      split: prod.splits sum.splits option.splits intro: backend_wf_client(3))

lemma list_step_inv: "list_inv c \<Longrightarrow> list_inv (list_step e c)"
proof (cases c)
  case (fields st pg w)
  assume inv: "list_inv c"
  show ?thesis
  proof (cases e)
    case Mount
    with inv fields show ?thesis
      by (auto simp: list_inv_def split: prod.splits dest: loadProducts_inv)
  next
    case Submit
    with inv fields show ?thesis
      by (auto simp: list_inv_def split: prod.splits dest: handleSubmit_inv)
  next
    case ConfirmDelete
    with inv fields show ?thesis
      by (auto simp: list_inv_def split: prod.splits dest: confirmDelete_inv)
  qed (use inv fields in \<open>auto simp: list_inv_def\<close>)
qed

lemma loadProducts_fault_free:
  "fault_free w \<Longrightarrow>
   loadProducts st w = (products_db (backend w), w\<lparr>network := tl (network w), requests := requests w @ [GetProducts]\<rparr>)"
  by (simp add: loadProducts_def client_defs call_fault_free srv_list_products_def slice_setProducts_def)

lemma list_step_mirror:
  assumes ff: "fault_free w" and m: "st = products_db (backend w)"
  shows "fault_free (snd (snd (list_step e (st, pg, w)))) \<and>
    fst (list_step e (st, pg, w)) = products_db (backend (snd (snd (list_step e (st, pg, w)))))"
proof (cases e)
  case Mount
  with ff m show ?thesis
    by (simp add: loadProducts_def client_defs call_fault_free srv_list_products_def
        slice_setProducts_def fault_free_def list_all_tl)
next
  case Submit
  with ff m show ?thesis
    by (cases "form_missing_required (formData pg)")
       (simp_all add: handleSubmit_invalid handleSubmit_fault_free Let_def fault_free_def list_all_tl)
next
  case ConfirmDelete
  show ?thesis
  proof (cases "selectedProductId pg")
    case None
    with ConfirmDelete ff m show ?thesis by (simp add: confirmDelete_def)
  next
    case (Some i)
    with ConfirmDelete ff m show ?thesis
      by (simp add: confirmDelete_fault_free slice_deleteProduct_def fault_free_def list_all_tl)
  qed
qed (use ff m in simp_all)

lemma list_run_Cons [simp]: "list_run (e # es) c = list_run es (list_step e c)"
  by (simp add: list_run_def)

lemma list_run_Nil [simp]: "list_run [] c = c"
  by (simp add: list_run_def)

text \<open>C13: every run of list-page events keeps the backend well-formed and the product
  ids in the store unique, whatever the network does.\<close>

theorem list_run_keeps_invariant:
  "list_inv c \<Longrightarrow> list_inv (list_run es c)"
  by (induction es arbitrary: c) (simp_all add: list_step_inv)

lemma list_run_keeps_invariant_witness:
  "list_inv (list_run [Mount, OpenAddModal, Submit, OpenDelete 1, ConfirmDelete]
     ([], initial_ListPage, demo_world\<lparr>network := [Delivered, ResponseLost, Dropped]\<rparr>))"
proof -
  have "list_inv ([], initial_ListPage, demo_world\<lparr>network := [Delivered, ResponseLost, Dropped]\<rparr>)"
    by (simp add: list_inv_def demo_defs backend_wf_def store_wf_def)
  then show ?thesis by (rule list_run_keeps_invariant)
qed

text \<open>C14 (refinement): on a reliable network the store is an exact mirror of the backend's
  product collection: if it is when a run of list-page events starts, it is after every
  run.\<close>

theorem list_run_mirrors_backend:
  assumes "fault_free w" and "st = products_db (backend w)"
    and "list_run es (st, pg, w) = (st', pg', w')"
  shows "st' = products_db (backend w')"
  using assms
proof (induction es arbitrary: st pg w)
  case Nil
  then show ?case by auto
next
  case (Cons e es)
  obtain st1 pg1 w1 where s1: "list_step e (st, pg, w) = (st1, pg1, w1)" by (metis prod.exhaust)
  with list_step_mirror [OF Cons.prems(1,2), of e pg]
  have "fault_free w1" and "st1 = products_db (backend w1)" by simp_all
  moreover from Cons.prems(3) s1 have "list_run es (st1, pg1, w1) = (st', pg', w')" by simp
  ultimately show ?case by (rule Cons.IH)
qed

lemma list_run_mirrors_backend_witness:
  "\<exists>st' pg' w'. list_run [Mount, OpenAddModal, Submit, OpenDelete 1, ConfirmDelete]
      ([], demo_page, demo_world) = (st', pg', w') \<and> st' = products_db (backend w')"
proof -
  have h1: "fault_free demo_world" by (simp add: demo_defs fault_free_def)
  have h2: "[] = products_db (backend demo_world)" by (simp add: demo_defs)
  obtain st' pg' w' where h3: "list_run [Mount, OpenAddModal, Submit, OpenDelete 1, ConfirmDelete]
      ([], demo_page, demo_world) = (st', pg', w')" by (metis prod.exhaust)
  show ?thesis using h3 list_run_mirrors_backend [OF h1 h2 h3] by blast
qed

text \<open>C15: with an unreliable network the store does diverge silently from the backend:
  confirming the deletion of a listed product when the \<open>DELETE\<close>'s response is lost
  deletes the product on the server, but the page keeps it in the store, keeps the modal
  open on it and only logs the error.\<close>

theorem lost_delete_store_diverges:
  assumes "network w = ResponseLost # ds" and "isDeleteModalOpen pg"
    and "selectedProductId pg = Some i" and "list_ex (\<lambda>p. pid p = i) st"
  shows "let (st', pg', w') = list_step ConfirmDelete (st, pg, w)
         in st' = st \<and> pg' = pg \<and> list_ex (\<lambda>p. pid p = i) st' \<and>
            key_free pid i (products_db (backend w')) \<and>
            console w' = console w @ [''Failed to delete product:'']"
proof -
  obtain w1 where d: "deleteProduct i w = (Inl TransportError, w1)"
    and gone: "key_free pid i (products_db (backend w1))"
    using lost_delete_applied [OF assms(1), of i] by (cases "deleteProduct i w") auto
  have "console w1 = console w"
    using d assms(1) by (auto simp: deleteProduct_def call_lost)
  then show ?thesis
    using assms(2-4) d gone by (simp add: confirmDelete_def console_error_def)
qed

lemma lost_delete_store_diverges_witness:
  "let (st', pg', w') = list_step ConfirmDelete ([demo_product\<lparr>pid := 1\<rparr>],
         openDeleteModal 1 initial_ListPage, demo_world1\<lparr>network := [ResponseLost]\<rparr>)
   in st' = [demo_product\<lparr>pid := 1\<rparr>] \<and> pg' = openDeleteModal 1 initial_ListPage \<and>
      list_ex (\<lambda>p. pid p = 1) st' \<and> key_free pid 1 (products_db (backend w')) \<and>
      console w' = console demo_world1 @ [''Failed to delete product:'']"
  using lost_delete_store_diverges [of "demo_world1\<lparr>network := [ResponseLost]\<rparr>" "[]"
      "openDeleteModal 1 initial_ListPage" 1 "[demo_product\<lparr>pid := 1\<rparr>]"]
  by (simp add: openDeleteModal_def)

subsection \<open>Sorting\<close>

lemma sortedProducts_by_name: "sortedProducts st SortName = sort_key (\<lambda>p. collation_key (name p)) st"
  unfolding sortedProducts_def
  by (rule array_sort_sort_key) (simp add: compare_products_def)

lemma sortedProducts_by_count: "sortedProducts st SortCount = sort_key pcount st"
  unfolding sortedProducts_def
  by (rule array_sort_sort_key) (simp add: compare_products_def)

lemma mset_sortedProducts: "mset (sortedProducts st t) = mset st"
  by (cases t) (simp_all add: sortedProducts_by_name sortedProducts_by_count)

lemma length_sortedProducts [simp]: "length (sortedProducts st t) = length st"
  using arg_cong [OF mset_sortedProducts [of st t], of size] by simp

lemma set_sortedProducts [simp]: "set (sortedProducts st t) = set st"
  using arg_cong [OF mset_sortedProducts [of st t], of set_mset] by simp

text \<open>C16 (equivalence): the comparator-driven \<open>sort\<close> of the page computes the library's
  stable sort by key: by the collation key of \<open>name\<close> (the order \<open>localeCompare\<close>
  decides) for "name", by \<open>count\<close> for "count".\<close>

theorem sort_matches_sort_key:
  "sortedProducts st SortName = sort_key (\<lambda>p. collation_key (name p)) st \<and>
   sortedProducts st SortCount = sort_key pcount st"
  by (simp add: sortedProducts_by_name sortedProducts_by_count)

text \<open>The sorted view is ordered by the chosen key and is a permutation of the store.\<close>

theorem sort_sorted_permutation:
  "sorted (map (\<lambda>p. collation_key (name p)) (sortedProducts st SortName)) \<and>
   sorted (map pcount (sortedProducts st SortCount)) \<and>
   mset (sortedProducts st t) = mset st"
  by (simp add: sortedProducts_by_name sortedProducts_by_count mset_sortedProducts)

text \<open>Both sorts are stable (products with equal keys keep their store order) and
  idempotent (sorting the sorted view again changes nothing).\<close>

theorem sort_stable_idempotent:
  "filter (\<lambda>p. collation_key (name p) = k) (sortedProducts st SortName) =
     filter (\<lambda>p. collation_key (name p) = k) st \<and>
   filter (\<lambda>p. pcount p = n) (sortedProducts st SortCount) = filter (\<lambda>p. pcount p = n) st \<and>
   sortedProducts (sortedProducts st t) t = sortedProducts st t"
proof -
  have "sortedProducts (sortedProducts st t) t = sortedProducts st t"
    by (cases t) (simp_all add: sortedProducts_by_name sortedProducts_by_count sort_key_id_if_sorted)
  then show ?thesis
    by (simp add: sortedProducts_by_name sortedProducts_by_count sort_key_stable)
qed

text \<open>C5 (functional): sorting by name ignores case first, as the browser's collation does:
  for names made of ASCII letters the listed names are in the order of their lower-case
  forms, so ''apple'' comes before ''Banana'' (character codes would put every upper-case
  initial first).\<close>

theorem name_sort_ignores_case:
  assumes "list_all (\<lambda>p. list_all is_ascii_letter (name p)) st"
  shows "sorted (map (\<lambda>p. map lower_code (name p)) (sortedProducts st SortName))"
proof -
  let ?ps = "sortedProducts st SortName"
  have s0: "sorted (map (\<lambda>p. fst (collation_key (name p))) ?ps)"
    by (rule sorted_fst) (simp add: sortedProducts_by_name sorted_sort_key)
  have letters: "list_all (\<lambda>p. list_all is_ascii_letter (name p)) ?ps"
    using assms by (simp add: list_all_iff)
  have "map (\<lambda>p. fst (collation_key (name p))) ?ps =
      map (\<lambda>p. map (\<lambda>n. n - 48) (map lower_code (name p))) ?ps"
  proof (rule map_cong [OF refl])
    fix p assume "p \<in> set ?ps"
    with letters have "list_all is_ascii_letter (name p)" by (simp add: list_all_iff)
    then show "fst (collation_key (name p)) = map (\<lambda>n. n - 48) (map lower_code (name p))"
      by (rule collation_primary_letters)
  qed
  with s0 have s1: "sorted (map (\<lambda>p. map (\<lambda>n. n - 48) (map lower_code (name p))) ?ps)"
    by simp
  have bound: "set (map lower_code (name p)) \<subseteq> {97..122}" if "p \<in> set ?ps" for p
    using letters that primary_letter(2,3) by (auto simp: list_all_iff)
  have emb: "xs \<le> ys" if "set xs \<subseteq> {97..122}" "set ys \<subseteq> {97..122}"
    and "map (\<lambda>n. n - 48) xs \<le> map (\<lambda>n. n - 48) ys" for xs ys :: "nat list"
  proof -
    have f: "x - 48 < y - 48 \<longleftrightarrow> x < y" "x - 48 = y - 48 \<longleftrightarrow> x = y"
      if "x \<in> {97..122}" "y \<in> {97..122}" for x y :: nat
      using that by auto
    from map_lex_embed [where S = "{97..122}", OF f that(1,2)] that(3) show ?thesis by simp
  qed
  from s1 show ?thesis
    unfolding sorted_map
  proof (rule sorted_wrt_mono_rel [rotated])
    fix p q assume p: "p \<in> set ?ps" and q: "q \<in> set ?ps"
      and le: "map (\<lambda>n. n - 48) (map lower_code (name p)) \<le> map (\<lambda>n. n - 48) (map lower_code (name q))"
    from le show "map lower_code (name p) \<le> map lower_code (name q)"
      by (rule emb [OF bound [OF p] bound [OF q]])
  qed
qed

lemma name_sort_ignores_case_witness:
  "let p1 = demo_product\<lparr>pid := 1, name := ''Banana''\<rparr>; p2 = demo_product\<lparr>pid := 2, name := ''apple''\<rparr>
   in sortedProducts [p1, p2] SortName = [p2, p1] \<and>
      sorted (map (\<lambda>p. map lower_code (name p)) (sortedProducts [p1, p2] SortName))"
proof -
  let ?p1 = "demo_product\<lparr>pid := 1, name := ''Banana''\<rparr>" and ?p2 = "demo_product\<lparr>pid := 2, name := ''apple''\<rparr>"
  have h: "list_all (\<lambda>p. list_all is_ascii_letter (name p)) [?p1, ?p2]"
    by (simp add: is_ascii_letter_def)
  have "sortedProducts [?p1, ?p2] SortName = [?p2, ?p1]"
    by (simp add: sortedProducts_def compare_products_def localeCompare_def collation_defs)
  then show ?thesis using name_sort_ignores_case [OF h] by (simp add: Let_def)
qed

text \<open>The scenario of the specification: products B (id 1, count 5) and A (id 2,
  count 3) are listed A, B by name and id 2, id 1 by count.\<close>

theorem sort_scenario:
  "let p1 = demo_product\<lparr>pid := 1, name := ''B'', pcount := 5\<rparr>;
       p2 = demo_product\<lparr>pid := 2, name := ''A'', pcount := 3\<rparr>
   in sortedProducts [p1, p2] SortName = [p2, p1] \<and> sortedProducts [p1, p2] SortCount = [p2, p1]"
  by (simp add: sortedProducts_def compare_products_def localeCompare_def collation_defs Let_def)

end
