(* ===== verification/Product_Detail_Page.thy ===== *)
theory Product_Detail_Page
  imports Product_Service Product_Slice
begin

text \<open>
  The controller logic of \<open>src/src/pages/ProductDetailPage.tsx\<close>: the route parameter,
  the product and comment state, the mount effect that loads the product and then its
  comments, the edit form (\<open>handleEditClick\<close>, \<open>handleUpdate\<close>, which also dispatches
  \<open>updateProduct\<close> to the shared store) and the comment handlers. As on the list page,
  each handler runs to completion, and \<open>detail_step\<close> wires the rendered controls to the
  handlers: while \<open>product\<close> is \<open>null\<close> the page renders only "Loading...", so no
  control exists; the edit inputs and Confirm exist only while the edit modal is open;
  a comment's Delete button exists only for a listed comment. The clock string of
  \<open>new Date().toLocaleString()\<close> comes with the click that adds a comment.
\<close>

record DetailPage =
  route_id :: "string option"
  product :: "Product option"
  dcomments :: "CommentModel list"
  newCommentText :: string
  isEditModalOpen :: bool
  dformData :: FormData

definition initial_DetailPage :: "string option \<Rightarrow> DetailPage" where
  "initial_DetailPage r =
     \<lparr>route_id = r, product = None, dcomments = [], newCommentText = [],
      isEditModalOpen = False, dformData = empty_form\<rparr>"

subsection \<open>Loading\<close>

text \<open>\<open>if (!id) return;\<close> then \<open>fetchProductById(Number(id))\<close>, \<open>setProduct\<close>,
  \<open>fetchComments(Number(id))\<close>, \<open>setComments\<close>; one \<open>catch\<close> for both requests.\<close>

definition loadProductAndComments :: "DetailPage \<Rightarrow> world \<Rightarrow> DetailPage \<times> world" where
  "loadProductAndComments pg w =
     (case route_id pg of
        None \<Rightarrow> (pg, w)
      | Some s \<Rightarrow>
          (if s = [] then (pg, w)
           else
             (case fetchProductById (js_Number s) w of
                (Inl _, w1) \<Rightarrow> (pg, console_error ''Failed to fetch product or comments:'' w1)
              | (Inr productData, w1) \<Rightarrow>
                  (let pg1 = pg\<lparr>product := Some productData\<rparr>
                   in case fetchComments (js_Number s) w1 of
                        (Inl _, w2) \<Rightarrow> (pg1, console_error ''Failed to fetch product or comments:'' w2)
                      | (Inr commentsData, w2) \<Rightarrow> (pg1\<lparr>dcomments := commentsData\<rparr>, w2)))))"

subsection \<open>Editing\<close>

definition form_of_product :: "Product \<Rightarrow> FormData" where
  "form_of_product p =
     \<lparr>f_name = name p, f_count = pcount p, f_width = width (psize p), f_height = height (psize p),
      f_weight = weight p, f_imageUrl = imageUrl p\<rparr>"

definition handleEditClick :: "DetailPage \<Rightarrow> DetailPage" where
  "handleEditClick pg =
     (case product pg of
        None \<Rightarrow> pg
      | Some p \<Rightarrow> pg\<lparr>dformData := form_of_product p, isEditModalOpen := True\<rparr>)"

text \<open>\<open>{...product, name, count, size: {width, height}, weight, imageUrl}\<close>: every property
  of the product, the edited ones from the form.\<close>

definition updatedData :: "Product \<Rightarrow> FormData \<Rightarrow> ProductPatch" where
  "updatedData p f =
     full_patch (p\<lparr>name := f_name f, pcount := f_count f,
       psize := \<lparr>width = f_width f, height = f_height f\<rparr>, weight := f_weight f,
       imageUrl := f_imageUrl f\<rparr>)"

definition handleUpdate :: "ProductsState \<Rightarrow> DetailPage \<Rightarrow> world \<Rightarrow> ProductsState \<times> DetailPage \<times> world" where
  "handleUpdate st pg w =
     (case product pg of
        None \<Rightarrow> (st, pg, w)
      | Some p \<Rightarrow>
          (case updateProduct (pid p) (updatedData p (dformData pg)) w of
             (Inr updatedProductFromServer, w1) \<Rightarrow>
               (slice_updateProduct updatedProductFromServer st,
                pg\<lparr>product := Some updatedProductFromServer, isEditModalOpen := False\<rparr>, w1)
           | (Inl _, w1) \<Rightarrow> (st, pg, console_error ''Failed to update product:'' w1)))"

subsection \<open>Comments\<close>

definition handleAddComment :: "string \<Rightarrow> DetailPage \<Rightarrow> world \<Rightarrow> DetailPage \<times> world" where
  "handleAddComment now pg w =
     (if js_trim (newCommentText pg) = [] then (pg, w)
      else
        (case product pg of
           None \<Rightarrow> (pg, w)
         | Some p \<Rightarrow>
             (let newComment = \<lparr>draft_productId = pid p, draft_description = newCommentText pg,
                                draft_date = now\<rparr>
              in case addComment newComment w of
                   (Inr addedComment, w1) \<Rightarrow>
                     (pg\<lparr>dcomments := dcomments pg @ [addedComment], newCommentText := []\<rparr>, w1)
                 | (Inl _, w1) \<Rightarrow> (pg, console_error ''Failed to add comment:'' w1))))"

definition handleDeleteComment :: "int \<Rightarrow> DetailPage \<Rightarrow> world \<Rightarrow> DetailPage \<times> world" where
  "handleDeleteComment commentId pg w =
     (case deleteComment commentId w of
        (Inr _, w1) \<Rightarrow> (pg\<lparr>dcomments := filter (\<lambda>c. cid c \<noteq> commentId) (dcomments pg)\<rparr>, w1)
      | (Inl _, w1) \<Rightarrow> (pg, console_error ''Failed to delete comment:'' w1))"

subsection \<open>Events\<close>

datatype DetailEvent =
    DMount
  | DInputChange FormField string
  | EditClick
  | CloseEditModal
  | ConfirmUpdate
  | CommentTextChange string
  | AddCommentClick string
  | DeleteCommentClick int

type_synonym detail_config = "ProductsState \<times> DetailPage \<times> world"

fun detail_step :: "DetailEvent \<Rightarrow> detail_config \<Rightarrow> detail_config" where
  "detail_step DMount (st, pg, w) = (let (pg', w') = loadProductAndComments pg w in (st, pg', w'))"
| "detail_step (DInputChange f v) (st, pg, w) =
     (if product pg \<noteq> None \<and> isEditModalOpen pg
      then (st, pg\<lparr>dformData := handleInputChange f v (dformData pg)\<rparr>, w) else (st, pg, w))"
| "detail_step EditClick (st, pg, w) = (st, handleEditClick pg, w)"
| "detail_step CloseEditModal (st, pg, w) = (st, pg\<lparr>isEditModalOpen := False\<rparr>, w)"
| "detail_step ConfirmUpdate (st, pg, w) =
     (if product pg \<noteq> None \<and> isEditModalOpen pg then handleUpdate st pg w else (st, pg, w))"
| "detail_step (CommentTextChange v) (st, pg, w) =
     (if product pg \<noteq> None then (st, pg\<lparr>newCommentText := v\<rparr>, w) else (st, pg, w))"
| "detail_step (AddCommentClick now) (st, pg, w) =
     (if product pg \<noteq> None then (let (pg', w') = handleAddComment now pg w in (st, pg', w'))
      else (st, pg, w))"
| "detail_step (DeleteCommentClick i) (st, pg, w) =
     (if product pg \<noteq> None \<and> list_ex (\<lambda>c. cid c = i) (dcomments pg)
      then (let (pg', w') = handleDeleteComment i pg w in (st, pg', w')) else (st, pg, w))"

definition detail_run :: "DetailEvent list \<Rightarrow> detail_config \<Rightarrow> detail_config" where
  "detail_run es c = fold detail_step es c"

subsection \<open>The states of a detail session\<close>

text \<open>The specification's session states (section 4.3). The code keeps no error state:
  the page shows "Loading..." while \<open>product\<close> is \<open>null\<close>.\<close>

datatype DetailStatus = Loading | Ready | Failed

definition detail_status :: "DetailPage \<Rightarrow> DetailStatus" where
  "detail_status pg = (case product pg of None \<Rightarrow> Loading | Some _ \<Rightarrow> Ready)"

text \<open>The page's invariant: the backend is well-formed; the listed comments have unique
  ids the server has assigned and all belong to the shown product; the shown product is the
  one the route names.\<close>

definition detail_inv :: "detail_config \<Rightarrow> bool" where
  "detail_inv c \<longleftrightarrow> (case c of (st, pg, w) \<Rightarrow>
     backend_wf (backend w) \<and> distinct (map cid (dcomments pg)) \<and>
     list_all (\<lambda>x. cid x < next_comment_id (backend w) \<and> Some (productId x) = map_option pid (product pg))
       (dcomments pg) \<and>
     (case product pg of None \<Rightarrow> True
      | Some p \<Rightarrow> (case route_id pg of None \<Rightarrow> False | Some s \<Rightarrow> js_Number s = Some (pid p))))"

lemmas detail_handler_defs [handler_defs] =
  loadProductAndComments_def handleEditClick_def handleUpdate_def handleAddComment_def
  handleDeleteComment_def

subsection \<open>Sample pages for the witnesses\<close>

definition demo_comment :: CommentModel where
  "demo_comment = \<lparr>cid = 1, productId = 1, description = ''nice'', date = ''1/1/2025''\<rparr>"

definition demo_world2 :: world where
  "demo_world2 = demo_world1\<lparr>backend := (backend demo_world1)\<lparr>comments_db := [demo_comment],
     next_comment_id := 2\<rparr>\<rparr>"

definition demo_detail :: DetailPage where
  "demo_detail = (initial_DetailPage (Some ''1''))\<lparr>product := Some (demo_product\<lparr>pid := 1\<rparr>),
     dcomments := [demo_comment]\<rparr>"

text \<open>The edit form as \<open>handleEditClick\<close> fills it for the sample product.\<close>

definition demo_edit_form :: FormData where
  "demo_edit_form = form_of_product (demo_product\<lparr>pid := 1\<rparr>)"

subsection \<open>Lemmas\<close>

lemma detail_run_Cons [simp]: "detail_run (e # es) c = detail_run es (detail_step e c)"
  by (simp add: detail_run_def)

lemma detail_run_Nil [simp]: "detail_run [] c = c"
  by (simp add: detail_run_def)

lemma load_fault_free:
  assumes "fault_free w" and "route_id pg = Some s" and "s \<noteq> []"
    and "find (\<lambda>q. Some (pid q) = js_Number s) (products_db (backend w)) = Some p"
  shows "loadProductAndComments pg w =
    (pg\<lparr>product := Some p,
        dcomments := filter (\<lambda>c. Some (productId c) = js_Number s) (comments_db (backend w))\<rparr>,
     w\<lparr>network := tl (tl (network w)),
       requests := requests w @ [GetProduct (js_Number s), GetComments (js_Number s)]\<rparr>)"
  using assms
  by (simp add: loadProductAndComments_def client_defs call_fault_free srv_get_product_def
      srv_list_comments_def Let_def fault_free_def list_all_tl)

lemma route_id_detail_step: "route_id (fst (snd (detail_step e (st, pg, w)))) = route_id pg"
  by (cases e)
     (auto simp: loadProductAndComments_def handleEditClick_def handleUpdate_def handleAddComment_def
        handleDeleteComment_def Let_def split: option.splits prod.splits sum.splits if_splits)

lemma detail_step_keeps_product:
  "product pg \<noteq> None \<Longrightarrow> product (fst (snd (detail_step e (st, pg, w)))) \<noteq> None"
  by (cases e)
     (auto simp: loadProductAndComments_def handleEditClick_def handleUpdate_def handleAddComment_def
        handleDeleteComment_def Let_def split: option.splits prod.splits sum.splits if_splits)

lemma detail_step_no_product:
  "product pg = None \<Longrightarrow> e \<noteq> DMount \<Longrightarrow> product (fst (snd (detail_step e (st, pg, w)))) = None"
  by (cases e) (auto simp: handleEditClick_def)

subsection \<open>Loading\<close>

text \<open>C20: on a reliable network, mounting the page for a route id that names a product
  fetches that product and then its comments (two requests) and shows exactly them: the
  session is Ready.\<close>

theorem load_success:
  assumes "fault_free w" and "route_id pg = Some s" and "s \<noteq> []" and "js_Number s = Some i"
    and "find (\<lambda>q. pid q = i) (products_db (backend w)) = Some p"
    and "loadProductAndComments pg w = (pg', w')"
  shows "product pg' = Some p \<and> dcomments pg' = filter (\<lambda>c. productId c = i) (comments_db (backend w)) \<and>
    detail_status pg' = Ready \<and> requests w' = requests w @ [GetProduct (Some i), GetComments (Some i)]"
proof -
  from assms(4,5) have "find (\<lambda>q. Some (pid q) = js_Number s) (products_db (backend w)) = Some p"
    by simp
  with assms(1-3) have "loadProductAndComments pg w =
    (pg\<lparr>product := Some p,
        dcomments := filter (\<lambda>c. Some (productId c) = js_Number s) (comments_db (backend w))\<rparr>,
     w\<lparr>network := tl (tl (network w)),
       requests := requests w @ [GetProduct (js_Number s), GetComments (js_Number s)]\<rparr>)"
    by (rule load_fault_free)
  with assms(4,6) show ?thesis by (auto simp: detail_status_def)
qed

lemma load_success_witness:
  "\<exists>pg' w'. loadProductAndComments (initial_DetailPage (Some ''1'')) demo_world2 = (pg', w') \<and>
     product pg' = Some (demo_product\<lparr>pid := 1\<rparr>) \<and> dcomments pg' = [demo_comment]"
proof -
  have h1: "fault_free demo_world2" by (simp add: demo_world2_def demo_defs fault_free_def)
  have h2: "route_id (initial_DetailPage (Some ''1'')) = Some ''1''" by (simp add: initial_DetailPage_def)
  have h3: "''1'' \<noteq> []" by simp
  have h4: "js_Number ''1'' = Some 1"
    by (simp add: js_Number_def js_trim_def is_js_space_def decimal_literal_def is_digit_def
        less_eq_char_def digit_val_def)
  have h5: "find (\<lambda>q. pid q = 1) (products_db (backend demo_world2)) = Some (demo_product\<lparr>pid := 1\<rparr>)"
    by (simp add: demo_world2_def demo_defs)
  obtain pg' w' where h6: "loadProductAndComments (initial_DetailPage (Some ''1'')) demo_world2 = (pg', w')"
    by (metis prod.exhaust)
  have "comments_db (backend demo_world2) = [demo_comment]" by (simp add: demo_world2_def)
  then show ?thesis using h6 load_success [OF h1 h2 h3 h4 h5 h6] by (simp add: demo_comment_def)
qed

text \<open>C21: the specification's Failed state does not exist in the code. When the product
  request fails the page logs the error and stays Loading, and no later event other than a
  new mount (a route change) leaves Loading: nothing is displayed and nothing retried.\<close>

theorem failed_load_stays_loading:
  assumes "network w = Dropped # ds" and "route_id pg = Some s" and "s \<noteq> []"
    and "product pg = None" and "DMount \<notin> set es"
  shows "detail_status (fst (snd (detail_run (DMount # es) (st, pg, w)))) = Loading"
proof -
  have "detail_step DMount (st, pg, w) =
      (st, pg, console_error ''Failed to fetch product or comments:''
        (w\<lparr>network := ds, requests := requests w @ [GetProduct (js_Number s)]\<rparr>))"
    using assms(1-3) by (simp add: loadProductAndComments_def client_defs call_dropped)
  moreover have "product (fst (snd (detail_run es (st, pg, w')))) = None" for w'
    using assms(4,5)
  proof (induction es arbitrary: st pg w')
    case (Cons e es)
    obtain st1 pg1 w1 where s1: "detail_step e (st, pg, w') = (st1, pg1, w1)" by (metis prod.exhaust)
    with Cons.prems detail_step_no_product [of pg e st w'] have "product pg1 = None" by auto
    with Cons.prems s1 Cons.IH [of pg1 st1 w1] show ?case by simp
  qed simp
  ultimately show ?thesis by (simp add: detail_status_def)
qed

lemma failed_load_stays_loading_witness:
  "detail_status (fst (snd (detail_run [DMount, EditClick, CommentTextChange ''hi'', AddCommentClick ''now'']
     ([], initial_DetailPage (Some ''1''), demo_world2\<lparr>network := [Dropped]\<rparr>)))) = Loading"
proof -
  have h1: "network (demo_world2\<lparr>network := [Dropped]\<rparr>) = Dropped # []" by simp
  have h2: "route_id (initial_DetailPage (Some ''1'')) = Some ''1''" by (simp add: initial_DetailPage_def)
  have h3: "''1'' \<noteq> []" by simp
  have h4: "product (initial_DetailPage (Some ''1'')) = None" by (simp add: initial_DetailPage_def)
  have h5: "DMount \<notin> set [EditClick, CommentTextChange ''hi'', AddCommentClick ''now'']" by simp
  show ?thesis by (rule failed_load_stays_loading [OF h1 h2 h3 h4 h5])
qed

text \<open>C22: the two requests of the load are not one combined fetch: when the product
  arrives and the comments request fails, the page is Ready with the product and the comment
  list it had before (empty on a first mount), and the error is only logged.\<close>

theorem partial_load_shows_product:
  assumes "network w = Delivered # Dropped # ds" and "route_id pg = Some s" and "s \<noteq> []"
    and "find (\<lambda>q. Some (pid q) = js_Number s) (products_db (backend w)) = Some p"
    and "loadProductAndComments pg w = (pg', w')"
  shows "detail_status pg' = Ready \<and> product pg' = Some p \<and> dcomments pg' = dcomments pg \<and>
    console w' = console w @ [''Failed to fetch product or comments:'']"
  using assms
  by (auto simp: loadProductAndComments_def client_defs call_delivered call_dropped srv_get_product_def
      detail_status_def console_error_def)

lemma partial_load_shows_product_witness:
  "\<exists>pg' w'. loadProductAndComments (initial_DetailPage (Some ''1'')) (demo_world2\<lparr>network := [Delivered, Dropped]\<rparr>) = (pg', w') \<and>
     detail_status pg' = Ready \<and> dcomments pg' = []"
proof -
  have h1: "network (demo_world2\<lparr>network := [Delivered, Dropped]\<rparr>) = Delivered # Dropped # []" by simp
  have h2: "route_id (initial_DetailPage (Some ''1'')) = Some ''1''" by (simp add: initial_DetailPage_def)
  have h3: "''1'' \<noteq> []" by simp
  have h4: "find (\<lambda>q. Some (pid q) = js_Number ''1'') (products_db (backend (demo_world2\<lparr>network := [Delivered, Dropped]\<rparr>)))
      = Some (demo_product\<lparr>pid := 1\<rparr>)"
    by (simp add: demo_world2_def demo_defs js_Number_def js_trim_def is_js_space_def decimal_literal_def
        is_digit_def less_eq_char_def digit_val_def)
  obtain pg' w' where h5: "loadProductAndComments (initial_DetailPage (Some ''1'')) (demo_world2\<lparr>network := [Delivered, Dropped]\<rparr>) = (pg', w')"
    by (metis prod.exhaust)
  show ?thesis using h5 partial_load_shows_product [OF h1 h2 h3 h4 h5]
    by (simp add: initial_DetailPage_def)
qed

subsection \<open>Comments\<close>

text \<open>C23: on a reliable network, adding a comment with non-blank text sends one
  \<open>POST /comments\<close> for the shown product and appends exactly the created comment (the
  text as typed, the server's id) to the list; the input is cleared.\<close>

theorem add_comment_appends:
  assumes "fault_free w" and "product pg = Some p" and "js_trim (newCommentText pg) \<noteq> []"
    and "handleAddComment now pg w = (pg', w')"
  shows "dcomments pg' = dcomments pg @
      [\<lparr>cid = next_comment_id (backend w), productId = pid p, description = newCommentText pg, date = now\<rparr>] \<and>
    newCommentText pg' = [] \<and>
    requests w' = requests w @
      [PostComment \<lparr>draft_productId = pid p, draft_description = newCommentText pg, draft_date = now\<rparr>]"
  using assms
  by (auto simp: handleAddComment_def client_defs call_fault_free srv_create_comment_def Let_def)

lemma add_comment_appends_witness:
  "\<exists>pg' w'. handleAddComment ''now'' (demo_detail\<lparr>newCommentText := ''  ok''\<rparr>) demo_world2 = (pg', w') \<and>
     dcomments pg' = [demo_comment, \<lparr>cid = 2, productId = 1, description = ''  ok'', date = ''now''\<rparr>]"
proof -
  have h1: "fault_free demo_world2" by (simp add: demo_world2_def demo_defs fault_free_def)
  have h2: "product (demo_detail\<lparr>newCommentText := ''  ok''\<rparr>) = Some (demo_product\<lparr>pid := 1\<rparr>)"
    by (simp add: demo_detail_def)
  have h3: "js_trim (newCommentText (demo_detail\<lparr>newCommentText := ''  ok''\<rparr>)) \<noteq> []"
    by (simp add: js_trim_def is_js_space_def)
  obtain pg' w' where h4: "handleAddComment ''now'' (demo_detail\<lparr>newCommentText := ''  ok''\<rparr>) demo_world2 = (pg', w')"
    by (metis prod.exhaust)
  show ?thesis using h4 add_comment_appends [OF h1 h2 h3 h4]
    by (simp add: demo_detail_def demo_world2_def demo_defs)
qed

text \<open>C24: a comment text made only of white space is rejected by the \<open>trim\<close> guard:
  nothing is sent and the page is unchanged.\<close>

theorem blank_comment_rejected:
  "list_all is_js_space (newCommentText pg) \<Longrightarrow> handleAddComment now pg w = (pg, w)"
  by (simp add: handleAddComment_def js_trim_all_space)

lemma blank_comment_rejected_witness:
  "handleAddComment ''now'' (demo_detail\<lparr>newCommentText := '' \<newline> ''\<rparr>) demo_world2 =
     (demo_detail\<lparr>newCommentText := '' \<newline> ''\<rparr>, demo_world2)"
proof -
  have h: "list_all is_js_space (newCommentText (demo_detail\<lparr>newCommentText := '' \<newline> ''\<rparr>))"
    by (simp add: is_js_space_def)
  show ?thesis by (rule blank_comment_rejected [OF h])
qed

text \<open>Deleting a comment id that is not in the shown list leaves the list unchanged
  once the call completes, whether the server deletes something or answers 404.\<close>

theorem delete_absent_comment_keeps_list:
  "key_free cid i (dcomments pg) \<Longrightarrow> dcomments (fst (handleDeleteComment i pg w)) = dcomments pg"
  by (auto simp: handleDeleteComment_def filter_id_conv split: prod.splits sum.splits)

lemma delete_absent_comment_keeps_list_witness:
  "dcomments (fst (handleDeleteComment 5 demo_detail demo_world2)) = [demo_comment]"
proof -
  have h: "key_free cid 5 (dcomments demo_detail)" by (simp add: demo_detail_def demo_comment_def)
  show ?thesis using delete_absent_comment_keeps_list [OF h, of demo_world2] by (simp add: demo_detail_def)
qed

text \<open>C26: on a reliable network, deleting a comment the server has removes it from the
  server and from the shown list.\<close>

theorem delete_comment_removes:
  assumes "fault_free w" and "i \<in> cid ` set (comments_db (backend w))"
    and "handleDeleteComment i pg w = (pg', w')"
  shows "key_free cid i (dcomments pg') \<and> key_free cid i (comments_db (backend w'))"
proof -
  from assms(2) have "list_ex (\<lambda>c. cid c = i) (comments_db (backend w))" by (auto simp: list_ex_iff)
  with assms show ?thesis
    by (auto simp: handleDeleteComment_def client_defs call_fault_free srv_delete_comment_def)
qed

lemma delete_comment_removes_witness:
  "\<exists>pg' w'. handleDeleteComment 1 demo_detail demo_world2 = (pg', w') \<and> key_free cid 1 (dcomments pg')"
proof -
  have h1: "fault_free demo_world2" by (simp add: demo_world2_def demo_defs fault_free_def)
  have h2: "1 \<in> cid ` set (comments_db (backend demo_world2))"
    by (simp add: demo_world2_def demo_comment_def)
  obtain pg' w' where h3: "handleDeleteComment 1 demo_detail demo_world2 = (pg', w')" by (metis prod.exhaust)
  show ?thesis using h3 delete_comment_removes [OF h1 h2 h3] by blast
qed

subsection \<open>Editing\<close>

lemma handleUpdate_fault_free:
  assumes "fault_free w" and "product pg = Some p"
    and "find (\<lambda>q. pid q = pid p) (products_db (backend w)) = Some p0"
  shows "handleUpdate st pg w =
    (let u = apply_patch (updatedData p (dformData pg)) p0
     in (slice_updateProduct u st, pg\<lparr>product := Some u, isEditModalOpen := False\<rparr>,
         w\<lparr>network := tl (network w), requests := requests w @ [PatchProduct (pid p) (updatedData p (dformData pg))],
           backend := (backend w)\<lparr>products_db := replace_key pid (pid p) u (products_db (backend w))\<rparr>\<rparr>))"
  using assms
  by (simp add: handleUpdate_def client_defs call_fault_free srv_patch_product_def Let_def)

text \<open>C27: on a reliable network, confirming the edit of a product the server has sends
  one \<open>PATCH\<close> with every property; the page and the store then show the record the
  server returned (the server's record with the form's values), the store in place.\<close>

theorem update_replaces_in_place:
  assumes "fault_free w" and "product pg = Some p"
    and "find (\<lambda>q. pid q = pid p) (products_db (backend w)) = Some p0"
    and "handleUpdate st pg w = (st', pg', w')"
  shows "product pg' = Some (apply_patch (updatedData p (dformData pg)) p0) \<and>
    st' = slice_updateProduct (apply_patch (updatedData p (dformData pg)) p0) st \<and>
    map pid st' = map pid st \<and> \<not> isEditModalOpen pg' \<and>
    requests w' = requests w @ [PatchProduct (pid p) (updatedData p (dformData pg))]"
  using assms by (auto simp: handleUpdate_fault_free Let_def)

lemma update_replaces_in_place_witness:
  "\<exists>st' pg' w'. handleUpdate [demo_product\<lparr>pid := 1\<rparr>] (demo_detail\<lparr>dformData := demo_edit_form\<lparr>f_name := ''Desk''\<rparr>\<rparr>) demo_world2 = (st', pg', w') \<and>
     map_option name (product pg') = Some ''Desk'' \<and> map name st' = [''Desk'']"
proof -
  let ?pg = "demo_detail\<lparr>dformData := demo_edit_form\<lparr>f_name := ''Desk''\<rparr>\<rparr>"
  have h1: "fault_free demo_world2" by (simp add: demo_world2_def demo_defs fault_free_def)
  have h2: "product ?pg = Some (demo_product\<lparr>pid := 1\<rparr>)" by (simp add: demo_detail_def)
  have h3: "find (\<lambda>q. pid q = pid (demo_product\<lparr>pid := 1\<rparr>)) (products_db (backend demo_world2)) =
      Some (demo_product\<lparr>pid := 1\<rparr>)"
    by (simp add: demo_world2_def demo_defs)
  obtain st' pg' w' where h4: "handleUpdate [demo_product\<lparr>pid := 1\<rparr>] ?pg demo_world2 = (st', pg', w')"
    by (metis prod.exhaust)
  show ?thesis using h4 update_replaces_in_place [OF h1 h2 h3 h4]
    by (simp add: apply_patch_def updatedData_def full_patch_def slice_updateProduct_def
        replace_key_def demo_defs demo_edit_form_def form_of_product_def)
qed

text \<open>C28: the edit form is not validated: confirming an edit whose name is empty sends the
  \<open>PATCH\<close> and the page then shows a product without a name (the add form rejects the
  same input, specification section 7).\<close>

theorem edit_skips_validation:
  assumes "fault_free w" and "product pg = Some p"
    and "find (\<lambda>q. pid q = pid p) (products_db (backend w)) = Some p0"
    and "f_name (dformData pg) = []" and "handleUpdate st pg w = (st', pg', w')"
  shows "form_missing_required (dformData pg) \<and> map_option name (product pg') = Some [] \<and>
    requests w' = requests w @ [PatchProduct (pid p) (updatedData p (dformData pg))]"
  using assms
  by (auto simp: handleUpdate_fault_free Let_def form_missing_required_def apply_patch_def
      updatedData_def full_patch_def)

lemma edit_skips_validation_witness:
  "\<exists>st' pg' w'. handleUpdate [] (demo_detail\<lparr>dformData := demo_edit_form\<lparr>f_name := []\<rparr>\<rparr>) demo_world2 = (st', pg', w') \<and>
     map_option name (product pg') = Some []"
proof -
  let ?pg = "demo_detail\<lparr>dformData := demo_edit_form\<lparr>f_name := []\<rparr>\<rparr>"
  have h1: "fault_free demo_world2" by (simp add: demo_world2_def demo_defs fault_free_def)
  have h2: "product ?pg = Some (demo_product\<lparr>pid := 1\<rparr>)" by (simp add: demo_detail_def)
  have h3: "find (\<lambda>q. pid q = pid (demo_product\<lparr>pid := 1\<rparr>)) (products_db (backend demo_world2)) =
      Some (demo_product\<lparr>pid := 1\<rparr>)"
    by (simp add: demo_world2_def demo_defs)
  have h4: "f_name (dformData ?pg) = []" by simp
  obtain st' pg' w' where h5: "handleUpdate [] ?pg demo_world2 = (st', pg', w')" by (metis prod.exhaust)
  show ?thesis using h5 edit_skips_validation [OF h1 h2 h3 h4 h5] by blast
qed

subsection \<open>The session state machine\<close>

lemma detail_run_keeps_product:
  "product pg \<noteq> None \<Longrightarrow> product (fst (snd (detail_run es (st, pg, w)))) \<noteq> None"
proof (induction es arbitrary: st pg w)
  case (Cons e es)
  obtain st1 pg1 w1 where s1: "detail_step e (st, pg, w) = (st1, pg1, w1)" by (metis prod.exhaust)
  with detail_step_keeps_product [OF Cons.prems, of e st w] have "product pg1 \<noteq> None" by simp
  with s1 Cons.IH [of pg1 st1 w1] show ?case by simp
qed simp

text \<open>C29: Ready is stable: once a product is shown, no sequence of events (a repeated
  mount that fails included) returns the page to Loading.\<close>

theorem ready_stays_ready:
  "detail_status pg = Ready \<Longrightarrow> detail_status (fst (snd (detail_run es (st, pg, w)))) = Ready"
  using detail_run_keeps_product [of pg es st w]
  by (auto simp: detail_status_def split: option.splits)

lemma ready_stays_ready_witness:
  "detail_status (fst (snd (detail_run [DMount, EditClick, ConfirmUpdate, DeleteCommentClick 1]
     ([], demo_detail, demo_world2\<lparr>network := [Dropped]\<rparr>)))) = Ready"
proof -
  have h: "detail_status demo_detail = Ready" by (simp add: demo_detail_def detail_status_def)
  show ?thesis by (rule ready_stays_ready [OF h])
qed

subsection \<open>The page invariant\<close>

lemma list_all_cid_mono:
  "list_all (\<lambda>x. cid x < n \<and> Q x) cs \<Longrightarrow> n \<le> m \<Longrightarrow> list_all (\<lambda>x. cid x < m \<and> Q x) cs"
  by (auto simp: list_all_iff)

lemma load_inv:
  assumes inv: "detail_inv (st, pg, w)" and l: "loadProductAndComments pg w = (pg', w')"
  shows "detail_inv (st, pg', w')"
proof (cases "route_id pg")
  case None
  with inv l show ?thesis by (simp add: loadProductAndComments_def)
next
  case (Some s)
  show ?thesis
  proof (cases "s = []")
    case True
    with Some inv l show ?thesis by (simp add: loadProductAndComments_def)
  next
    case False
    obtain r1 w1 where f1: "fetchProductById (js_Number s) w = (r1, w1)" by (metis prod.exhaust)
    have wf1: "backend_wf (backend w1)" using f1 inv by (auto simp: detail_inv_def intro: backend_wf_client(5))
    have n1: "next_comment_id (backend w) \<le> next_comment_id (backend w1)"
      using f1 by (rule next_comment_id_client(1))
    show ?thesis
    proof (cases r1)
      case Inl
      with Some False f1 l inv wf1 n1 show ?thesis
        by (auto simp: loadProductAndComments_def detail_inv_def console_error_def
            intro: list_all_cid_mono)
    next
      case (Inr p)
      from f1 Inr have pp: "Some (pid p) = js_Number s" and b1: "backend w1 = backend w"
        by (auto dest!: fetchProductById_Inr find_SomeD)
      obtain r2 w2 where f2: "fetchComments (js_Number s) w1 = (r2, w2)" by (metis prod.exhaust)
      have wf2: "backend_wf (backend w2)" using f2 wf1 by (rule backend_wf_client(6))
      have n2: "next_comment_id (backend w1) \<le> next_comment_id (backend w2)"
        using f2 by (rule next_comment_id_client(2))
      show ?thesis
      proof (cases r2)
        case Inl
        have "list_all (\<lambda>x. cid x < next_comment_id (backend w) \<and> Some (productId x) = Some (pid p)) (dcomments pg)"
          using inv Some pp
          by (cases "product pg") (auto simp: detail_inv_def list_all_iff)
        moreover have "next_comment_id (backend w) \<le> next_comment_id (backend w2)" using n1 n2 by simp
        ultimately have "list_all (\<lambda>x. cid x < next_comment_id (backend w2) \<and> Some (productId x) = Some (pid p)) (dcomments pg)"
          by (rule list_all_cid_mono)
        with Some False f1 Inr f2 Inl l inv wf2 pp show ?thesis
          by (auto simp: loadProductAndComments_def detail_inv_def console_error_def)
      next
        case (Inr cs)
        from f2 Inr have cs: "cs = filter (\<lambda>c. Some (productId c) = js_Number s) (comments_db (backend w1))"
          and b2: "backend w2 = backend w1" by (auto dest!: fetchComments_Inr)
        from wf1 have "distinct (map cid cs)" and "list_all (\<lambda>x. cid x < next_comment_id (backend w2)) cs"
          using cs b2 by (auto simp: backend_wf_def distinct_map_filter list_all_iff)
        with Some False f1 \<open>r1 = Inr p\<close> f2 Inr l wf2 pp cs show ?thesis
          by (auto simp: loadProductAndComments_def detail_inv_def list_all_iff)
      qed
    qed
  qed
qed

lemma update_inv:
  assumes inv: "detail_inv (st, pg, w)" and h: "handleUpdate st pg w = (st', pg', w')"
  shows "detail_inv (st', pg', w')"
proof (cases "product pg")
  case None
  with inv h show ?thesis by (simp add: handleUpdate_def)
next
  case (Some p)
  obtain r w1 where u: "updateProduct (pid p) (updatedData p (dformData pg)) w = (r, w1)"
    by (metis prod.exhaust)
  have wf1: "backend_wf (backend w1)" using u inv by (auto simp: detail_inv_def intro: backend_wf_client(4))
  have n1: "next_comment_id (backend w) \<le> next_comment_id (backend w1)"
    using u by (rule next_comment_id_client(3))
  have old: "list_all (\<lambda>x. cid x < next_comment_id (backend w1) \<and> Some (productId x) = Some (pid p)) (dcomments pg)"
    using inv Some n1 by (auto simp: detail_inv_def list_all_iff intro: less_le_trans)
  show ?thesis
  proof (cases r)
    case Inl
    with Some u h inv wf1 old show ?thesis
      by (auto simp: handleUpdate_def detail_inv_def console_error_def)
  next
    case (Inr v)
    with u have "pid v = pid p" by (auto dest: updateProduct_Inr)
    with Some u Inr h inv wf1 old show ?thesis
      by (auto simp: handleUpdate_def detail_inv_def split: option.splits)
  qed
qed

lemma add_comment_inv:
  assumes inv: "detail_inv (st, pg, w)" and h: "handleAddComment now pg w = (pg', w')"
  shows "detail_inv (st, pg', w')"
proof (cases "js_trim (newCommentText pg) = [] \<or> product pg = None")
  case True
  with inv h show ?thesis by (auto simp: handleAddComment_def split: if_splits)
next
  case False
  then obtain p where p: "product pg = Some p" and t: "js_trim (newCommentText pg) \<noteq> []" by auto
  let ?d = "\<lparr>draft_productId = pid p, draft_description = newCommentText pg, draft_date = now\<rparr>"
  obtain r w1 where a: "addComment ?d w = (r, w1)" by (metis prod.exhaust)
  have wf1: "backend_wf (backend w1)" using a inv by (auto simp: detail_inv_def intro: backend_wf_client(7))
  have n1: "next_comment_id (backend w) \<le> next_comment_id (backend w1)"
    using a by (rule next_comment_id_client(4))
  have old: "list_all (\<lambda>x. cid x < next_comment_id (backend w) \<and> Some (productId x) = Some (pid p)) (dcomments pg)"
    using inv p by (auto simp: detail_inv_def list_all_iff)
  show ?thesis
  proof (cases r)
    case Inl
    from old n1 have "list_all (\<lambda>x. cid x < next_comment_id (backend w1) \<and> Some (productId x) = Some (pid p)) (dcomments pg)"
      by (rule list_all_cid_mono)
    with p t a Inl h inv wf1 show ?thesis
      by (auto simp: handleAddComment_def detail_inv_def console_error_def)
  next
    case (Inr c)
    with a have c: "c = \<lparr>cid = next_comment_id (backend w), productId = pid p,
        description = newCommentText pg, date = now\<rparr>"
      and n: "next_comment_id (backend w1) = next_comment_id (backend w) + 1"
      by (auto dest!: addComment_Inr)
    from old n have "list_all (\<lambda>x. cid x < next_comment_id (backend w1) \<and> Some (productId x) = Some (pid p)) (dcomments pg)"
      by (auto simp: list_all_iff)
    moreover from old have "cid c \<notin> set (map cid (dcomments pg))" using c by (auto simp: list_all_iff)
    ultimately show ?thesis using p t a Inr h inv wf1 c n
      by (auto simp: handleAddComment_def detail_inv_def Let_def)
  qed
qed

lemma delete_comment_inv:
  assumes inv: "detail_inv (st, pg, w)" and h: "handleDeleteComment i pg w = (pg', w')"
  shows "detail_inv (st, pg', w')"
proof -
  obtain r w1 where d: "deleteComment i w = (r, w1)" by (metis prod.exhaust)
  have wf1: "backend_wf (backend w1)" using d inv by (auto simp: detail_inv_def intro: backend_wf_client(8))
  have n1: "next_comment_id (backend w) \<le> next_comment_id (backend w1)"
    using d by (rule next_comment_id_client(5))
  have old: "list_all (\<lambda>x. cid x < next_comment_id (backend w1) \<and> Some (productId x) = map_option pid (product pg)) (dcomments pg)"
    using inv n1 by (auto simp: detail_inv_def intro: list_all_cid_mono)
  show ?thesis
    using d h inv wf1 old
    by (cases r) (auto simp: handleDeleteComment_def detail_inv_def console_error_def list_all_iff
        distinct_map_filter split: option.splits)
qed

lemma detail_step_inv: "detail_inv c \<Longrightarrow> detail_inv (detail_step e c)"
proof (cases c)
  case (fields st pg w)
  assume inv: "detail_inv c"
  show ?thesis
  proof (cases e)
    case DMount
    obtain pg' w' where "loadProductAndComments pg w = (pg', w')" by (metis prod.exhaust)
    with inv fields DMount show ?thesis by (simp add: load_inv)
  next
    case ConfirmUpdate
    obtain st' pg' w' where "handleUpdate st pg w = (st', pg', w')" by (metis prod.exhaust)
    with inv fields ConfirmUpdate show ?thesis by (simp add: update_inv)
  next
    case (AddCommentClick now)
    obtain pg' w' where "handleAddComment now pg w = (pg', w')" by (metis prod.exhaust)
    with inv fields AddCommentClick show ?thesis by (simp add: add_comment_inv)
  next
    case (DeleteCommentClick i)
    obtain pg' w' where "handleDeleteComment i pg w = (pg', w')" by (metis prod.exhaust)
    with inv fields DeleteCommentClick show ?thesis by (simp add: delete_comment_inv)
  next
    case EditClick
    with inv fields show ?thesis
      by (auto simp: detail_inv_def handleEditClick_def split: option.splits)
  qed (use inv fields in \<open>auto simp: detail_inv_def split: option.splits\<close>)
qed

text \<open>C30: every run of detail-page events, under any network behaviour, keeps the backend
  well-formed, keeps the listed comments unique and assigned by the server, keeps every
  listed comment attached to the shown product, and keeps the shown product the one the
  route names.\<close>

theorem detail_run_keeps_invariant:
  "detail_inv c \<Longrightarrow> detail_inv (detail_run es c)"
  by (induction es arbitrary: c) (simp_all add: detail_step_inv)

lemma detail_run_keeps_invariant_witness:
  "detail_inv (detail_run [DMount, CommentTextChange ''hi'', AddCommentClick ''now'', DeleteCommentClick 1]
     ([], initial_DetailPage (Some ''1''), demo_world2\<lparr>network := [Delivered, ResponseLost, Dropped]\<rparr>))"
proof -
  have "detail_inv ([], initial_DetailPage (Some ''1''), demo_world2\<lparr>network := [Delivered, ResponseLost, Dropped]\<rparr>)"
    by (simp add: detail_inv_def initial_DetailPage_def demo_world2_def demo_defs backend_wf_def
        demo_comment_def)
  then show ?thesis by (rule detail_run_keeps_invariant)
qed

subsection \<open>The store mirrors the backend\<close>

text \<open>On a reliable network the detail page keeps the Redux store equal to the server's
  product collection: loading and the comment operations do not touch products, and the
  update replaces the server's product and the store's product by the same value.\<close>

lemma load_mirror:
  assumes l: "loadProductAndComments pg w = (pg', w')" and ff: "fault_free w"
  shows "fault_free w' \<and> products_db (backend w') = products_db (backend w)"
proof (cases "route_id pg = None \<or> route_id pg = Some []")
  case True
  with l ff show ?thesis by (auto simp: loadProductAndComments_def)
next
  case False
  then obtain s where s: "route_id pg = Some s" "s \<noteq> []" by auto
  obtain r1 w1 where f1: "fetchProductById (js_Number s) w = (r1, w1)" by (metis prod.exhaust)
  obtain r2 w2 where f2: "fetchComments (js_Number s) w1 = (r2, w2)" by (metis prod.exhaust)
  have "fault_free w1" "products_db (backend w1) = products_db (backend w)"
    using fault_free_client(5) [OF f1 ff] products_db_client(1) [OF f1] by simp_all
  moreover have "fault_free w2" "products_db (backend w2) = products_db (backend w1)"
    using fault_free_client(6) [OF f2 \<open>fault_free w1\<close>] products_db_client(2) [OF f2] by simp_all
  ultimately show ?thesis
    using l s f1 f2 by (auto simp: loadProductAndComments_def Let_def split: sum.splits)
qed

lemma detail_step_mirror:
  assumes ff: "fault_free w" and m: "st = products_db (backend w)"
    and s: "detail_step e (st, pg, w) = (st', pg', w')"
  shows "fault_free w' \<and> st' = products_db (backend w')"
proof (cases e)
  case DMount
  with s obtain pg1 where "loadProductAndComments pg w = (pg1, w')" and "st' = st"
    by (auto split: prod.splits)
  with ff m show ?thesis by (auto dest: load_mirror)
next
  case ConfirmUpdate
  show ?thesis
  proof (cases "product pg \<noteq> None \<and> isEditModalOpen pg")
    case False
    with ConfirmUpdate s ff m show ?thesis by auto
  next
    case True
    then obtain p where p: "product pg = Some p" by auto
    show ?thesis
    proof (cases "find (\<lambda>q. pid q = pid p) (products_db (backend w))")
      case None
      with True p ConfirmUpdate s ff m show ?thesis
        by (auto simp: handleUpdate_def client_defs call_fault_free srv_patch_product_def
            fault_free_def list_all_tl)
    next
      case (Some p0)
      from Some have "pid p0 = pid p" by (auto dest: find_SomeD)
      with True p Some ConfirmUpdate s ff m show ?thesis
        by (auto simp: handleUpdate_fault_free Let_def slice_updateProduct_def fault_free_def list_all_tl)
    qed
  qed
next
  case (AddCommentClick now)
  with s obtain pg1 where h: "st' = st" and "product pg \<noteq> None \<Longrightarrow> handleAddComment now pg w = (pg1, w')"
    and "product pg = None \<Longrightarrow> w' = w"
    by (auto split: prod.splits if_splits)
  with ff m show ?thesis
    by (cases "product pg")
       (auto simp: handleAddComment_def Let_def split: if_splits option.splits prod.splits sum.splits
        dest: fault_free_client(7) products_db_client(3))
next
  case (DeleteCommentClick i)
  with s ff m show ?thesis
    by (auto simp: handleDeleteComment_def split: if_splits prod.splits sum.splits
        dest: fault_free_client(8) products_db_client(4))
qed (use s ff m in \<open>auto split: if_splits\<close>)

subsection \<open>Reloading after a failure\<close>

text \<open>A load consumes at least one network outcome when it fails, and keeps the route and the
  server's products: the network script is the fuel that bounds the failed reloads.\<close>

lemma fetchProductById_network: "fetchProductById j w = (r, w1) \<Longrightarrow> network w1 = tl (network w)"
  unfolding fetchProductById_def by (metis call_network snd_conv)

lemma load_progress:
  assumes r: "route_id pg = Some s" "s \<noteq> []"
    and ex: "find (\<lambda>q. Some (pid q) = js_Number s) (products_db (backend w)) \<noteq> None"
    and l: "loadProductAndComments pg w = (pg', w')"
  shows "route_id pg' = route_id pg \<and> products_db (backend w') = products_db (backend w) \<and>
    (product pg' \<noteq> None \<or> length (network w') < length (network w))"
proof -
  obtain r1 w1 where f1: "fetchProductById (js_Number s) w = (r1, w1)" by (metis prod.exhaust)
  obtain r2 w2 where f2: "fetchComments (js_Number s) w1 = (r2, w2)" by (metis prod.exhaust)
  have db: "products_db (backend w1) = products_db (backend w)" "products_db (backend w2) = products_db (backend w1)"
    using products_db_client(1) [OF f1] products_db_client(2) [OF f2] by simp_all
  show ?thesis
  proof (cases r1)
    case (Inl e)
    have "network w \<noteq> []"
    proof
      assume "network w = []"
      then have "fault_free w" by (simp add: fault_free_def)
      then have "r1 = fst (srv_get_product (js_Number s) (backend w))"
        using f1 by (simp add: fetchProductById_def call_fault_free)
      with Inl ex show False by (auto simp: srv_get_product_def split: option.splits)
    qed
    with l r f1 Inl db fetchProductById_network [OF f1] show ?thesis
      by (auto simp: loadProductAndComments_def console_error_def)
  next
    case (Inr p)
    with l r f1 f2 db show ?thesis
      by (auto simp: loadProductAndComments_def Let_def console_error_def split: sum.splits)
  qed
qed

text \<open>C36 (liveness): a failed load is not final for the user: reloading the page (a new
  mount) while the route names a product the server has reaches Ready, whatever faults the
  network has in store, after at most one more reload than there are faults left.\<close>

theorem reload_reaches_ready:
  assumes "route_id pg = Some s" and "s \<noteq> []" and "js_Number s = Some i"
    and "i \<in> pid ` set (products_db (backend w))" and "length (network w) < n"
  shows "detail_status (fst (snd (detail_run (replicate n DMount) (st, pg, w)))) = Ready"
  using assms
proof (induction n arbitrary: pg w)
  case 0
  then show ?case by simp
next
  case (Suc n)
  obtain pg1 w1 where l: "loadProductAndComments pg w = (pg1, w1)" by (metis prod.exhaust)
  have ex: "find (\<lambda>q. Some (pid q) = js_Number s) (products_db (backend w)) \<noteq> None"
    using Suc.prems(3,4) by (auto simp: find_None_iff)
  from load_progress [OF Suc.prems(1,2) ex l]
  have rt: "route_id pg1 = Some s" and db: "products_db (backend w1) = products_db (backend w)"
    and pr: "product pg1 \<noteq> None \<or> length (network w1) < length (network w)"
    using Suc.prems(1) by simp_all
  have run: "detail_run (replicate (Suc n) DMount) (st, pg, w) = detail_run (replicate n DMount) (st, pg1, w1)"
    using l by simp
  show ?case
  proof (cases "product pg1 = None")
    case False
    then show ?thesis unfolding run
      using detail_run_keeps_product [OF False, of "replicate n DMount" st w1]
      by (auto simp: detail_status_def split: option.splits)
  next
    case True
    with pr Suc.prems(5) have "length (network w1) < n" by simp
    from Suc.IH [OF rt Suc.prems(2,3) _ this] Suc.prems(4) db show ?thesis unfolding run by simp
  qed
qed

lemma reload_reaches_ready_witness:
  "detail_status (fst (snd (detail_run (replicate 3 DMount)
     ([], initial_DetailPage (Some ''1''), demo_world2\<lparr>network := [Dropped, ResponseLost]\<rparr>)))) = Ready"
  by (rule reload_reaches_ready [where s = "''1''" and i = 1])
     (simp_all add: initial_DetailPage_def js_Number_def js_trim_def decimal_literal_def is_js_space_def
       is_digit_def digits_val_def digit_val_def demo_world2_def demo_defs)

end
