(* ===== verification/Async_List_Page.thy ===== *)
theory Async_List_Page
  imports Product_List_Page "HOL-Library.While_Combinator"
begin

text \<open>The list page's handlers are \<open>async\<close> functions: at each \<open>await\<close> the browser may
  dispatch other events before the response is handled. This theory models those
  suspension points. A handler runs until its first \<open>await\<close>, sends the request (the
  server acts on it when it is sent, through \<open>call\<close>), and leaves a pending task holding
  the outcome; a \<open>Resume\<close> event later runs the code after the \<open>await\<close>. The model
  refines the atomic one of \<open>Product_List_Page\<close>: resuming each task before the next user
  event gives exactly \<open>list_step\<close>. Other schedules expose two races; the
  store's unique ids survive every schedule.\<close>

section \<open>Pending tasks\<close>

text \<open>A task is a handler suspended at one of its \<open>await\<close>s, with the settled promise:
  \<open>loadProducts\<close> at \<open>await fetchProducts()\<close> (line 39), \<open>handleSubmit\<close> at
  \<open>await addProductApi(newProduct)\<close> (line 80) and at \<open>await fetchProducts()\<close>
  (line 81), \<open>confirmDelete\<close> at \<open>await deleteProductApi(selectedProductId)\<close> (line 109)
  with the id it captured.\<close>

datatype Task =
    LoadAwait "http_error + Product list"
  | AddAwait "http_error + Product"
  | ListAwait "http_error + Product list"
  | DeleteAwait int "http_error + unit"

type_synonym async_config = "ProductsState \<times> ListPage \<times> Task list \<times> world"

section \<open>Handlers up to their first await\<close>

definition start_load :: "Task list \<Rightarrow> world \<Rightarrow> Task list \<times> world" where
  "start_load ts w = (let (r, w1) = fetchProducts w in (ts @ [LoadAwait r], w1))"

definition start_submit :: "ProductsState \<Rightarrow> ListPage \<Rightarrow> Task list \<Rightarrow> world \<Rightarrow> async_config" where
  "start_submit products pg ts w =
     (if form_missing_required (formData pg)
      then (products, pg, ts, window_alert ''Please fill in all required fields!'' w)
      else
        (let newId = maxId products + 1;
             (r, w1) = addProduct (newProduct newId (formData pg)) w
         in (products, pg, ts @ [AddAwait r], w1)))"

definition start_delete :: "ProductsState \<Rightarrow> ListPage \<Rightarrow> Task list \<Rightarrow> world \<Rightarrow> async_config" where
  "start_delete products pg ts w =
     (case selectedProductId pg of
        None \<Rightarrow> (products, pg, ts, w)
      | Some i \<Rightarrow> (let (r, w1) = deleteProduct i w in (products, pg, ts @ [DeleteAwait i r], w1)))"

section \<open>The code after each await\<close>

text \<open>Resuming a task runs the handler to its next \<open>await\<close> (a new task) or to its end.\<close>

fun resume_task ::
  "Task \<Rightarrow> ProductsState \<Rightarrow> ListPage \<Rightarrow> world \<Rightarrow> ProductsState \<times> ListPage \<times> Task list \<times> world" where
  "resume_task (LoadAwait (Inr productsFromServer)) st pg w = (slice_setProducts productsFromServer st, pg, [], w)"
| "resume_task (LoadAwait (Inl _)) st pg w = (st, pg, [], console_error ''Failed to fetch products:'' w)"
| "resume_task (AddAwait (Inr _)) st pg w = (let (r, w1) = fetchProducts w in (st, pg, [ListAwait r], w1))"
| "resume_task (AddAwait (Inl _)) st pg w = (st, pg, [], console_error ''Failed to add product:'' w)"
| "resume_task (ListAwait (Inr updatedProducts)) st pg w =
     (slice_setProducts updatedProducts st, pg\<lparr>isAddModalOpen := False, formData := empty_form\<rparr>, [], w)"
| "resume_task (ListAwait (Inl _)) st pg w = (st, pg, [], console_error ''Failed to add product:'' w)"
| "resume_task (DeleteAwait i (Inr _)) st pg w =
     (slice_deleteProduct i st, pg\<lparr>isDeleteModalOpen := False, selectedProductId := None\<rparr>, [], w)"
| "resume_task (DeleteAwait i (Inl _)) st pg w = (st, pg, [], console_error ''Failed to delete product:'' w)"

section \<open>Events and schedules\<close>

datatype AsyncEvent = UI ListEvent | Resume nat

fun async_step :: "AsyncEvent \<Rightarrow> async_config \<Rightarrow> async_config" where
  "async_step (UI Mount) (st, pg, ts, w) = (let (ts', w') = start_load ts w in (st, pg, ts', w'))"
| "async_step (UI Submit) (st, pg, ts, w) =
     (if isAddModalOpen pg then start_submit st pg ts w else (st, pg, ts, w))"
| "async_step (UI ConfirmDelete) (st, pg, ts, w) =
     (if isDeleteModalOpen pg then start_delete st pg ts w else (st, pg, ts, w))"
| "async_step (UI e) (st, pg, ts, w) = (let (st', pg', w') = list_step e (st, pg, w) in (st', pg', ts, w'))"
| "async_step (Resume k) (st, pg, ts, w) =
     (if k < length ts
      then (let (st', pg', ts1, w') = resume_task (ts ! k) st pg w
            in (st', pg', take k ts @ drop (Suc k) ts @ ts1, w'))
      else (st, pg, ts, w))"

definition async_run :: "AsyncEvent list \<Rightarrow> async_config \<Rightarrow> async_config" where
  "async_run es c = fold async_step es c"

text \<open>The sequential schedule: every user event is followed by resuming the oldest task
  twice, enough for the two awaits of \<open>handleSubmit\<close>.\<close>

definition sequential :: "ListEvent list \<Rightarrow> AsyncEvent list" where
  "sequential es = concat (map (\<lambda>e. [UI e, Resume 0, Resume 0]) es)"




text \<open>The asynchronous page's invariant: the backend is well-formed, the store has unique
  ids, and every pending list response has unique ids (it is a past state of the server).\<close>

fun task_ok :: "Task \<Rightarrow> bool" where
  "task_ok (LoadAwait (Inr ps)) = distinct (map pid ps)"
| "task_ok (ListAwait (Inr ps)) = distinct (map pid ps)"
| "task_ok _ = True"

definition async_inv :: "async_config \<Rightarrow> bool" where
  "async_inv c \<longleftrightarrow>
     (case c of (st, pg, ts, w) \<Rightarrow> backend_wf (backend w) \<and> store_wf st \<and> list_all task_ok ts)"

section \<open>Lemmas\<close>

lemma async_run_Cons [simp]: "async_run (e # es) c = async_run es (async_step e c)"
  by (simp add: async_run_def)

lemma async_run_Nil [simp]: "async_run [] c = c"
  by (simp add: async_run_def)

lemma async_run_append: "async_run (xs @ ys) c = async_run ys (async_run xs c)"
  by (simp add: async_run_def)

lemma sequential_Cons [simp]: "sequential (e # es) = [UI e, Resume 0, Resume 0] @ sequential es"
  by (simp add: sequential_def)

lemma sequential_Nil [simp]: "sequential [] = []"
  by (simp add: sequential_def)

lemma sequential_step:
  "async_run [UI e, Resume 0, Resume 0] (st, pg, [], w) =
     (let (st', pg', w') = list_step e (st, pg, w) in (st', pg', [], w'))"
  by (cases e)
     (auto simp: start_load_def start_submit_def start_delete_def loadProducts_def handleSubmit_def
        confirmDelete_def Let_def split: prod.splits sum.splits option.splits)

text \<open>The atomic model of the list page is the sequential schedule of
  the asynchronous one: when each user event's tasks are resumed before the next user event,
  every run of events ends in the state \<open>list_run\<close> computes, with no task pending.\<close>

theorem sequential_refines_atomic:
  "async_run (sequential es) (st, pg, [], w) =
     (let (st', pg', w') = list_run es (st, pg, w) in (st', pg', [], w'))"
proof (induction es arbitrary: st pg w)
  case Nil
  then show ?case by simp
next
  case (Cons e es)
  obtain st1 pg1 w1 where s: "list_step e (st, pg, w) = (st1, pg1, w1)" by (metis prod.exhaust)
  have "async_run [UI e, Resume 0, Resume 0] (st, pg, [], w) = (st1, pg1, [], w1)"
    using sequential_step [of e st pg w] s by simp
  then have "async_run (sequential (e # es)) (st, pg, [], w) = async_run (sequential es) (st1, pg1, [], w1)"
    by (simp only: sequential_Cons async_run_append)
  with Cons.IH [of st1 pg1 w1] s show ?case by simp
qed

text \<open>C38 (error): the Add button is not disabled while \<open>handleSubmit\<close> awaits. Two clicks
  before the first response each send a \<open>POST\<close> of the same form with the same
  client-side id, and on a reliable network the server and then the store end with two new
  products.\<close>

theorem double_submit_creates_two:
  assumes ff: "fault_free w" and op: "isAddModalOpen pg" and ok: "\<not> form_missing_required (formData pg)"
    and r: "async_run [UI Submit, UI Submit, Resume 0, Resume 0, Resume 0, Resume 0] (st, pg, [], w) =
      (st', pg', ts', w')"
  shows "products_db (backend w') = products_db (backend w) @
      [(newProduct (maxId st + 1) (formData pg))\<lparr>pid := next_product_id (backend w)\<rparr>,
       (newProduct (maxId st + 1) (formData pg))\<lparr>pid := next_product_id (backend w) + 1\<rparr>] \<and>
    st' = products_db (backend w') \<and> ts' = [] \<and>
    requests w' = requests w @ [PostProduct (newProduct (maxId st + 1) (formData pg)),
      PostProduct (newProduct (maxId st + 1) (formData pg)), GetProducts, GetProducts]"
  using ff op ok r
  by (simp add: start_submit_def client_defs call_fault_free fault_free_def list_all_tl
      srv_create_product_def srv_list_products_def slice_setProducts_def Let_def) auto

lemma double_submit_creates_two_witness:
  "\<exists>st' pg' ts' w'. async_run [UI Submit, UI Submit, Resume 0, Resume 0, Resume 0, Resume 0]
      ([], demo_page, [], demo_world) = (st', pg', ts', w') \<and> length (products_db (backend w')) = 2"
proof -
  obtain st' pg' ts' w' where r: "async_run [UI Submit, UI Submit, Resume 0, Resume 0, Resume 0, Resume 0]
      ([], demo_page, [], demo_world) = (st', pg', ts', w')" by (metis prod.exhaust)
  have "products_db (backend w') = products_db (backend demo_world) @
      [(newProduct (maxId [] + 1) (formData demo_page))\<lparr>pid := next_product_id (backend demo_world)\<rparr>,
       (newProduct (maxId [] + 1) (formData demo_page))\<lparr>pid := next_product_id (backend demo_world) + 1\<rparr>] \<and>
    st' = products_db (backend w') \<and> ts' = [] \<and>
    requests w' = requests demo_world @ [PostProduct (newProduct (maxId [] + 1) (formData demo_page)),
      PostProduct (newProduct (maxId [] + 1) (formData demo_page)), GetProducts, GetProducts]"
    by (rule double_submit_creates_two [OF _ _ _ r])
       (simp_all add: fault_free_def demo_defs demo_page_def)
  with r show ?thesis by (simp add: demo_defs)
qed

text \<open>C39 (error): a late response overwrites the store. With the add modal's re-fetch
  still pending, the user deletes a listed product \<open>i\<close>; the \<open>DELETE\<close> succeeds and the
  store drops the product, and then the earlier \<open>GET /products\<close>, sent before the delete,
  resolves and \<open>setProducts\<close> puts product \<open>i\<close> back. On a reliable network the store
  ends with a product the server no longer has: the mirror of C14 does not survive
  interleaving.\<close>

theorem stale_list_restores_deleted:
  assumes ff: "fault_free w" and op: "isAddModalOpen pg" and ok: "\<not> form_missing_required (formData pg)"
    and i_st: "list_ex (\<lambda>p. pid p = i) st" and i_db: "list_ex (\<lambda>p. pid p = i) (products_db (backend w))"
    and r: "async_run [UI Submit, Resume 0, UI CloseAddModal, UI (OpenDelete i), UI ConfirmDelete,
      Resume 1, Resume 0] (st, pg, [], w) = (st', pg', ts', w')"
  shows "st' = products_db (backend w) @
      [(newProduct (maxId st + 1) (formData pg))\<lparr>pid := next_product_id (backend w)\<rparr>] \<and>
    products_db (backend w') = filter (\<lambda>p. pid p \<noteq> i) st' \<and>
    list_ex (\<lambda>p. pid p = i) st' \<and> key_free pid i (products_db (backend w')) \<and> ts' = []"
  using ff op ok i_st i_db r
  by (simp add: start_submit_def start_delete_def client_defs call_fault_free fault_free_def list_all_tl
      srv_create_product_def srv_list_products_def srv_delete_product_def slice_setProducts_def
      slice_deleteProduct_def openDeleteModal_def Let_def) (auto split: if_splits)

lemma stale_list_restores_deleted_witness:
  "\<exists>st' pg' ts' w'. async_run [UI Submit, Resume 0, UI CloseAddModal, UI (OpenDelete 1),
      UI ConfirmDelete, Resume 1, Resume 0] ([demo_product\<lparr>pid := 1\<rparr>], demo_page, [], demo_world1) =
      (st', pg', ts', w') \<and> list_ex (\<lambda>p. pid p = 1) st' \<and> products_db (backend w') = [(newProduct 2 demo_form)\<lparr>pid := 2\<rparr>]"
proof -
  obtain st' pg' ts' w' where r: "async_run [UI Submit, Resume 0, UI CloseAddModal, UI (OpenDelete 1),
      UI ConfirmDelete, Resume 1, Resume 0] ([demo_product\<lparr>pid := 1\<rparr>], demo_page, [], demo_world1) =
      (st', pg', ts', w')" by (metis prod.exhaust)
  have "st' = products_db (backend demo_world1) @
      [(newProduct (maxId [demo_product\<lparr>pid := 1\<rparr>] + 1) (formData demo_page))\<lparr>pid := next_product_id (backend demo_world1)\<rparr>] \<and>
    products_db (backend w') = filter (\<lambda>p. pid p \<noteq> 1) st' \<and>
    list_ex (\<lambda>p. pid p = 1) st' \<and> key_free pid 1 (products_db (backend w')) \<and> ts' = []"
    by (rule stale_list_restores_deleted [OF _ _ _ _ _ r])
       (simp_all add: fault_free_def demo_defs demo_page_def)
  with r show ?thesis by (simp add: demo_defs demo_page_def maxId_def Math_max_def)
qed





subsection \<open>The invariant under every interleaving\<close>

lemma fetchProducts_task_ok:
  "fetchProducts w = (r, w') \<Longrightarrow> backend_wf (backend w) \<Longrightarrow> task_ok (LoadAwait r) \<and> task_ok (ListAwait r)"
  by (cases r) (auto dest: fetchProducts_distinct)

lemma start_load_inv:
  "backend_wf (backend w) \<Longrightarrow> list_all task_ok ts \<Longrightarrow> start_load ts w = (ts', w') \<Longrightarrow>
   backend_wf (backend w') \<and> list_all task_ok ts'"
  by (auto simp: start_load_def split: prod.splits intro: backend_wf_client(1) dest: fetchProducts_task_ok)

lemma start_submit_inv:
  "backend_wf (backend w) \<Longrightarrow> list_all task_ok ts \<Longrightarrow> start_submit st pg ts w = (st', pg', ts', w') \<Longrightarrow>
   backend_wf (backend w') \<and> st' = st \<and> list_all task_ok ts'"
  by (cases "addProduct (newProduct (maxId st + 1) (formData pg)) w"; cases "fst (addProduct (newProduct (maxId st + 1) (formData pg)) w)")
     (auto simp: start_submit_def Let_def split: if_splits intro: backend_wf_client(2))

lemma start_delete_inv:
  "backend_wf (backend w) \<Longrightarrow> list_all task_ok ts \<Longrightarrow> start_delete st pg ts w = (st', pg', ts', w') \<Longrightarrow>
   backend_wf (backend w') \<and> st' = st \<and> list_all task_ok ts'"
  by (auto simp: start_delete_def split: option.splits prod.splits intro: backend_wf_client(3))

lemma resume_task_inv:
  "resume_task t st pg w = (st', pg', ts1, w') \<Longrightarrow> backend_wf (backend w) \<Longrightarrow> store_wf st \<Longrightarrow>
   task_ok t \<Longrightarrow> backend_wf (backend w') \<and> store_wf st' \<and> list_all task_ok ts1"
  by (induction t st pg w rule: resume_task.induct)
     (auto simp: slice_setProducts_def store_wf_def slice_deleteProduct_def distinct_map_filter
        split: prod.splits intro: backend_wf_client(1) dest: fetchProducts_task_ok)

lemma async_step_inv: "async_inv c \<Longrightarrow> async_inv (async_step e c)"
proof -
  assume inv: "async_inv c"
  obtain st pg ts w where c: "c = (st, pg, ts, w)" by (metis prod.exhaust)
  show ?thesis
  proof (cases e)
    case (Resume k)
    show ?thesis
    proof (cases "k < length ts")
      case True
      obtain st' pg' ts1 w' where r: "resume_task (ts ! k) st pg w = (st', pg', ts1, w')"
        by (metis prod.exhaust)
      have "task_ok (ts ! k)" using inv True c by (simp add: async_inv_def list_all_length)
      with resume_task_inv [OF r] inv c
      have "backend_wf (backend w') \<and> store_wf st' \<and> list_all task_ok ts1"
        by (simp add: async_inv_def)
      with inv c True r Resume show ?thesis
        by (auto simp: async_inv_def list_all_iff dest: in_set_takeD in_set_dropD)
    qed (use inv c Resume in \<open>simp\<close>)
  next
    case (UI u)
    have li: "list_inv (st, pg, w)" using inv c by (simp add: async_inv_def list_inv_def)
    show ?thesis
    proof (cases u)
      case Mount
      with inv c UI show ?thesis
        by (auto simp: async_inv_def split: prod.splits dest: start_load_inv)
    next
      case Submit
      with inv c UI show ?thesis
        by (auto simp: async_inv_def split: prod.splits dest: start_submit_inv)
    next
      case ConfirmDelete
      with inv c UI show ?thesis
        by (auto simp: async_inv_def split: prod.splits dest: start_delete_inv)
    qed (use inv c UI list_step_inv [OF li] in \<open>auto simp: async_inv_def list_inv_def split: prod.splits\<close>)
  qed
qed

lemma async_run_inv: "async_inv c \<Longrightarrow> async_inv (async_run es c)"
  by (induction es arbitrary: c) (simp_all add: async_step_inv)

text \<open>C6 (invariant): however the browser interleaves user events with the resumption of
  pending handlers, the store never holds two products with one id, so the rows' React keys
  stay unique, even though a late response may put back a deleted product (C39); and the
  backend stays well-formed.\<close>

theorem async_store_unique:
  assumes "backend_wf (backend w)" and "store_wf st"
  shows "let (st', pg', ts', w') = async_run es (st, pg, [], w)
         in store_wf st' \<and> backend_wf (backend w')"
proof -
  have "async_inv (st, pg, [], w)" using assms by (simp add: async_inv_def)
  then have "async_inv (async_run es (st, pg, [], w))" by (rule async_run_inv)
  then show ?thesis by (auto simp: async_inv_def split: prod.splits)
qed

lemma async_store_unique_witness:
  "let (st', pg', ts', w') = async_run [UI Submit, Resume 0, UI CloseAddModal, UI (OpenDelete 1),
         UI ConfirmDelete, Resume 1, Resume 0] ([demo_product\<lparr>pid := 1\<rparr>], demo_page, [], demo_world1)
   in store_wf st' \<and> backend_wf (backend w')"
proof -
  have "backend_wf (backend demo_world1)" by (simp add: demo_defs backend_wf_def)
  moreover have "store_wf [demo_product\<lparr>pid := 1\<rparr>]" by (simp add: store_wf_def)
  ultimately show ?thesis by (rule async_store_unique)
qed

end
