(* ===== verification/Async_Detail_Page.thy ===== *)
theory Async_Detail_Page
  imports Product_Detail_Page
begin

text \<open>The detail page's handlers with their \<open>await\<close>s as suspension points, in the style
  of \<open>Async_List_Page\<close>: a handler runs to its first \<open>await\<close> and leaves a pending task
  with the settled promise; \<open>DResume k\<close> runs the code after the \<open>await\<close> of the k-th
  pending task. The comment handlers update the list with functional updates
  (\<open>setComments(prev => ...)\<close>), which read the page as it is when they resume; the load
  replaces the list (\<open>setComments(commentsData)\<close>) and the add clears the input
  (\<open>setNewCommentText("")\<close>) whatever happened in between.\<close>

section \<open>Pending tasks\<close>

text \<open>The await points: \<open>loadProductAndComments\<close> at \<open>await fetchProductById(Number(id))\<close>
  (line 39, with the id it passes on to the second request) and at
  \<open>await fetchComments(Number(id))\<close> (line 42); \<open>handleUpdate\<close> at
  \<open>await updateProductApi\<close> (line 90); \<open>handleAddComment\<close> at \<open>await addCommentApi\<close>
  (line 109); \<open>handleDeleteComment\<close> at \<open>await deleteCommentApi\<close> (line 119), with the
  id it captured.\<close>

datatype DTask =
    ProductAwait "int option" "http_error + Product"
  | CommentsAwait "http_error + CommentModel list"
  | UpdateAwait "http_error + Product"
  | AddCommentAwait "http_error + CommentModel"
  | DeleteCommentAwait int "http_error + unit"

type_synonym async_detail_config = "ProductsState \<times> DetailPage \<times> DTask list \<times> world"

section \<open>Handlers up to their first await\<close>

definition d_start_load :: "DetailPage \<Rightarrow> DTask list \<Rightarrow> world \<Rightarrow> DTask list \<times> world" where
  "d_start_load pg ts w =
     (case route_id pg of
        None \<Rightarrow> (ts, w)
      | Some s \<Rightarrow>
          (if s = [] then (ts, w)
           else (let (r, w1) = fetchProductById (js_Number s) w in (ts @ [ProductAwait (js_Number s) r], w1))))"

definition d_start_update :: "DetailPage \<Rightarrow> DTask list \<Rightarrow> world \<Rightarrow> DTask list \<times> world" where
  "d_start_update pg ts w =
     (case product pg of
        None \<Rightarrow> (ts, w)
      | Some p \<Rightarrow> (let (r, w1) = updateProduct (pid p) (updatedData p (dformData pg)) w
                  in (ts @ [UpdateAwait r], w1)))"

definition d_start_add :: "string \<Rightarrow> DetailPage \<Rightarrow> DTask list \<Rightarrow> world \<Rightarrow> DTask list \<times> world" where
  "d_start_add now pg ts w =
     (if js_trim (newCommentText pg) = [] then (ts, w)
      else
        (case product pg of
           None \<Rightarrow> (ts, w)
         | Some p \<Rightarrow>
             (let newComment = \<lparr>draft_productId = pid p, draft_description = newCommentText pg,
                                draft_date = now\<rparr>;
                  (r, w1) = addComment newComment w
              in (ts @ [AddCommentAwait r], w1))))"

definition d_start_delete :: "int \<Rightarrow> DTask list \<Rightarrow> world \<Rightarrow> DTask list \<times> world" where
  "d_start_delete commentId ts w =
     (let (r, w1) = deleteComment commentId w in (ts @ [DeleteCommentAwait commentId r], w1))"

section \<open>The code after each await\<close>

fun d_resume ::
  "DTask \<Rightarrow> ProductsState \<Rightarrow> DetailPage \<Rightarrow> world \<Rightarrow> ProductsState \<times> DetailPage \<times> DTask list \<times> world" where
  "d_resume (ProductAwait j (Inr productData)) st pg w =
     (let (r, w1) = fetchComments j w in (st, pg\<lparr>product := Some productData\<rparr>, [CommentsAwait r], w1))"
| "d_resume (ProductAwait j (Inl _)) st pg w =
     (st, pg, [], console_error ''Failed to fetch product or comments:'' w)"
| "d_resume (CommentsAwait (Inr commentsData)) st pg w = (st, pg\<lparr>dcomments := commentsData\<rparr>, [], w)"
| "d_resume (CommentsAwait (Inl _)) st pg w =
     (st, pg, [], console_error ''Failed to fetch product or comments:'' w)"
| "d_resume (UpdateAwait (Inr updatedProductFromServer)) st pg w =
     (slice_updateProduct updatedProductFromServer st,
      pg\<lparr>product := Some updatedProductFromServer, isEditModalOpen := False\<rparr>, [], w)"
| "d_resume (UpdateAwait (Inl _)) st pg w = (st, pg, [], console_error ''Failed to update product:'' w)"
| "d_resume (AddCommentAwait (Inr addedComment)) st pg w =
     (st, pg\<lparr>dcomments := dcomments pg @ [addedComment], newCommentText := []\<rparr>, [], w)"
| "d_resume (AddCommentAwait (Inl _)) st pg w = (st, pg, [], console_error ''Failed to add comment:'' w)"
| "d_resume (DeleteCommentAwait i (Inr _)) st pg w =
     (st, pg\<lparr>dcomments := filter (\<lambda>c. cid c \<noteq> i) (dcomments pg)\<rparr>, [], w)"
| "d_resume (DeleteCommentAwait i (Inl _)) st pg w =
     (st, pg, [], console_error ''Failed to delete comment:'' w)"

section \<open>Events and schedules\<close>

datatype AsyncDetailEvent = DUI DetailEvent | DResume nat

fun d_async_step :: "AsyncDetailEvent \<Rightarrow> async_detail_config \<Rightarrow> async_detail_config" where
  "d_async_step (DUI DMount) (st, pg, ts, w) = (let (ts', w') = d_start_load pg ts w in (st, pg, ts', w'))"
| "d_async_step (DUI ConfirmUpdate) (st, pg, ts, w) =
     (if product pg \<noteq> None \<and> isEditModalOpen pg
      then (let (ts', w') = d_start_update pg ts w in (st, pg, ts', w')) else (st, pg, ts, w))"
| "d_async_step (DUI (AddCommentClick now)) (st, pg, ts, w) =
     (if product pg \<noteq> None
      then (let (ts', w') = d_start_add now pg ts w in (st, pg, ts', w')) else (st, pg, ts, w))"
| "d_async_step (DUI (DeleteCommentClick i)) (st, pg, ts, w) =
     (if product pg \<noteq> None \<and> list_ex (\<lambda>c. cid c = i) (dcomments pg)
      then (let (ts', w') = d_start_delete i ts w in (st, pg, ts', w')) else (st, pg, ts, w))"
| "d_async_step (DUI e) (st, pg, ts, w) = (let (st', pg', w') = detail_step e (st, pg, w) in (st', pg', ts, w'))"
| "d_async_step (DResume k) (st, pg, ts, w) =
     (if k < length ts
      then (let (st', pg', ts1, w') = d_resume (ts ! k) st pg w
            in (st', pg', take k ts @ drop (Suc k) ts @ ts1, w'))
      else (st, pg, ts, w))"

definition d_async_run :: "AsyncDetailEvent list \<Rightarrow> async_detail_config \<Rightarrow> async_detail_config" where
  "d_async_run es c = fold d_async_step es c"

text \<open>The sequential schedule: every user event is followed by resuming the oldest task
  twice, enough for the two awaits of the load.\<close>

definition d_sequential :: "DetailEvent list \<Rightarrow> AsyncDetailEvent list" where
  "d_sequential es = concat (map (\<lambda>e. [DUI e, DResume 0, DResume 0]) es)"

section \<open>Lemmas\<close>

lemma d_async_run_Cons [simp]: "d_async_run (e # es) c = d_async_run es (d_async_step e c)"
  by (simp add: d_async_run_def)

lemma d_async_run_Nil [simp]: "d_async_run [] c = c"
  by (simp add: d_async_run_def)

lemma d_async_run_append: "d_async_run (xs @ ys) c = d_async_run ys (d_async_run xs c)"
  by (simp add: d_async_run_def)

lemma d_sequential_Cons [simp]: "d_sequential (e # es) = [DUI e, DResume 0, DResume 0] @ d_sequential es"
  by (simp add: d_sequential_def)

lemma d_sequential_Nil [simp]: "d_sequential [] = []"
  by (simp add: d_sequential_def)

lemma d_sequential_step:
  "d_async_run [DUI e, DResume 0, DResume 0] (st, pg, [], w) =
     (let (st', pg', w') = detail_step e (st, pg, w) in (st', pg', [], w'))"
  by (cases e)
     (auto simp: d_start_load_def d_start_update_def d_start_add_def d_start_delete_def
        loadProductAndComments_def handleUpdate_def handleAddComment_def handleDeleteComment_def
        Let_def split: prod.splits sum.splits option.splits)

text \<open>The atomic model of the detail page is the sequential schedule of
  the asynchronous one: when each user event's tasks are resumed before the next user event,
  every run ends in the state \<open>detail_run\<close> computes, with no task pending. The results
  C20--C30 of the atomic model hold of that schedule.\<close>

theorem d_sequential_refines_atomic:
  "d_async_run (d_sequential es) (st, pg, [], w) =
     (let (st', pg', w') = detail_run es (st, pg, w) in (st', pg', [], w'))"
proof (induction es arbitrary: st pg w)
  case Nil
  then show ?case by simp
next
  case (Cons e es)
  obtain st1 pg1 w1 where s: "detail_step e (st, pg, w) = (st1, pg1, w1)" by (metis prod.exhaust)
  have "d_async_run [DUI e, DResume 0, DResume 0] (st, pg, [], w) = (st1, pg1, [], w1)"
    using d_sequential_step [of e st pg w] s by simp
  then have "d_async_run (d_sequential (e # es)) (st, pg, [], w) = d_async_run (d_sequential es) (st1, pg1, [], w1)"
    by (simp only: d_sequential_Cons d_async_run_append)
  with Cons.IH [of st1 pg1 w1] s show ?case by simp
qed

text \<open>C25 (error): a comment added while the comment list is still loading vanishes from the
  page. The product arrives first and the page renders; the user posts a comment, which the
  server stores and the page appends; then the comments response, computed before the post,
  resolves and \<open>setComments(commentsData)\<close> replaces the list. On a reliable network the
  server has the comment and the page does not show it.\<close>

theorem comment_added_while_loading_vanishes:
  assumes wf: "backend_wf (backend w)" and ff: "fault_free w"
    and r: "route_id pg = Some s" "s \<noteq> []" "js_Number s = Some i"
    and p: "find (\<lambda>q. Some (pid q) = Some i) (products_db (backend w)) = Some p"
    and t: "js_trim t \<noteq> []"
    and run: "d_async_run [DUI DMount, DResume 0, DUI (CommentTextChange t), DUI (AddCommentClick now),
        DResume 1, DResume 0] (st, pg, [], w) = (st', pg', ts', w')"
  shows "\<lparr>cid = next_comment_id (backend w), productId = i, description = t, date = now\<rparr>
      \<in> set (comments_db (backend w')) \<and>
    \<lparr>cid = next_comment_id (backend w), productId = i, description = t, date = now\<rparr>
      \<notin> set (dcomments pg') \<and>
    product pg' = Some p \<and> ts' = []"
proof -
  let ?c = "\<lparr>cid = next_comment_id (backend w), productId = i, description = t, date = now\<rparr>"
  have fresh: "?c \<notin> set (comments_db (backend w))"
    using wf by (auto simp: backend_wf_def)
  have pi: "pid p = i" using find_SomeD [OF p] by simp
  from ff r p t run pi
  have "comments_db (backend w') = comments_db (backend w) @ [?c] \<and>
      dcomments pg' = filter (\<lambda>c. Some (productId c) = Some i) (comments_db (backend w)) \<and>
      product pg' = Some p \<and> ts' = []"
    by (simp add: d_start_load_def d_start_add_def client_defs call_fault_free fault_free_def list_all_tl
        srv_get_product_def srv_list_comments_def srv_create_comment_def Let_def) auto
  with fresh show ?thesis by auto
qed

lemma comment_added_while_loading_vanishes_witness:
  "\<exists>st' pg' ts' w'. d_async_run [DUI DMount, DResume 0, DUI (CommentTextChange ''hi''),
      DUI (AddCommentClick ''2/1/2025''), DResume 1, DResume 0]
      ([], initial_DetailPage (Some ''1''), [], demo_world2) = (st', pg', ts', w') \<and>
    \<lparr>cid = 2, productId = 1, description = ''hi'', date = ''2/1/2025''\<rparr> \<in> set (comments_db (backend w')) \<and>
    \<lparr>cid = 2, productId = 1, description = ''hi'', date = ''2/1/2025''\<rparr> \<notin> set (dcomments pg')"
proof -
  obtain st' pg' ts' w' where run: "d_async_run [DUI DMount, DResume 0, DUI (CommentTextChange ''hi''),
      DUI (AddCommentClick ''2/1/2025''), DResume 1, DResume 0]
      ([], initial_DetailPage (Some ''1''), [], demo_world2) = (st', pg', ts', w')" by (metis prod.exhaust)
  have num: "js_Number ''1'' = Some 1"
    by (simp add: js_Number_def js_trim_def decimal_literal_def is_js_space_def is_digit_def
        digits_val_def digit_val_def)
  have "\<lparr>cid = next_comment_id (backend demo_world2), productId = 1, description = ''hi'', date = ''2/1/2025''\<rparr>
      \<in> set (comments_db (backend w')) \<and>
    \<lparr>cid = next_comment_id (backend demo_world2), productId = 1, description = ''hi'', date = ''2/1/2025''\<rparr>
      \<notin> set (dcomments pg') \<and>
    product pg' = Some (demo_product\<lparr>pid := 1\<rparr>) \<and> ts' = []"
    by (rule comment_added_while_loading_vanishes [OF _ _ _ _ num _ _ run])
       (simp_all add: backend_wf_def fault_free_def initial_DetailPage_def demo_world2_def demo_defs
        demo_comment_def js_trim_def is_js_space_def)
  with run show ?thesis by (simp add: demo_world2_def demo_defs)
qed

text \<open>C7 (error): text typed while a comment is being posted is lost. The handler clears
  the input when the post resolves (\<open>setNewCommentText("")\<close>), not only the text it sent,
  so whatever the user typed in between disappears.\<close>

theorem typing_during_post_is_lost:
  assumes ff: "fault_free w" and p: "product pg = Some p" and t: "js_trim (newCommentText pg) \<noteq> []"
    and run: "d_async_run [DUI (AddCommentClick now), DUI (CommentTextChange typed), DResume 0]
        (st, pg, [], w) = (st', pg', ts', w')"
  shows "newCommentText pg' = [] \<and>
    dcomments pg' = dcomments pg @ [\<lparr>cid = next_comment_id (backend w), productId = pid p,
      description = newCommentText pg, date = now\<rparr>]"
  using assms
  by (simp add: d_start_add_def client_defs call_fault_free srv_create_comment_def Let_def) auto

lemma typing_during_post_is_lost_witness:
  "\<exists>st' pg' ts' w'. d_async_run [DUI (AddCommentClick ''2/1/2025''), DUI (CommentTextChange ''more''), DResume 0]
      ([], demo_detail\<lparr>newCommentText := ''nice''\<rparr>, [], demo_world2) = (st', pg', ts', w') \<and>
    newCommentText pg' = []"
proof -
  obtain st' pg' ts' w' where run: "d_async_run [DUI (AddCommentClick ''2/1/2025''), DUI (CommentTextChange ''more''), DResume 0]
      ([], demo_detail\<lparr>newCommentText := ''nice''\<rparr>, [], demo_world2) = (st', pg', ts', w')"
    by (metis prod.exhaust)
  have "newCommentText pg' = [] \<and>
    dcomments pg' = dcomments (demo_detail\<lparr>newCommentText := ''nice''\<rparr>) @
      [\<lparr>cid = next_comment_id (backend demo_world2), productId = pid (demo_product\<lparr>pid := 1\<rparr>),
        description = newCommentText (demo_detail\<lparr>newCommentText := ''nice''\<rparr>), date = ''2/1/2025''\<rparr>]"
    by (rule typing_during_post_is_lost [OF _ _ _ run])
       (simp_all add: fault_free_def demo_world2_def demo_defs demo_detail_def js_trim_def is_js_space_def)
  with run show ?thesis by blast
qed

end
