(* ===== verification/Http_Transport.thy ===== *)
theory Http_Transport
  imports Product_Service
begin

text \<open>The HTTP layer of \<open>ProductService.ts\<close>: the method and the URL of the axios call each
  client function makes, and the routing of the json REST server that answers them. The
  client prints ids into URLs with template literals (\<open>`${baseUrl}/${id}`\<close>); the
  server reads them back. The round trip shows that the pairing of a request with its
  endpoint in \<open>call\<close> is the one the URLs produce, including the \<open>NaN\<close> id that
  \<open>Number\<close> yields for a malformed route.\<close>

section \<open>Requests as the client sends them\<close>

datatype http_method = HttpGet | HttpPost | HttpPatch | HttpDelete

definition baseUrl :: string where
  "baseUrl = ''http://localhost:3001/products''"

definition commentsUrl :: string where
  "commentsUrl = ''http://localhost:3001/comments''"

text \<open>A JavaScript number in a template literal: its decimal form, or \<open>NaN\<close>.\<close>

fun js_template_number :: "int option \<Rightarrow> string" where
  "js_template_number None = ''NaN''"
| "js_template_number (Some n) = js_String n"

fun http_of :: "request \<Rightarrow> http_method \<times> string" where
  "http_of GetProducts = (HttpGet, baseUrl)"
| "http_of (GetProduct i) = (HttpGet, baseUrl @ ''/'' @ js_template_number i)"
| "http_of (PostProduct p) = (HttpPost, baseUrl)"
| "http_of (DeleteProduct i) = (HttpDelete, baseUrl @ ''/'' @ js_String i)"
| "http_of (PatchProduct i q) = (HttpPatch, baseUrl @ ''/'' @ js_String i)"
| "http_of (GetComments i) = (HttpGet, commentsUrl @ ''?productId='' @ js_template_number i)"
| "http_of (PostComment d) = (HttpPost, commentsUrl)"
| "http_of (DeleteComment i) = (HttpDelete, commentsUrl @ ''/'' @ js_String i)"

section \<open>Routing on the server\<close>

datatype route =
    ProductsRoute
  | ProductRoute "int option"
  | CommentsRoute
  | CommentsOfRoute "int option"
  | CommentRoute "int option"
  | NoRoute

definition strip_prefix :: "string \<Rightarrow> string \<Rightarrow> string option" where
  "strip_prefix p s = (if take (length p) s = p then Some (drop (length p) s) else None)"

text \<open>The server's routes: the collections, one record by id, and the comments filtered
  by \<open>productId\<close>. An id segment is read as a number; one that is not a number
  (\<open>NaN\<close>) names no record.\<close>

definition server_route :: "string \<Rightarrow> route" where
  "server_route u =
     (case strip_prefix ''http://localhost:3001/'' u of
        None \<Rightarrow> NoRoute
      | Some path \<Rightarrow>
          (if path = ''products'' then ProductsRoute
           else if path = ''comments'' then CommentsRoute
           else (case strip_prefix ''products/'' path of
                   Some v \<Rightarrow> ProductRoute (js_Number v)
                 | None \<Rightarrow>
                     (case strip_prefix ''comments?productId='' path of
                        Some v \<Rightarrow> CommentsOfRoute (js_Number v)
                      | None \<Rightarrow>
                          (case strip_prefix ''comments/'' path of
                             Some v \<Rightarrow> CommentRoute (js_Number v)
                           | None \<Rightarrow> NoRoute)))))"

text \<open>The resource each request of the model is meant for (specification section 6).\<close>

fun request_route :: "request \<Rightarrow> http_method \<times> route" where
  "request_route GetProducts = (HttpGet, ProductsRoute)"
| "request_route (GetProduct i) = (HttpGet, ProductRoute i)"
| "request_route (PostProduct p) = (HttpPost, ProductsRoute)"
| "request_route (DeleteProduct i) = (HttpDelete, ProductRoute (Some i))"
| "request_route (PatchProduct i q) = (HttpPatch, ProductRoute (Some i))"
| "request_route (GetComments i) = (HttpGet, CommentsOfRoute i)"
| "request_route (PostComment d) = (HttpPost, CommentsRoute)"
| "request_route (DeleteComment i) = (HttpDelete, CommentRoute (Some i))"

section \<open>Lemmas\<close>

lemma js_Number_NaN [simp]: "js_Number ''NaN'' = None"
  by (simp add: js_Number_def js_trim_def is_js_space_def decimal_literal_def is_digit_def)

lemma js_Number_template [simp]: "js_Number (js_template_number i) = i"
  by (cases i) (simp_all add: js_Number_js_String)

text \<open>C17 (roundtrip): every URL the client builds is routed by the server to the
  resource and the id its request names, with the method of the axios call: the
  products collection, one product (a \<open>NaN\<close> id naming none), the comments collection,
  the comments of one product, or one comment.\<close>

theorem http_route_roundtrip:
  "(fst (http_of rq), server_route (snd (http_of rq))) = request_route rq"
  by (cases rq)
     (simp_all add: server_route_def baseUrl_def commentsUrl_def strip_prefix_def js_Number_js_String)

end
