(* ===== verification/Page_Views.thy ===== *)
theory Page_Views
  imports Product_List_Page Product_Detail_Page
begin

text \<open>What the two pages render, as values: the JSX of \<open>ProductListPage\<close> (the sorted
  list, lines 174--213) and of \<open>ProductDetailPage\<close> (lines 126--266), without styles. Text
  nodes are the strings React prints; numbers are printed by \<open>js_String\<close>. The keys of
  the list items are the ids React uses to match items between renders
  (\<open>key={product.id}\<close>, \<open>key={comment.id}\<close>).\<close>

section \<open>The list page\<close>

record ListItem =
  item_key :: int
  item_label :: string
  item_link :: string

datatype ListView = NoProductsView | ProductListView "ListItem list"

definition list_view :: "ProductsState \<Rightarrow> ListPage \<Rightarrow> ListView" where
  "list_view products pg =
     (let ps = sortedProducts products (sortType pg)
      in if ps = [] then NoProductsView
         else ProductListView
           (map (\<lambda>p. \<lparr>item_key = pid p, item_label = name p @ '' (Count: '' @ js_String (pcount p) @ '')'',
                      item_link = product_link p\<rparr>) ps))"

section \<open>The detail page\<close>

record CommentRow =
  row_key :: int
  row_text :: string
  row_date :: string

datatype CommentsSection = NoCommentsYet | CommentRows "CommentRow list"

record ProductPanel =
  title :: string
  image_src :: string
  image_alt :: string
  count_text :: string
  size_text :: string
  weight_text :: string
  comments_section :: CommentsSection
  edit_modal_open :: bool
  comment_input :: string

datatype DetailView = LoadingView | ProductPanelView ProductPanel

definition detail_view :: "DetailPage \<Rightarrow> DetailView" where
  "detail_view pg =
     (case product pg of
        None \<Rightarrow> LoadingView
      | Some p \<Rightarrow> ProductPanelView
          \<lparr>title = name p, image_src = imageUrl p, image_alt = name p, count_text = js_String (pcount p),
           size_text = js_String (width (psize p)) @ '' x '' @ js_String (height (psize p)),
           weight_text = weight p,
           comments_section =
             (if dcomments pg = [] then NoCommentsYet
              else CommentRows (map (\<lambda>c. \<lparr>row_key = cid c, row_text = description c, row_date = date c\<rparr>)
                     (dcomments pg))),
           edit_modal_open = isEditModalOpen pg, comment_input = newCommentText pg\<rparr>)"

section \<open>Unique keys\<close>

definition list_keys_unique :: "ListView \<Rightarrow> bool" where
  "list_keys_unique v = (case v of NoProductsView \<Rightarrow> True | ProductListView items \<Rightarrow> distinct (map item_key items))"

definition detail_keys_unique :: "DetailView \<Rightarrow> bool" where
  "detail_keys_unique v =
     (case v of
        LoadingView \<Rightarrow> True
      | ProductPanelView pn \<Rightarrow>
          (case comments_section pn of NoCommentsYet \<Rightarrow> True | CommentRows rs \<Rightarrow> distinct (map row_key rs)))"

section \<open>Lemmas\<close>

lemma distinct_pid_sortedProducts: "distinct (map pid (sortedProducts st t)) = distinct (map pid st)"
proof -
  have "mset (map pid (sortedProducts st t)) = mset (map pid st)" by (simp add: mset_sortedProducts)
  then show ?thesis by (rule mset_eq_imp_distinct_iff)
qed

lemma list_view_keys: "store_wf st \<Longrightarrow> list_keys_unique (list_view st pg)"
  by (simp add: list_view_def list_keys_unique_def store_wf_def o_def distinct_pid_sortedProducts Let_def)

lemma detail_view_keys: "detail_inv (st, pg, w) \<Longrightarrow> detail_keys_unique (detail_view pg)"
  by (auto simp: detail_view_def detail_keys_unique_def detail_inv_def o_def split: option.splits)

end
