(* ===== verification/Spec2Isabelle.thy ===== *)
theory Spec2Isabelle
  imports Product_List_Page Product_Detail_Page Async_List_Page Async_Detail_Page Http_Transport Page_Views
begin

text \<open>
  \<^bold>\<open>ShopApp: a verification development.\<close>

  ShopApp is a React/Redux catalogue manager. Its parts, as they appear under \<open>src/src\<close>:
  \<^item> \<open>types/product.ts\<close>: the records \<open>Product\<close>, \<open>Size\<close> and \<open>CommentModel\<close>
    (theory \<open>Product_Types\<close>, with the page forms and the \<open>ProductPatch\<close> bodies).
  \<^item> \<open>features/products/ProductService.ts\<close>: eight thin wrappers over axios, one per REST
    call of a json-server backend (theory \<open>Product_Service\<close>: \<open>fetchProducts\<close>,
    \<open>addProduct\<close>, \<open>deleteProduct\<close>, \<open>updateProduct\<close>, \<open>fetchProductById\<close>,
    \<open>fetchComments\<close>, \<open>addComment\<close>, \<open>deleteComment\<close>).
  \<^item> \<open>pages/ProductListPage.tsx\<close>: the catalogue with its add and delete modals and the
    sort selector (theory \<open>Product_List_Page\<close>).
  \<^item> \<open>pages/ProductDetailPage.tsx\<close>: one product, its comments and the edit modal
    (theory \<open>Product_Detail_Page\<close>).
  The Redux \<open>productSlice\<close>, the REST server and the router are imported by these files
  but are not part of \<open>src/src\<close>; they are modelled from the specification
  (theories \<open>Product_Slice\<close>, \<open>Backend\<close>, and \<open>route_param\<close> below).

  \<^bold>\<open>How the code is modelled.\<close>
  \<^item> \<open>Prelude\<close>: named theorem collections and generic lemmas on lists keyed by an id
    (\<open>replace_key\<close>, \<open>key_free\<close>, \<open>find\<close>, \<open>fold max\<close>).
  \<^item> \<open>Js_Builtins\<close>: the JavaScript built-ins the pages call, on the integer subset:
    \<open>Number(s)\<close> as \<open>js_Number\<close> (trim, optional sign, decimal digits; \<open>None\<close> for
    \<open>NaN\<close>), \<open>String(n)\<close> as \<open>js_String\<close>, \<open>trim\<close> (the JavaScript white space
    and line terminators of the Latin-1 range, U+00A0 included), \<open>localeCompare\<close> as
    the Unicode root collation on ASCII (\<open>collation_key\<close>: punctuation, then digits,
    then letters, case ignored at the primary level and lower case first at the tertiary
    level, control characters ignorable), \<open>Math.max\<close>, and \<open>Array.prototype.sort\<close> as
    a stable insertion sort (\<open>array_sort\<close>), proved equal to the library's
    \<open>sort_key\<close>. HOL characters are 8-bit: strings are Latin-1 code points.
  \<^item> \<open>Backend\<close>: the json-server collections \<open>products\<close> and \<open>comments\<close> with
    server-assigned ids, 404 for unknown ids and \<open>PATCH\<close> as a merge that keeps the id.
  \<^item> \<open>Product_Service\<close>: the world a page acts on (\<open>world\<close>: the backend, a network
    script, the request log, the console and the alerts). \<open>call\<close> models one axios
    request. It pops one delivery outcome from the script: Delivered, Dropped (the request
    never reaches the server), or ResponseLost (the server applies it, the client sees an
    error). A rejected promise is \<open>Inl\<close>.
  \<^item> \<open>Http_Transport\<close>: the method and URL of each axios call (\<open>http_of\<close>, printed
    with template literals, \<open>NaN\<close> ids included) and the routing of the REST server
    (\<open>server_route\<close>, modelled from the specification).
  \<^item> \<open>Page_Views\<close>: what each page renders, as values (\<open>list_view\<close>, \<open>detail_view\<close>):
    texts, links, React keys, the Loading and empty states, the modal flag and the input.
  \<^item> \<open>Product_Slice\<close>: the reducers \<open>setProducts\<close>, \<open>addProduct\<close>,
    \<open>deleteProduct\<close> and \<open>updateProduct\<close> over the store's \<open>Product list\<close>.
  \<^item> \<open>Product_List_Page\<close> and \<open>Product_Detail_Page\<close>: each page's \<open>useState\<close>
    cells are a record, each handler a definition of the same name, and each user action a
    constructor of an event type. \<open>list_step\<close> and \<open>detail_step\<close> dispatch an event to
    its handler, with the guards the rendering imposes: a modal's buttons exist only while it
    is open; the detail page renders only Loading until a product is set. An \<open>async\<close>
    handler runs to completion in one step: its awaits are sequenced inside the definition,
    in the order of the code.
  \<^item> \<open>Async_List_Page\<close> and \<open>Async_Detail_Page\<close>: the two pages with their awaits
    as suspension points. A handler
    runs to its first \<open>await\<close>, sends the request and leaves a pending \<open>Task\<close> holding
    the settled promise; a \<open>Resume k\<close> event runs the code after the \<open>await\<close> of the
    k-th pending task (\<open>resume_task\<close>, \<open>d_resume\<close>). User events and resumptions interleave freely.
    The server acts on a request when it is sent, so responses can be handled out of order,
    but the server sees requests in the order they are sent.
  \<^item> This theory composes the two pages into one application. \<open>app_step\<close> dispatches
    to the shown page; a click on a list row follows the row's link through the router
    (\<open>route_param\<close> of \<open>/product/:id\<close>) and mounts the detail page; Back
    (\<open>navigate(-1)\<close>) remounts the list page, whose mount effect re-fetches the catalogue.

  \<^bold>\<open>What is proved.\<close> Claims are grouped by component; their ids are in the
  order of the manifest.
  \<^item> Service (C1--C4): create, delete and update are seen by the next read. One client
    call sends exactly one request. (That every call keeps the server well-formed, and the
    effects of lost and dropped requests, are lemmas of \<open>Product_Service\<close>.)
  \<^item> Sorting by name (C5): for names of ASCII letters the list sorted by
    \<open>localeCompare\<close> is in the order of the lower-case names, as a browser shows it.
  \<^item> List page (C8--C16): validation of the add form and the success path of submit. The
    client-computed id is fresh. Re-submitting after a failed re-fetch creates a duplicate
    (a finding). The delete path is checked. The invariant holds over every event run. The
    store refines the server on a reliable network, and diverges from it after a lost
    DELETE response, for any listed product. The comparator sort equals \<open>sort_key\<close>; that it is a stable
    sorted permutation and idempotent are lemmas of \<open>Product_List_Page\<close>.
  \<^item> Transport and rendering (C17--C18): every URL the client builds is routed by the
    server to the resource and id its request names, a \<open>NaN\<close> id naming none. In every
    reachable configuration the rendered screen gives React unique keys.
  \<^item> Detail page (C20--C24, C26--C30): loading succeeds. A failed load stays in Loading for
    ever: the specification's Failed state is missing. A half-failed load shows the product
    without comments. Comment add and delete are checked, including the blank-text guard.
    Update replaces the product in place. The edit form is not validated. Ready is stable.
    The page invariant holds over every run.
  \<^item> Application (C31--C35): the link route reads back as the product id. Following a link
    shows that product with its comments. The store refines the server over every run of the
    whole application on a reliable network. An inductive reachability relation carries the
    application invariant. Back re-synchronises the store.
  \<^item> Liveness and type (C36--C37): while the route names a product the server has,
    reloading the detail page reaches Ready after at most one more reload than the faults
    left in the network script. In every reachable configuration the route parameter reads
    as an integer: \<open>Number(id)\<close> is never NaN.
  \<^item> Interleaving on the list page (C6, C38, C39, C19): under every interleaving of user
    events and resumptions the store keeps unique ids and the server stays well-formed (an
    invariant that also bounds what the races below can do). Two Submit clicks before the
    first response create two products. A re-fetch that resolves after the delete of a
    listed product puts it back into the store on a reliable network. The event
    loop that resumes pending tasks always stops (\<open>settle\<close>, a \<open>while_option\<close>
    whose measure is the number of awaits still to pass). A lemma of
    \<open>Async_List_Page\<close> shows that the sequential schedule of the asynchronous page is
    exactly the atomic model, so C8--C15 hold of it.
  \<^item> Interleaving on the detail page (C7, C25): a lemma of \<open>Async_Detail_Page\<close> shows
    that the sequential schedule of the asynchronous detail page is exactly the atomic model,
    so C20--C30 hold of it. Text
    typed while a comment is posted is cleared when the post resolves. A comment posted
    while the comments request is pending vanishes from the page when the older list
    arrives.

  \<^bold>\<open>Fuel and termination.\<close>
  No handler loops: all recursion is structural (digit lists, insertion sort, list folds
  over events), so every definition is total. The network script plays the role of fuel
  for faults: an exhausted script means every further request is delivered. A failed load
  consumes at least one outcome of the script, which bounds the reloads of C36. The
  sequential schedule resumes twice per user event, which is enough: no handler has more
  than two awaits. The event loop \<open>settle\<close> is a \<open>while_option\<close>, not fuel: C19
  proves it returns \<open>Some\<close> for every configuration. A fault-free
  world (\<open>fault_free\<close>) is a script of Delivered outcomes only.

  \<^bold>\<open>Not modelled.\<close>
  \<^item> Styles and layout of the JSX, and the placeholders and labels of inputs and buttons.
  \<^item> The Modal component and the router beyond the \<open>/product/:id\<close> pattern.
  \<^item> The Redux store wiring (\<open>useDispatch\<close>, \<open>useSelector\<close>, the thunks).
  \<^item> Collation beyond ASCII and locale tailorings: \<open>localeCompare\<close> is the root
    collation on ASCII; the Latin-1 characters above U+007F (accented letters among them)
    are ordered after all ASCII by code point, and code points above U+00FF cannot be
    written. Trimming of white space above U+00FF (U+FEFF, U+2028, U+3000, ...) is
    outside the model for the same reason.
  \<^item> Non-integer and exponent forms of \<open>Number\<close>.
  \<^item> Interleaving across the two pages and responses that arrive after unmount
    (specification section 9): each page has its own asynchronous model, and the
    application composes the atomic ones. React drops state updates of an unmounted page. Within the application the detail page is left only
    through Back, which appears once the product is set, so the only late response is the
    comments list of an unmounted page, which React ignores.
  \<^item> Reordering of requests in transit: the server applies requests in the order they
    are sent.
  \<^item> Argument-count limits of \<open>Math.max\<close>, and cascading deletes of comments on the
    server.
\<close>

section \<open>The application: two pages, one store, one router\<close>

text \<open>The router's pattern \<open>/product/:id\<close>: the parameter is the non-empty segment after
  the prefix.\<close>

definition route_param :: "string \<Rightarrow> string option" where
  "route_param path =
     (if take 9 path = ''/product/'' \<and> drop 9 path \<noteq> [] \<and> CHR ''/'' \<notin> set (drop 9 path)
      then Some (drop 9 path) else None)"

datatype Screen = ListScreen ListPage | DetailScreen DetailPage

datatype AppEvent = OnList ListEvent | OnDetail DetailEvent | FollowLink nat | GoBack

type_synonym app_config = "ProductsState \<times> Screen \<times> world"

fun app_step :: "AppEvent \<Rightarrow> app_config \<Rightarrow> app_config" where
  "app_step (OnList e) (st, ListScreen pg, w) =
     (let (st', pg', w') = list_step e (st, pg, w) in (st', ListScreen pg', w'))"
| "app_step (OnDetail e) (st, DetailScreen pg, w) =
     (let (st', pg', w') = detail_step e (st, pg, w) in (st', DetailScreen pg', w'))"
| "app_step (FollowLink k) (st, ListScreen pg, w) =
     (let rows = product_rows st (sortType pg) in
      if k < length rows then
        (case route_param (snd (snd (rows ! k))) of
           None \<Rightarrow> (st, ListScreen pg, w)
         | Some r \<Rightarrow>
             (let (st', pg', w') = detail_step DMount (st, initial_DetailPage (Some r), w)
              in (st', DetailScreen pg', w')))
      else (st, ListScreen pg, w))"
| "app_step GoBack (st, DetailScreen pg, w) =
     (if product pg = None then (st, DetailScreen pg, w)
      else (let (st', pg', w') = list_step Mount (st, initial_ListPage, w) in (st', ListScreen pg', w')))"
| "app_step e c = c"

definition app_run :: "AppEvent list \<Rightarrow> app_config \<Rightarrow> app_config" where
  "app_run es c = fold app_step es c"

definition app_inv :: "app_config \<Rightarrow> bool" where
  "app_inv c \<longleftrightarrow> (case c of (st, scr, w) \<Rightarrow>
     list_inv (st, initial_ListPage, w) \<and>
     (case scr of ListScreen pg \<Rightarrow> True | DetailScreen pg \<Rightarrow> detail_inv (st, pg, w)))"

inductive app_reachable :: "app_config \<Rightarrow> bool" where
  start: "backend_wf (backend w) \<Longrightarrow> app_reachable ([], ListScreen initial_ListPage, w)"
| step: "app_reachable c \<Longrightarrow> app_reachable (app_step e c)"

text \<open>The route parameter of a shown detail page is a string \<open>Number\<close> reads as an
  integer (executable form of the type property C37).\<close>

definition route_valid :: "Screen \<Rightarrow> bool" where
  "route_valid scr = (case scr of ListScreen _ \<Rightarrow> True
     | DetailScreen pg \<Rightarrow> (case route_id pg of None \<Rightarrow> False | Some s \<Rightarrow> s \<noteq> [] \<and> js_Number s \<noteq> None))"

text \<open>The shown screen renders unique React keys: the product ids of the list items, or
  the comment ids of the detail page's comment rows.\<close>

definition screen_keys_unique :: "app_config \<Rightarrow> bool" where
  "screen_keys_unique c =
     (case c of
        (st, ListScreen pg, w) \<Rightarrow> list_keys_unique (list_view st pg)
      | (st, DetailScreen pg, w) \<Rightarrow> detail_keys_unique (detail_view pg))"

section \<open>Lemmas\<close>

lemma app_run_Cons [simp]: "app_run (e # es) c = app_run es (app_step e c)"
  by (simp add: app_run_def)

lemma app_run_Nil [simp]: "app_run [] c = c"
  by (simp add: app_run_def)

lemma route_param_product_link: "route_param (product_link p) = Some (js_String (pid p))"
proof -
  have "CHR ''/'' \<notin> set (js_String (pid p))"
    using nat_digits_props [of "nat (pid p)"] nat_digits_props [of "nat (- pid p)"]
    by (auto simp: js_String_def list_all_iff is_digit_def less_eq_char_def)
  then show ?thesis by (simp add: route_param_def product_link_def)
qed

lemma detail_step_store_wf: "store_wf st \<Longrightarrow> store_wf (fst (detail_step e (st, pg, w)))"
  by (cases e) (auto simp: handleUpdate_def store_wf_updateProduct split: prod.splits sum.splits option.splits)

lemma list_inv_page: "list_inv (st, pg, w) = list_inv (st, pg', w)"
  by (simp add: list_inv_def)

lemma detail_inv_initial: "backend_wf (backend w) \<Longrightarrow> detail_inv (st, initial_DetailPage r, w)"
  by (simp add: detail_inv_def initial_DetailPage_def)

lemma detail_inv_backend_wf: "detail_inv (st, pg, w) \<Longrightarrow> backend_wf (backend w)"
  by (simp add: detail_inv_def)

lemma app_step_inv: "app_inv c \<Longrightarrow> app_inv (app_step e c)"
proof -
  obtain st scr w where c: "c = (st, scr, w)" by (metis prod.exhaust)
  assume inv: "app_inv c"
  then have li: "list_inv (st, pg, w)" for pg using c list_inv_page by (auto simp: app_inv_def)
  show ?thesis
  proof (cases scr)
    case (ListScreen pg)
    show ?thesis
    proof (cases e)
      case (OnList e')
      obtain st' pg' w' where r: "list_step e' (st, pg, w) = (st', pg', w')" by (metis prod.exhaust)
      from list_step_inv [OF li [of pg], of e'] r have "list_inv (st', initial_ListPage, w')"
        by (simp add: list_inv_def)
      with OnList ListScreen c r show ?thesis by (simp add: app_inv_def)
    next
      case (FollowLink k)
      have di: "detail_inv (st, initial_DetailPage r, w)" for r
        using li by (intro detail_inv_initial) (simp add: list_inv_def)
      have "app_inv (case detail_step DMount (st, initial_DetailPage r, w) of
              (st', pg', w') \<Rightarrow> (st', DetailScreen pg', w'))" for r
      proof -
        obtain st' pg' w' where r: "detail_step DMount (st, initial_DetailPage r, w) = (st', pg', w')"
          by (metis prod.exhaust)
        have "detail_inv (st', pg', w')" using detail_step_inv [OF di [of r], of DMount] r by simp
        moreover have "st' = st" using r by (auto split: prod.splits)
        ultimately show ?thesis using li r by (simp add: app_inv_def list_inv_def detail_inv_def)
      qed
      with FollowLink ListScreen c inv show ?thesis
        by (auto simp: Let_def split: option.splits)
    qed (use inv c ListScreen in auto)
  next
    case (DetailScreen pg)
    have di: "detail_inv (st, pg, w)" using inv c DetailScreen by (simp add: app_inv_def)
    show ?thesis
    proof (cases e)
      case (OnDetail e')
      obtain st' pg' w' where r: "detail_step e' (st, pg, w) = (st', pg', w')" by (metis prod.exhaust)
      have "store_wf st" using li by (simp add: list_inv_def)
      from detail_step_store_wf [OF this, of e' pg w] r have "store_wf st'" by simp
      moreover from detail_step_inv [OF di, of e'] r have "detail_inv (st', pg', w')" by simp
      ultimately show ?thesis using OnDetail DetailScreen c r
        by (simp add: app_inv_def list_inv_def detail_inv_def)
    next
      case GoBack
      obtain st' pg' w' where r: "list_step Mount (st, initial_ListPage, w) = (st', pg', w')"
        by (metis prod.exhaust)
      from list_step_inv [OF li [of initial_ListPage], of Mount] r
      have "list_inv (st', initial_ListPage, w')" by (simp add: list_inv_def)
      with GoBack DetailScreen c r inv show ?thesis by (simp add: app_inv_def)
    qed (use inv c DetailScreen in auto)
  qed
qed

lemma list_step_mirror_result:
  "list_step e (st, pg, w) = (st', pg', w') \<Longrightarrow> fault_free w \<Longrightarrow> st = products_db (backend w) \<Longrightarrow>
   fault_free w' \<and> st' = products_db (backend w')"
  using list_step_mirror [of w st e pg] by simp

lemma app_step_mirror:
  assumes ff: "fault_free w" and m: "st = products_db (backend w)"
    and s: "app_step e (st, scr, w) = (st', scr', w')"
  shows "fault_free w' \<and> st' = products_db (backend w')"
proof -
  have lm: "fault_free w1 \<and> st1 = products_db (backend w1)"
    if "list_step e' (st, pg, w) = (st1, pg1, w1)" for e' pg st1 pg1 w1
    using list_step_mirror_result [OF that ff m] .
  have dm: "fault_free w1 \<and> st1 = products_db (backend w1)"
    if "detail_step e' (st, pg, w) = (st1, pg1, w1)" for e' pg st1 pg1 w1
    using detail_step_mirror [OF ff m that] .
  show ?thesis
  proof (cases scr)
    case (ListScreen pg)
    then show ?thesis using s
      apply (cases e)
         apply (auto simp: Let_def m [symmetric] split: prod.splits option.splits if_splits
          dest: lm dm load_mirror [OF _ ff])
      using ff m by auto
  next
    case (DetailScreen pg)
    then show ?thesis using s
      apply (cases e)
         apply (auto simp: m [symmetric] split: prod.splits if_splits dest: lm dm)
      using ff m by (auto simp: loadProducts_fault_free fault_free_def list_all_tl)
  qed
qed

lemma follow_link_route:
  assumes "k < length st"
  shows "app_step (FollowLink k) (st, ListScreen pg, w) =
    (let (st', pg', w') = detail_step DMount
        (st, initial_DetailPage (Some (js_String (pid (sortedProducts st (sortType pg) ! k)))), w)
     in (st', DetailScreen pg', w'))"
  using assms by (simp add: product_rows_def route_param_product_link Let_def)

lemma app_reachable_inv: "app_reachable c \<Longrightarrow> app_inv c"
proof (induction rule: app_reachable.induct)
  case (start w)
  then show ?case by (simp add: app_inv_def list_inv_def store_wf_def)
next
  case (step c e)
  from step.IH show ?case by (rule app_step_inv)
qed

lemma app_inv_keys: "app_inv c \<Longrightarrow> screen_keys_unique c"
  by (auto simp: app_inv_def screen_keys_unique_def list_inv_def
      intro: list_view_keys detail_view_keys split: prod.splits Screen.splits)

text \<open>C31 (roundtrip): the route of every product row reads back as the product's id: the
  router extracts the parameter of \<open>/product/${product.id}\<close>, and \<open>Number\<close> of
  it is the id.\<close>

theorem link_route_roundtrip:
  "\<exists>s. route_param (product_link p) = Some s \<and> js_Number s = Some (pid p)"
  by (simp add: route_param_product_link js_Number_js_String)

text \<open>C32 (functional): on a reliable network, with the store mirroring the server and its ids
  unique, following the link of row k of the list shows the product of that row with exactly
  its comments, and leaves the store unchanged.\<close>

theorem follow_link_shows_product:
  assumes ff: "fault_free w" and m: "st = products_db (backend w)" and wf: "store_wf st"
    and k: "k < length st"
    and s: "app_step (FollowLink k) (st, ListScreen pg, w) = (st', scr', w')"
  shows "\<exists>pg'. scr' = DetailScreen pg' \<and> st' = st \<and>
    product pg' = Some (sortedProducts st (sortType pg) ! k) \<and>
    dcomments pg' = filter (\<lambda>c. productId c = pid (sortedProducts st (sortType pg) ! k))
      (comments_db (backend w)) \<and>
    detail_status pg' = Ready"
proof -
  define p where "p = sortedProducts st (sortType pg) ! k"
  have "p \<in> set st" using k by (simp add: p_def) (metis nth_mem length_sortedProducts set_sortedProducts)
  then have "find (\<lambda>q. Some (pid q) = js_Number (js_String (pid p))) (products_db (backend w)) = Some p"
    using wf m find_pid_Some by (simp add: js_Number_js_String store_wf_def)
  from load_fault_free [OF ff _ js_String_not_Nil this, of "initial_DetailPage (Some (js_String (pid p)))"]
  show ?thesis
    using s follow_link_route [OF k, of pg w]
    by (simp add: p_def [symmetric] js_Number_js_String detail_status_def initial_DetailPage_def)
qed

lemma follow_link_shows_product_witness:
  "\<exists>pg'. fst (snd (app_step (FollowLink 0) ([demo_product\<lparr>pid := 1\<rparr>], ListScreen initial_ListPage,
      demo_world2))) = DetailScreen pg' \<and>
    product pg' = Some (demo_product\<lparr>pid := 1\<rparr>) \<and> dcomments pg' = [demo_comment] \<and>
    detail_status pg' = Ready"
proof -
  obtain st' scr' w' where r: "app_step (FollowLink 0) ([demo_product\<lparr>pid := 1\<rparr>], ListScreen initial_ListPage,
      demo_world2) = (st', scr', w')" by (metis prod.exhaust)
  have "\<exists>pg'. scr' = DetailScreen pg' \<and> st' = [demo_product\<lparr>pid := 1\<rparr>] \<and>
    product pg' = Some (sortedProducts [demo_product\<lparr>pid := 1\<rparr>] (sortType initial_ListPage) ! 0) \<and>
    dcomments pg' = filter (\<lambda>c. productId c = pid (sortedProducts [demo_product\<lparr>pid := 1\<rparr>] (sortType initial_ListPage) ! 0))
      (comments_db (backend demo_world2)) \<and>
    detail_status pg' = Ready"
    by (rule follow_link_shows_product [OF _ _ _ _ r])
       (simp_all add: fault_free_def demo_world2_def demo_defs store_wf_def)
  then show ?thesis unfolding r
    by (simp add: sortedProducts_def demo_world2_def demo_defs demo_comment_def) blast
qed

text \<open>C33 (refinement): on a reliable network the Redux store refines the server across the
  whole application: from a store that mirrors the server's product collection, every run of
  list-page events, detail-page events, link clicks and Back navigations ends with the store
  equal to the server's collection.\<close>

theorem app_run_mirrors_backend:
  assumes "fault_free w" and "st = products_db (backend w)"
    and "app_run es (st, scr, w) = (st', scr', w')"
  shows "st' = products_db (backend w')"
  using assms
proof (induction es arbitrary: st scr w)
  case Nil
  then show ?case by auto
next
  case (Cons e es)
  obtain st1 scr1 w1 where s: "app_step e (st, scr, w) = (st1, scr1, w1)" by (metis prod.exhaust)
  from app_step_mirror [OF Cons.prems(1,2) s] have "fault_free w1" "st1 = products_db (backend w1)"
    by simp_all
  with Cons.IH [of w1 st1 scr1] Cons.prems(3) s show ?case by simp
qed

lemma app_run_mirrors_backend_witness:
  "\<exists>st' scr' w'. app_run [FollowLink 0, OnDetail EditClick, OnDetail ConfirmUpdate,
      OnDetail (AddCommentClick ''2/1/2025''), GoBack]
      ([demo_product\<lparr>pid := 1\<rparr>], ListScreen initial_ListPage, demo_world2) = (st', scr', w') \<and>
    st' = products_db (backend w')"
proof -
  obtain st' scr' w' where r: "app_run [FollowLink 0, OnDetail EditClick, OnDetail ConfirmUpdate,
      OnDetail (AddCommentClick ''2/1/2025''), GoBack]
      ([demo_product\<lparr>pid := 1\<rparr>], ListScreen initial_ListPage, demo_world2) = (st', scr', w')"
    by (metis prod.exhaust)
  have "st' = products_db (backend w')"
    by (rule app_run_mirrors_backend [OF _ _ r]) (simp_all add: fault_free_def demo_world2_def demo_defs)
  with r show ?thesis by blast
qed

text \<open>C34 (invariant): every configuration reachable from a well-formed server with an empty
  store, under any network behaviour, satisfies the application invariant: the server stays
  well-formed, the store's ids stay unique, and a shown detail page satisfies the detail-page
  invariant (unique comments of the shown product, ids below the server's counter).\<close>

theorem reachable_app_inv:
  assumes "app_reachable c"
  shows "app_inv c"
  using assms by (rule app_reachable_inv)

lemma reachable_app_inv_witness:
  "app_inv (app_step (FollowLink 0) (app_step (OnList Mount) ([], ListScreen initial_ListPage, demo_world2)))"
proof -
  have "backend_wf (backend demo_world2)"
    by (simp add: backend_wf_def demo_world2_def demo_defs demo_comment_def)
  then show ?thesis
    by (intro reachable_app_inv app_reachable.step app_reachable.start)
qed

text \<open>C35 (functional): Back from a shown product remounts the list page with its initial
  state, and on a reliable network its \<open>fetchProducts\<close> replaces the store by the server's
  collection, whatever the store held before; the server is not written.\<close>

theorem back_resyncs_store:
  assumes "fault_free w" and "product pg \<noteq> None"
    and "app_step GoBack (st, DetailScreen pg, w) = (st', scr', w')"
  shows "scr' = ListScreen initial_ListPage \<and> st' = products_db (backend w) \<and>
    backend w' = backend w \<and> requests w' = requests w @ [GetProducts]"
  using assms by (auto simp: loadProducts_fault_free)

lemma back_resyncs_store_witness:
  "app_step GoBack ([], DetailScreen demo_detail, demo_world2) =
     (products_db (backend demo_world2), ListScreen initial_ListPage,
      demo_world2\<lparr>requests := [GetProducts]\<rparr>)"
proof -
  obtain st' scr' w' where r: "app_step GoBack ([], DetailScreen demo_detail, demo_world2) = (st', scr', w')"
    by (metis prod.exhaust)
  have "scr' = ListScreen initial_ListPage \<and> st' = products_db (backend demo_world2) \<and>
    backend w' = backend demo_world2 \<and> requests w' = requests demo_world2 @ [GetProducts]"
    by (rule back_resyncs_store [OF _ _ r]) (simp_all add: fault_free_def demo_world2_def demo_defs demo_detail_def)
  with r show ?thesis
    by (simp add: loadProducts_fault_free fault_free_def demo_world2_def demo_defs demo_detail_def)
qed

lemma route_valid_step: "route_valid scr \<Longrightarrow> route_valid (fst (snd (app_step e (st, scr, w))))"
proof (cases scr)
  case (ListScreen pg)
  assume "route_valid scr"
  show ?thesis
  proof (cases "\<exists>k. e = FollowLink k \<and> k < length st")
    case True
    then obtain k where k: "e = FollowLink k" "k < length st" by blast
    show ?thesis using ListScreen k follow_link_route [OF k(2), of pg w]
      route_id_detail_step [of DMount st "initial_DetailPage (Some (js_String (pid (sortedProducts st (sortType pg) ! k))))" w]
      by (auto simp: route_valid_def initial_DetailPage_def js_Number_js_String split: prod.splits)
  next
    case False
    with ListScreen show ?thesis
      by (cases e) (auto simp: route_valid_def product_rows_def split: prod.splits)
  qed
next
  case (DetailScreen pg)
  assume v: "route_valid scr"
  show ?thesis
  proof (cases e)
    case (OnDetail e')
    obtain st' pg' w' where r: "detail_step e' (st, pg, w) = (st', pg', w')" by (metis prod.exhaust)
    have "route_id pg' = route_id pg" using route_id_detail_step [of e' st pg w] r by simp
    with v DetailScreen OnDetail r show ?thesis by (simp add: route_valid_def)
  qed (use v DetailScreen in \<open>auto simp: route_valid_def split: prod.splits\<close>)
qed

text \<open>C37 (type): in every reachable configuration the detail page's route parameter is a
  non-empty string that \<open>Number\<close> reads as an integer: \<open>Number(id)\<close> is never \<open>NaN\<close>
  and the \<open>if (!id) return\<close> guard of the load never fires.\<close>

theorem reachable_route_is_number:
  assumes "app_reachable c"
  shows "route_valid (fst (snd c))"
  using assms
proof (induction rule: app_reachable.induct)
  case (start w)
  then show ?case by (simp add: route_valid_def)
next
  case (step c e)
  then show ?case using route_valid_step [of "fst (snd c)" e "fst c" "snd (snd c)"] by simp
qed

lemma reachable_route_is_number_witness:
  "route_valid (fst (snd (app_step (FollowLink 0)
     (app_step (OnList Mount) ([], ListScreen initial_ListPage, demo_world2))))) \<and>
   (\<exists>pg. fst (snd (app_step (FollowLink 0)
     (app_step (OnList Mount) ([], ListScreen initial_ListPage, demo_world2)))) = DetailScreen pg)"
proof -
  have "backend_wf (backend demo_world2)"
    by (simp add: backend_wf_def demo_world2_def demo_defs demo_comment_def)
  then have "route_valid (fst (snd (app_step (FollowLink 0)
     (app_step (OnList Mount) ([], ListScreen initial_ListPage, demo_world2)))))"
    by (intro reachable_route_is_number app_reachable.step app_reachable.start)
  moreover have "\<exists>pg. fst (snd (app_step (FollowLink 0)
     (app_step (OnList Mount) ([], ListScreen initial_ListPage, demo_world2)))) = DetailScreen pg"
    by (simp add: loadProducts_fault_free fault_free_def demo_world2_def demo_defs slice_setProducts_def
        product_rows_def sortedProducts_def route_param_product_link
        Let_def split: prod.splits)
  ultimately show ?thesis by blast
qed

text \<open>C18 (invariant): in every reachable configuration the rendered screen gives React
  unique keys: the list items' \<open>key={product.id}\<close> and the comment rows'
  \<open>key={comment.id}\<close> never repeat, so React never confuses two rows between renders.\<close>

theorem reachable_keys_unique:
  assumes "app_reachable c"
  shows "screen_keys_unique c"
  using app_inv_keys [OF app_reachable_inv [OF assms]] .

lemma reachable_keys_unique_witness:
  "screen_keys_unique (app_step (FollowLink 0)
     (app_step (OnList Mount) ([], ListScreen initial_ListPage, demo_world2)))"
proof -
  have "backend_wf (backend demo_world2)"
    by (simp add: backend_wf_def demo_world2_def demo_defs demo_comment_def)
  then show ?thesis
    by (intro reachable_keys_unique app_reachable.step app_reachable.start)
qed

end
